(* ===== verification/Prelude.thy ===== *)
theory Prelude
  imports Main "HOL-Library.Word" "HOL-Library.Sublist"
begin

text \<open>
  Shared vocabulary of the development.

  \<^item> \<open>Result<T, E>\<close> is the sum \<open>E + T\<close>: \<open>Err\<close> is the left injection, \<open>Ok\<close> the
    right one; \<open>map_err\<close>, \<open>ok_or\<close> and \<open>and_then\<close> (the \<open>?\<close> operator) are the
    library methods the sources use.
  \<^item> \<open>String\<close>, \<open>&str\<close> and \<open>Vec<u8>\<close> are byte strings: a Rust string is a list of the
    bytes of its UTF-8 encoding (\<^typ>\<open>string\<close>), a byte vector a list of \<open>8 word\<close>.
  \<^item> \<open>exec\<close> is the result of running code that may panic or that may exhaust the step
    bound of the model.
  \<^item> the string functions of the standard library the sources call: \<open>split_once\<close>,
    \<open>split(c).next()\<close>, \<open>chars().count()\<close>, and the \<open>Debug\<close> formatting of a string.
\<close>

section \<open>Lemma collections\<close>

text \<open>
  \<open>frame\<close> holds the equations that say which part of the world an operation leaves
  alone; \<open>caps\<close> the algebra of capability sets; \<open>panics\<close> the facts that an operation
  does not panic.
\<close>

named_theorems frame
named_theorems caps

section \<open>Results\<close>

abbreviation Ok :: "'a \<Rightarrow> 'e + 'a" where
  "Ok \<equiv> Inr"

abbreviation Err :: "'e \<Rightarrow> 'e + 'a" where
  "Err \<equiv> Inl"

definition map_err :: "('e \<Rightarrow> 'f) \<Rightarrow> 'e + 'a \<Rightarrow> 'f + 'a" where
  "map_err f r = (case r of Inl e \<Rightarrow> Inl (f e) | Inr x \<Rightarrow> Inr x)"

definition ok_or :: "'e \<Rightarrow> 'a option \<Rightarrow> 'e + 'a" where
  "ok_or e x = (case x of None \<Rightarrow> Inl e | Some a \<Rightarrow> Inr a)"

text \<open>The \<open>?\<close> operator: return the error, or go on with the value.\<close>

definition and_then :: "'e + 'a \<Rightarrow> ('a \<Rightarrow> 'e + 'b) \<Rightarrow> 'e + 'b" where
  "and_then r f = (case r of Inl e \<Rightarrow> Inl e | Inr x \<Rightarrow> f x)"

definition is_ok :: "'e + 'a \<Rightarrow> bool" where
  "is_ok r = (case r of Inl _ \<Rightarrow> False | Inr _ \<Rightarrow> True)"

lemma map_err_simps [simp]:
  "map_err f (Inl e) = Inl (f e)"
  "map_err f (Inr x) = Inr x"
  by (simp_all add: map_err_def)

lemma map_err_eq_Ok [simp]: "map_err f r = Inr x \<longleftrightarrow> r = Inr x"
  by (cases r) auto

lemma map_err_eq_Err [simp]: "map_err f r = Inl e' \<longleftrightarrow> (\<exists>e. r = Inl e \<and> e' = f e)"
  by (cases r) auto

lemma ok_or_simps [simp]:
  "ok_or e None = Inl e"
  "ok_or e (Some x) = Inr x"
  by (simp_all add: ok_or_def)

lemma ok_or_eq_Ok [simp]: "ok_or e x = Inr a \<longleftrightarrow> x = Some a"
  by (cases x) auto

lemma ok_or_eq_Err [simp]: "ok_or e x = Inl e' \<longleftrightarrow> x = None \<and> e' = e"
  by (cases x) auto

lemma and_then_simps [simp]:
  "and_then (Inl e) f = Inl e"
  "and_then (Inr x) f = f x"
  by (simp_all add: and_then_def)

lemma and_then_eq_Ok: "and_then r f = Inr y \<longleftrightarrow> (\<exists>x. r = Inr x \<and> f x = Inr y)"
  by (cases r) auto

lemma is_ok_simps [simp]:
  "is_ok (Inl e) = False"
  "is_ok (Inr x) = True"
  by (simp_all add: is_ok_def)

lemma is_ok_iff: "is_ok r \<longleftrightarrow> (\<exists>x. r = Inr x)"
  by (cases r) auto

section \<open>Runs that may panic\<close>

text \<open>
  \<open>Done\<close> is a normal return; \<open>Panicked\<close> carries the panic message; \<open>OutOfFuel\<close> says
  that the step bound of the model was reached, that is, the code had not returned yet.
\<close>

datatype 'a exec = Done 'a | Panicked string | OutOfFuel

section \<open>Strings\<close>

type_synonym u8 = "8 word"
type_synonym u64 = "64 word"
type_synonym bytes = "8 word list"

text \<open>\<open>s.split_once(pat)\<close>: the parts before and after the first occurrence.\<close>

fun split_once :: "string \<Rightarrow> string \<Rightarrow> (string \<times> string) option" where
  "split_once pat [] = (if pat = [] then Some ([], []) else None)"
| "split_once pat (c # cs) =
     (if prefix pat (c # cs) then Some ([], drop (length pat) (c # cs))
      else map_option (\<lambda>(a, b). (c # a, b)) (split_once pat cs))"

lemma split_once_append:
  "split_once pat s = Some (a, b) \<Longrightarrow> s = a @ pat @ b"
proof (induction s arbitrary: a)
  case Nil
  then show ?case by (auto split: if_splits)
next
  case (Cons c cs)
  then show ?case
    by (auto simp: prefix_def split: if_splits)
qed

text \<open>\<open>s.split(c).next()\<close>: the part before the first separator; it is never absent.\<close>

definition split_next :: "char \<Rightarrow> string \<Rightarrow> string option" where
  "split_next c s = Some (takeWhile (\<lambda>x. x \<noteq> c) s)"

text \<open>\<open>s.split(c)\<close>: all the parts, empty ones included.\<close>

fun split_on :: "char \<Rightarrow> string \<Rightarrow> string list" where
  "split_on c [] = [[]]"
| "split_on c (x # xs) =
     (if x = c then [] # split_on c xs
      else (case split_on c xs of
              [] \<Rightarrow> [[x]]
            | p # ps \<Rightarrow> (x # p) # ps))"

lemma split_on_nonempty [simp]: "split_on c s \<noteq> []"
  by (cases s) (auto split: list.splits)

lemma split_on_no_sep: "c \<notin> set s \<Longrightarrow> split_on c s = [s]"
  by (induction s) auto

lemma split_on_append_sep: "split_on c (s @ c # t) = split_on c s @ split_on c t"
  by (induction s) (auto split: list.splits)

lemma split_on_parts_no_sep: "p \<in> set (split_on c s) \<Longrightarrow> c \<notin> set p"
  by (induction s arbitrary: p) (auto split: list.splits if_splits)

text \<open>\<open>s.chars().count()\<close>: every byte but the continuation bytes \<open>0b10xxxxxx\<close> starts a
  character of a UTF-8 string.\<close>

definition continuation_byte :: "char \<Rightarrow> bool" where
  "continuation_byte c \<longleftrightarrow> (let n = (of_char c :: nat) in 128 \<le> n \<and> n < 192)"

definition chars_count :: "string \<Rightarrow> nat" where
  "chars_count s = length (filter (\<lambda>c. \<not> continuation_byte c) s)"

subsection \<open>Formatting\<close>

text \<open>Decimal digits of a number, as \<open>Display\<close> prints an unsigned integer.\<close>

fun dec_nat :: "nat \<Rightarrow> string" where
  "dec_nat n = (if n < 10 then [char_of (48 + n)]
                else dec_nat (n div 10) @ [char_of (48 + n mod 10)])"

declare dec_nat.simps [simp del]

definition dec_u64 :: "u64 \<Rightarrow> string" where
  "dec_u64 w = dec_nat (unat w)"

text \<open>Lower-case hexadecimal digits, for the \<open>\u{..}\<close> escapes of control characters.\<close>

definition hex_digit :: "nat \<Rightarrow> char" where
  "hex_digit n = (if n < 10 then char_of (48 + n) else char_of (87 + n))"

definition hex_byte :: "nat \<Rightarrow> string" where
  "hex_byte n = (if n < 16 then [hex_digit n] else [hex_digit (n div 16), hex_digit (n mod 16)])"

text \<open>
  \<open>{:?}\<close> of a string: quoted, with the escapes of \<open>char::escape_debug\<close>. The escapes
  of ASCII characters are exact; a byte of a character beyond ASCII is printed as it is
  (Rust escapes the unprintable ones among those too).
\<close>

definition debug_char :: "char \<Rightarrow> string" where
  "debug_char c =
     (let n = of_char c :: nat in
      if n = 0 then [CHR 0x5C, CHR ''0'']
      else if n = 9 then [CHR 0x5C, CHR ''t'']
      else if n = 10 then [CHR 0x5C, CHR ''n'']
      else if n = 13 then [CHR 0x5C, CHR ''r'']
      else if n = 34 then [CHR 0x5C, CHR 0x22]
      else if n = 92 then [CHR 0x5C, CHR 0x5C]
      else if n < 32 \<or> n = 127 then [CHR 0x5C, CHR ''u'', CHR ''{''] @ hex_byte n @ [CHR ''}'']
      else [c])"

definition debug_str :: "string \<Rightarrow> string" where
  "debug_str s = [CHR 0x22] @ concat (map debug_char s) @ [CHR 0x22]"

definition debug_option :: "('a \<Rightarrow> string) \<Rightarrow> 'a option \<Rightarrow> string" where
  "debug_option f x = (case x of None \<Rightarrow> ''None'' | Some a \<Rightarrow> ''Some('' @ f a @ '')'')"

section \<open>Association lists kept in key order\<close>

text \<open>
  \<open>insert\<close> of an ordered map written as an association list: the value of an existing
  key is replaced, a new key goes to its place in the order.
\<close>

fun string_less :: "string \<Rightarrow> string \<Rightarrow> bool" where
  "string_less [] [] = False"
| "string_less [] (_ # _) = True"
| "string_less (_ # _) [] = False"
| "string_less (x # xs) (y # ys) =
     (if x = y then string_less xs ys else (of_char x :: nat) < of_char y)"

fun ordered_insert :: "string \<Rightarrow> 'v \<Rightarrow> (string \<times> 'v) list \<Rightarrow> (string \<times> 'v) list" where
  "ordered_insert k v [] = [(k, v)]"
| "ordered_insert k v ((k', v') # kvs) =
     (if k = k' then (k, v) # kvs
      else if string_less k k' then (k, v) # (k', v') # kvs
      else (k', v') # ordered_insert k v kvs)"

lemma map_of_ordered_insert [simp]: "map_of (ordered_insert k v kvs) = (map_of kvs)(k \<mapsto> v)"
  by (induction kvs) (auto simp: fun_eq_iff)

lemma set_ordered_insert_keys:
  "fst ` set (ordered_insert k v kvs) = insert k (fst ` set kvs)"
  by (induction k v kvs rule: ordered_insert.induct) auto

text \<open>The keys of such a map are strictly increasing in the byte order of strings.\<close>

lemma string_less_irrefl [simp]: "\<not> string_less x x"
  by (induction x) auto

lemma string_less_trans: "string_less x y \<Longrightarrow> string_less y z \<Longrightarrow> string_less x z"
proof (induction x y arbitrary: z rule: string_less.induct)
  case (4 x xs y ys)
  then show ?case by (cases z) (auto split: if_splits)
qed (auto elim: string_less.elims)

lemma string_less_total: "x \<noteq> y \<Longrightarrow> string_less x y \<or> string_less y x"
proof (induction x y rule: string_less.induct)
  case (4 x xs y ys)
  then show ?case by (auto simp: not_less order_le_less)
qed auto

definition ordered_keys :: "(string \<times> 'v) list \<Rightarrow> bool" where
  "ordered_keys kvs = sorted_wrt string_less (map fst kvs)"

lemma ordered_keys_Nil [simp]: "ordered_keys []"
  by (simp add: ordered_keys_def)

lemma ordered_keys_distinct: "ordered_keys kvs \<Longrightarrow> distinct (map fst kvs)"
  unfolding ordered_keys_def
  by (induction kvs) (auto simp: image_iff)

lemma ordered_keys_insert: "ordered_keys kvs \<Longrightarrow> ordered_keys (ordered_insert k v kvs)"
  unfolding ordered_keys_def
proof (induction k v kvs rule: ordered_insert.induct)
  case (2 k v k' v' kvs)
  consider "k = k'" | "k \<noteq> k'" "string_less k k'" | "k \<noteq> k'" "\<not> string_less k k'" by blast
  then show ?case
  proof cases
    case 1
    with "2.prems" show ?thesis by simp
  next
    case 2
    have "\<forall>x \<in> fst ` set kvs. string_less k' x" using "2.prems" by simp
    then have "\<forall>x \<in> fst ` set kvs. string_less k x"
      using string_less_trans [OF 2(2)] by blast
    with 2 "2.prems" show ?thesis by simp
  next
    case 3
    then have "string_less k' k" using string_less_total by blast
    moreover have "\<forall>x \<in> fst ` set kvs. string_less k' x" using "2.prems" by simp
    ultimately have "\<forall>x \<in> fst ` set (ordered_insert k v kvs). string_less k' x"
      by (simp add: set_ordered_insert_keys)
    moreover have "sorted_wrt string_less (map fst (ordered_insert k v kvs))"
      using "2.prems" by (intro "2.IH" 3) simp
    ultimately show ?thesis using 3 by simp
  qed
qed simp

subsection \<open>Unwrapping\<close>

definition unwrap :: "('e \<Rightarrow> string) \<Rightarrow> 'e + 'a \<Rightarrow> 'a exec" where
  "unwrap debug r =
     (case r of
        Ok x \<Rightarrow> Done x
      | Err e \<Rightarrow> Panicked (''called `Result::unwrap()` on an `Err` value: '' @ debug e))"

definition unwrap_err :: "'e + 'a \<Rightarrow> 'e exec" where
  "unwrap_err r =
     (case r of
        Err e \<Rightarrow> Done e
      | Ok x \<Rightarrow> Panicked ''called `Result::unwrap_err()` on an `Ok` value'')"

end
