(* ===== verification/Contract.thy ===== *)
theory Contract
  imports Prelude
begin

text \<open>
  The shared protocol data of \<open>crates/contract/src/lib.rs\<close>: tool outcomes and metadata,
  coarse capability sets, invocation parameters, policy grants and reports, grant records.

  \<open>Capabilities\<close> is declared there with \<open>bitflags\<close> as a newtype of \<open>u64\<close> in which every
  bit is a known flag (\<open>const _ = !0\<close>); it is modelled as the 64-bit word of its bits, with
  the documented meaning of the operations the sources use: \<open>empty\<close> has no bit,
  \<open>|=\<close> is the bitwise or, \<open>contains\<close> says that every bit of its argument is set.
  The JSON values of \<open>serde_json\<close> are the datatype \<open>json\<close> below; an object is an association
  list in key order (the default map of that crate is ordered by key), a number is an
  unsigned or a negative 64-bit integer or a float given by its 64 bits.
\<close>

unbundle bit_operations_syntax

section \<open>JSON values\<close>

datatype json_number =
    PosInt u64
  | NegInt u64
  | FloatBits u64

datatype json =
    JNull
  | JBool bool
  | JNumber json_number
  | JString string
  | JArray "json list"
  | JObject "(string \<times> json) list"

text \<open>\<open>value.get(key)\<close>, \<open>as_str\<close>, \<open>as_array\<close> and \<open>as_object\<close>: absent on any other shape.\<close>

fun json_get :: "string \<Rightarrow> json \<Rightarrow> json option" where
  "json_get k (JObject kvs) = map_of kvs k"
| "json_get k _ = None"

fun as_str :: "json \<Rightarrow> string option" where
  "as_str (JString s) = Some s"
| "as_str _ = None"

fun as_array :: "json \<Rightarrow> json list option" where
  "as_array (JArray xs) = Some xs"
| "as_array _ = None"

fun as_object :: "json \<Rightarrow> (string \<times> json) list option" where
  "as_object (JObject kvs) = Some kvs"
| "as_object _ = None"

text \<open>\<open>json!\<close> with an object literal inserts its entries one by one.\<close>

definition json_object :: "(string \<times> json) list \<Rightarrow> json" where
  "json_object kvs = JObject (fold (\<lambda>(k, v) m. ordered_insert k v m) kvs [])"

lemma fold_ordered_insert_map_of:
  "map_of (fold (\<lambda>(k, v) m. ordered_insert k v m) kvs m) k
     = (case map_of (rev kvs) k of Some v \<Rightarrow> Some v | None \<Rightarrow> map_of m k)"
  by (induction kvs arbitrary: m)
    (auto simp: map_add_def split: option.splits)

lemma json_get_object: "json_get k (json_object kvs) = map_of (rev kvs) k"
  by (simp add: json_object_def fold_ordered_insert_map_of split: option.split)

section \<open>Tool outcomes\<close>

datatype output_classification = Public | WorkspaceLocal | Sensitive

record tool_outcome =
  out_payload :: json
  out_classification :: output_classification

section \<open>Capabilities\<close>

datatype capability =
    FsRead | FsWrite | FsList | FsMetadata
  | ProcessSpawn | ProcessSignal | ProcessIo
  | SecretList | SecretRead | SecretMutate
  | NetworkFetch | NetworkBind
  | ScheduleList | ScheduleRead | ScheduleMutate
  | AgentSpawn
  | JobSpawn
  | TimeRead

text \<open>The explicit discriminants of the enum; \<open>index\<close> is the cast to \<open>u8\<close>.\<close>

fun capability_index :: "capability \<Rightarrow> nat" where
  "capability_index FsRead = 0"
| "capability_index FsWrite = 1"
| "capability_index FsList = 2"
| "capability_index FsMetadata = 3"
| "capability_index ProcessSpawn = 8"
| "capability_index ProcessSignal = 9"
| "capability_index ProcessIo = 10"
| "capability_index SecretList = 16"
| "capability_index SecretRead = 17"
| "capability_index SecretMutate = 18"
| "capability_index NetworkFetch = 24"
| "capability_index NetworkBind = 25"
| "capability_index ScheduleList = 32"
| "capability_index ScheduleRead = 33"
| "capability_index ScheduleMutate = 34"
| "capability_index AgentSpawn = 40"
| "capability_index JobSpawn = 48"
| "capability_index TimeRead = 56"

type_synonym capabilities = u64

definition capability_bit :: "capability \<Rightarrow> u64" where
  "capability_bit c = push_bit (capability_index c) 1"

definition caps_empty :: capabilities where
  "caps_empty = 0"

definition caps_contains :: "capabilities \<Rightarrow> capabilities \<Rightarrow> bool" where
  "caps_contains self other \<longleftrightarrow> self AND other = other"

definition caps_of_capability :: "capability \<Rightarrow> capabilities" where
  "caps_of_capability c = capability_bit c"

definition allows :: "capabilities \<Rightarrow> capability \<Rightarrow> bool" where
  "allows self c = caps_contains self (caps_of_capability c)"

definition allows_all :: "capabilities \<Rightarrow> capabilities \<Rightarrow> bool" where
  "allows_all self other = caps_contains self other"

fun caps_or_all :: "capabilities \<Rightarrow> capability list \<Rightarrow> capabilities" where
  "caps_or_all acc [] = acc"
| "caps_or_all acc (c # cs) = caps_or_all (acc OR caps_of_capability c) cs"

definition caps_from_iter :: "capability list \<Rightarrow> capabilities" where
  "caps_from_iter cs = caps_or_all caps_empty cs"

text \<open>\<open>From<T: AsRef<[Capability]>>\<close> collects a copy of the slice.\<close>

definition caps_from_slice :: "capability list \<Rightarrow> capabilities" where
  "caps_from_slice cs = caps_from_iter (map (\<lambda>c. c) cs)"

subsection \<open>The algebra of capability sets\<close>

lemma capability_index_less: "capability_index c < 64"
  by (cases c) auto

lemma capability_index_inj: "capability_index c = capability_index d \<Longrightarrow> c = d"
  by (cases c; cases d) auto

lemma bit_capability_bit [simp]:
  "bit (capability_bit c) n \<longleftrightarrow> n = capability_index c"
  using capability_index_less [of c]
  by (auto simp: capability_bit_def bit_simps)

lemma bit_caps_empty [simp]: "\<not> bit caps_empty n"
  by (simp add: caps_empty_def)

lemma bit_u64_less: "bit (w :: u64) n \<Longrightarrow> n < 64"
  using bit_imp_le_length [of w n] by simp

lemma u64_eq_iff_bits: "(a :: u64) = b \<longleftrightarrow> (\<forall>n. bit a n \<longleftrightarrow> bit b n)"
  by (metis bit_eq_iff)

lemma caps_contains_iff_bits:
  "caps_contains a b \<longleftrightarrow> (\<forall>n. bit b n \<longrightarrow> bit a n)"
  unfolding caps_contains_def u64_eq_iff_bits
  by (auto simp: bit_and_iff)

lemma caps_contains_refl [simp, caps]: "caps_contains a a"
  by (simp add: caps_contains_iff_bits)

lemma caps_contains_trans [caps]:
  "caps_contains a b \<Longrightarrow> caps_contains b c \<Longrightarrow> caps_contains a c"
  by (simp add: caps_contains_iff_bits)

lemma caps_contains_antisym: "caps_contains a b \<Longrightarrow> caps_contains b a \<Longrightarrow> a = b"
  by (simp add: caps_contains_def and.commute)

lemma caps_contains_empty [simp, caps]: "caps_contains a caps_empty"
  by (simp add: caps_contains_iff_bits)

lemma caps_empty_contains: "caps_contains caps_empty a \<longleftrightarrow> a = caps_empty"
  by (auto simp: caps_contains_iff_bits u64_eq_iff_bits)

lemma allows_iff_bit: "allows a c \<longleftrightarrow> bit a (capability_index c)"
  by (simp add: allows_def caps_of_capability_def caps_contains_iff_bits)

lemma allows_mono [caps]: "caps_contains a b \<Longrightarrow> allows b c \<Longrightarrow> allows a c"
  by (simp add: allows_iff_bit caps_contains_iff_bits)

lemma bit_caps_or_all:
  "bit (caps_or_all acc cs) n \<longleftrightarrow> bit acc n \<or> (\<exists>c \<in> set cs. capability_index c = n)"
  by (induction acc cs rule: caps_or_all.induct)
    (auto simp: bit_or_iff caps_of_capability_def)

lemma bit_caps_from_slice:
  "bit (caps_from_slice cs) n \<longleftrightarrow> (\<exists>c \<in> set cs. capability_index c = n)"
  by (simp add: caps_from_slice_def caps_from_iter_def bit_caps_or_all)

lemma not_allows_empty [simp]: "\<not> allows caps_empty c"
  by (simp add: allows_iff_bit)

text \<open>A capability set built from a list allows exactly the capabilities of the list:
  the discriminants are distinct bit positions below 64, so no slot aliases another.\<close>

theorem caps_from_slice_allows: "allows (caps_from_slice cs) c \<longleftrightarrow> c \<in> set cs"
  by (auto simp: allows_iff_bit bit_caps_from_slice dest: capability_index_inj)

section \<open>Tool metadata and invocation parameters\<close>

record tool_spec =
  tool_name :: string
  description :: string
  capabilities_of :: capabilities

record invocation_params =
  params_workspace_root :: string
  capabilities_override :: "capabilities option"

definition invocation_params_new :: "string \<Rightarrow> capabilities option \<Rightarrow> invocation_params" where
  "invocation_params_new workspace_root caps_override =
     \<lparr>params_workspace_root = workspace_root, capabilities_override = caps_override\<rparr>"

section \<open>Audit resources and identifiers\<close>

datatype audit_resource = ResPath string | ResValue string | ResNone

datatype grant_id = GrantId u64

definition grant_id_from_raw :: "u64 \<Rightarrow> grant_id" where
  "grant_id_from_raw value = GrantId value"

fun grant_id_get :: "grant_id \<Rightarrow> u64" where
  "grant_id_get (GrantId v) = v"

type_synonym policy_id = u64

section \<open>Policy grants and reports\<close>

datatype policy_decision = Allow | Deny | Abstain

record policy_grant =
  decision :: policy_decision
  reason :: "string option"
  predicate :: "string option"

definition policy_grant_allow :: "string option \<Rightarrow> policy_grant" where
  "policy_grant_allow r = \<lparr>decision = Allow, reason = r, predicate = None\<rparr>"

definition policy_grant_deny :: "string option \<Rightarrow> policy_grant" where
  "policy_grant_deny r = \<lparr>decision = Deny, reason = r, predicate = None\<rparr>"

definition policy_grant_abstain :: "string option \<Rightarrow> policy_grant" where
  "policy_grant_abstain r = \<lparr>decision = Abstain, reason = r, predicate = None\<rparr>"

definition with_predicate :: "policy_grant \<Rightarrow> string \<Rightarrow> policy_grant" where
  "with_predicate g p = g\<lparr>predicate := Some p\<rparr>"

definition into_decision_and_reason :: "policy_grant \<Rightarrow> policy_decision \<times> string option" where
  "into_decision_and_reason g = (decision g, reason g)"

lemma policy_grant_simps [simp]:
  "decision (policy_grant_allow r) = Allow"
  "decision (policy_grant_deny r) = Deny"
  "decision (policy_grant_abstain r) = Abstain"
  "reason (policy_grant_allow r) = r"
  "reason (policy_grant_deny r) = r"
  "reason (policy_grant_abstain r) = r"
  "decision (with_predicate g p) = decision g"
  "reason (with_predicate g p) = reason g"
  "predicate (with_predicate g p) = Some p"
  by (simp_all add: policy_grant_allow_def policy_grant_deny_def policy_grant_abstain_def
      with_predicate_def)

datatype grant_decision = GrantAllow grant_id | GrantDeny

datatype grant_source = SourcePolicy string policy_id | NoMatchingPolicy

record policy_evaluation =
  policy_name :: string
  eval_policy_id :: policy_id
  policy_stage :: string
  eval_grant :: policy_grant

definition policy_evaluation_new ::
  "string \<Rightarrow> policy_id \<Rightarrow> string \<Rightarrow> policy_grant \<Rightarrow> policy_evaluation" where
  "policy_evaluation_new name i stage g =
     \<lparr>policy_name = name, eval_policy_id = i, policy_stage = stage, eval_grant = g\<rparr>"

datatype policy_outcome =
    OutcomeAllow string policy_id "string option"
  | OutcomeDeny grant_source "string option"

record policy_report =
  evaluations :: "policy_evaluation list"
  report_outcome :: policy_outcome

definition report_allow ::
  "policy_evaluation list \<Rightarrow> string \<Rightarrow> policy_id \<Rightarrow> string option \<Rightarrow> policy_report" where
  "report_allow evals name i r = \<lparr>evaluations = evals, report_outcome = OutcomeAllow name i r\<rparr>"

definition report_deny_from_policy ::
  "policy_evaluation list \<Rightarrow> string \<Rightarrow> policy_id \<Rightarrow> string option \<Rightarrow> policy_report" where
  "report_deny_from_policy evals name i r =
     \<lparr>evaluations = evals, report_outcome = OutcomeDeny (SourcePolicy name i) r\<rparr>"

definition report_deny_without_match ::
  "policy_evaluation list \<Rightarrow> string option \<Rightarrow> policy_report" where
  "report_deny_without_match evals r =
     \<lparr>evaluations = evals, report_outcome = OutcomeDeny NoMatchingPolicy r\<rparr>"

lemmas report_defs =
  report_allow_def report_deny_from_policy_def report_deny_without_match_def

section \<open>Grant records\<close>

record grant_record =
  rec_decision :: grant_decision
  action_kind :: string
  resource :: audit_resource
  grant_src :: grant_source
  rec_reason :: "string option"

definition grant_record_allow ::
  "grant_id \<Rightarrow> string \<Rightarrow> audit_resource \<Rightarrow> string \<Rightarrow> policy_id \<Rightarrow> string option \<Rightarrow> grant_record" where
  "grant_record_allow gid kind res name i r =
     \<lparr>rec_decision = GrantAllow gid, action_kind = kind, resource = res,
      grant_src = SourcePolicy name i, rec_reason = r\<rparr>"

definition grant_record_deny_from_policy ::
  "string \<Rightarrow> audit_resource \<Rightarrow> string \<Rightarrow> policy_id \<Rightarrow> string option \<Rightarrow> grant_record" where
  "grant_record_deny_from_policy kind res name i r =
     \<lparr>rec_decision = GrantDeny, action_kind = kind, resource = res,
      grant_src = SourcePolicy name i, rec_reason = r\<rparr>"

definition grant_record_deny_without_match ::
  "string \<Rightarrow> audit_resource \<Rightarrow> string option \<Rightarrow> grant_record" where
  "grant_record_deny_without_match kind res r =
     \<lparr>rec_decision = GrantDeny, action_kind = kind, resource = res,
      grant_src = NoMatchingPolicy, rec_reason = r\<rparr>"

definition grant_record_grant_id :: "grant_record \<Rightarrow> grant_id option" where
  "grant_record_grant_id r =
     (case rec_decision r of GrantAllow gid \<Rightarrow> Some gid | GrantDeny \<Rightarrow> None)"

lemmas grant_record_defs =
  grant_record_allow_def grant_record_deny_from_policy_def
  grant_record_deny_without_match_def

end
