(* ===== verification/Paths.thy ===== *)
theory Paths
  imports Prelude
begin

text \<open>
  \<open>std::path\<close> on Unix, as far as the access crates use it: \<open>components\<close>, \<open>starts_with\<close>,
  \<open>is_absolute\<close>, \<open>join\<close>, \<open>file_name\<close>, \<open>parent\<close> and the equality of paths, which compares
  components. A path is its byte string. Canonical paths, the ones \<open>std::fs::canonicalize\<close>
  returns, are the strings \<open>path_of_names ns\<close>: a slash before every name.
\<close>

section \<open>Components\<close>

datatype path_component = RootDir | CurDir | ParentDir | Normal string

definition is_absolute :: "string \<Rightarrow> bool" where
  "is_absolute p = (case p of [] \<Rightarrow> False | c # _ \<Rightarrow> c = CHR ''/'')"

fun component_of_part :: "string \<Rightarrow> path_component list" where
  "component_of_part s =
     (if s = [] \<or> s = ''.'' then [] else if s = ''..'' then [ParentDir] else [Normal s])"

text \<open>Empty parts and \<open>.\<close> are skipped, except for a \<open>.\<close> that starts a relative path.\<close>

definition components :: "string \<Rightarrow> path_component list" where
  "components p =
     (let parts = split_on (CHR ''/'') p in
      if is_absolute p then RootDir # concat (map component_of_part parts)
      else (if hd parts = ''.'' then [CurDir] else []) @ concat (map component_of_part parts))"

definition path_eq :: "string \<Rightarrow> string \<Rightarrow> bool" where
  "path_eq p q \<longleftrightarrow> components p = components q"

definition path_starts_with :: "string \<Rightarrow> string \<Rightarrow> bool" where
  "path_starts_with p base \<longleftrightarrow> prefix (components base) (components p)"

definition path_join :: "string \<Rightarrow> string \<Rightarrow> string" where
  "path_join base p =
     (if is_absolute p then p
      else if base = [] \<or> last base = CHR ''/'' then base @ p
      else base @ ''/'' @ p)"

definition path_file_name :: "string \<Rightarrow> string option" where
  "path_file_name p =
     (case rev (components p) of Normal n # _ \<Rightarrow> Some n | _ \<Rightarrow> None)"

text \<open>\<open>as_path\<close> of a component sequence, up to the equality of paths.\<close>

fun component_string :: "path_component \<Rightarrow> string" where
  "component_string RootDir = ''''"
| "component_string CurDir = ''.''"
| "component_string ParentDir = ''..''"
| "component_string (Normal n) = n"

fun join_slash :: "string list \<Rightarrow> string" where
  "join_slash [] = ''''"
| "join_slash [x] = x"
| "join_slash (x # y # ys) = x @ ''/'' @ join_slash (y # ys)"

definition path_of_components :: "path_component list \<Rightarrow> string" where
  "path_of_components cs =
     (if cs = [RootDir] then ''/'' else join_slash (map component_string cs))"

definition path_parent :: "string \<Rightarrow> string option" where
  "path_parent p =
     (case rev (components p) of
        [] \<Rightarrow> None
      | RootDir # _ \<Rightarrow> None
      | _ # rest \<Rightarrow> Some (path_of_components (rev rest)))"

section \<open>Names and canonical paths\<close>

definition good_name :: "string \<Rightarrow> bool" where
  "good_name n \<longleftrightarrow> n \<noteq> [] \<and> n \<noteq> ''.'' \<and> n \<noteq> ''..'' \<and> CHR ''/'' \<notin> set n"

definition path_of_names :: "string list \<Rightarrow> string" where
  "path_of_names ns = (if ns = [] then ''/'' else concat (map (\<lambda>n. CHR ''/'' # n) ns))"

lemma is_absolute_path_of_names [simp]: "is_absolute (path_of_names ns)"
  by (cases ns) (auto simp: path_of_names_def is_absolute_def)

lemma path_of_names_nonempty [simp]: "path_of_names ns \<noteq> []"
  by (cases ns) (auto simp: path_of_names_def)

lemma split_on_concat_names:
  "\<forall>n \<in> set ns. CHR ''/'' \<notin> set n \<Longrightarrow>
   split_on (CHR ''/'') (concat (map (\<lambda>n. CHR ''/'' # n) ns)) = [] # ns"
proof (induction ns rule: rev_induct)
  case (snoc x xs)
  then show ?case
    by (simp add: split_on_append_sep split_on_no_sep)
qed simp

lemma split_on_path_of_names:
  "\<forall>n \<in> set ns. CHR ''/'' \<notin> set n \<Longrightarrow>
   split_on (CHR ''/'') (path_of_names ns) = (if ns = [] then [[], []] else [] # ns)"
  by (simp add: path_of_names_def split_on_concat_names)

lemma concat_component_of_part:
  "\<forall>n \<in> set ns. good_name n \<Longrightarrow> concat (map component_of_part ns) = map Normal ns"
  by (induction ns) (auto simp: good_name_def)

lemma good_name_no_sep: "\<forall>n \<in> set ns. good_name n \<Longrightarrow> \<forall>n \<in> set ns. CHR ''/'' \<notin> set n"
  by (auto simp: good_name_def)

lemma components_path_of_names:
  assumes "\<forall>n \<in> set ns. good_name n"
  shows "components (path_of_names ns) = RootDir # map Normal ns"
  using split_on_path_of_names [OF good_name_no_sep [OF assms]] concat_component_of_part [OF assms]
  by (simp add: components_def Let_def)

lemma map_Normal_eq: "map Normal ms = map Normal ns \<longleftrightarrow> ms = ns"
  by (simp add: inj_map_eq_map inj_def)

lemma prefix_map_Normal: "prefix (map Normal ms) (map Normal ns) \<longleftrightarrow> prefix ms ns"
proof
  assume "prefix (map Normal ms) (map Normal ns)"
  then obtain zs where "map Normal ns = map Normal ms @ zs" by (auto simp: prefix_def)
  then have "take (length ms) (map Normal ns) = map Normal ms" by simp
  then have "map Normal (take (length ms) ns) = map Normal ms" by (simp add: take_map)
  then have "take (length ms) ns = ms" by (simp add: map_Normal_eq)
  then show "prefix ms ns" by (metis take_is_prefix)
qed (auto simp: prefix_def)

text \<open>Containment of canonical paths is the prefix order of their names.\<close>

lemma path_starts_with_names:
  assumes "\<forall>n \<in> set ns. good_name n" and "\<forall>n \<in> set rs. good_name n"
  shows "path_starts_with (path_of_names ns) (path_of_names rs) \<longleftrightarrow> prefix rs ns"
  by (simp add: path_starts_with_def components_path_of_names [OF assms(1)]
      components_path_of_names [OF assms(2)] prefix_map_Normal)

lemma path_eq_names:
  assumes "\<forall>n \<in> set ns. good_name n" and "\<forall>n \<in> set ms. good_name n"
  shows "path_eq (path_of_names ns) (path_of_names ms) \<longleftrightarrow> ns = ms"
  by (simp add: path_eq_def components_path_of_names [OF assms(1)]
      components_path_of_names [OF assms(2)] map_Normal_eq)

lemma path_of_names_inj:
  assumes "\<forall>n \<in> set ns. good_name n" and "\<forall>n \<in> set ms. good_name n"
    and "path_of_names ns = path_of_names ms"
  shows "ns = ms"
  using assms path_eq_names path_eq_def by metis

lemma path_join_name:
  assumes "good_name n" and ns: "\<forall>n \<in> set ns. good_name n"
  shows "path_join (path_of_names ns) n = path_of_names (ns @ [n])"
proof (cases ns rule: rev_cases)
  case Nil
  with assms(1) show ?thesis
    by (cases n) (auto simp: path_join_def path_of_names_def good_name_def is_absolute_def)
next
  case (snoc ys y)
  with ns have "y \<noteq> []" and "CHR ''/'' \<notin> set y" by (auto simp: good_name_def)
  then have "last y \<noteq> CHR ''/''" by (metis last_in_set)
  with snoc \<open>y \<noteq> []\<close> assms(1) show ?thesis
    by (cases n) (auto simp: path_join_def path_of_names_def good_name_def is_absolute_def)
qed

section \<open>The order of containment\<close>

lemma path_starts_with_refl [simp]: "path_starts_with p p"
  by (simp add: path_starts_with_def)

lemma path_starts_with_trans:
  "path_starts_with p q \<Longrightarrow> path_starts_with q r \<Longrightarrow> path_starts_with p r"
  unfolding path_starts_with_def by (rule prefix_order.order_trans)

lemma path_starts_with_antisym:
  "path_starts_with p q \<Longrightarrow> path_starts_with q p \<Longrightarrow> path_eq p q"
  unfolding path_starts_with_def path_eq_def by (simp add: prefix_order.antisym)

end
