(* ===== verification/File_System.thy ===== *)
theory File_System
  imports Paths
begin

text \<open>
  The part of \<open>std::fs\<close> (and of the \<open>tokio::fs\<close> functions of the same names) that the
  filesystem access crate calls, over a Unix tree of regular files, directories and
  symbolic links: \<open>canonicalize\<close>, \<open>Path::exists\<close>, \<open>read_to_string\<close> and \<open>write\<close>.

  A tree maps the list of names that leads from the root to a node. Paths are resolved
  name by name: \<open>.\<close> and empty parts stay, \<open>..\<close> goes to the parent directory, a symbolic
  link is replaced by its target, at most \<open>max_symlinks\<close> times. \<open>write\<close> opens with create
  and truncate, so it follows a link in the last position even when the target does not
  exist yet. Every call can also fail for a reason outside the model (permissions, a
  device error): \<open>io_fault\<close> gives that error for an operation and a path.
\<close>

section \<open>Nodes\<close>

datatype fs_node = RegularFile string | Directory | Symlink string

datatype io_error =
    NotFound | AlreadyExists | NotADirectory | IsADirectory | FilesystemLoop | InvalidData
  | PermissionDenied | OtherIo string

datatype io_op = OpCanonicalize | OpMetadata | OpRead | OpWrite | OpCreateDir | OpRemoveDirAll

type_synonym fs_tree = "string list \<Rightarrow> fs_node option"

record file_system =
  nodes :: fs_tree
  cwd :: "string list"
  io_fault :: "io_op \<Rightarrow> string \<Rightarrow> io_error option"

definition max_symlinks :: nat where
  "max_symlinks = 40"

text \<open>What a finished resolution can stand on: a directory or a regular file.\<close>

definition real_node :: "fs_tree \<Rightarrow> string list \<Rightarrow> bool" where
  "real_node t ns = (case t ns of Some Directory \<Rightarrow> True | Some (RegularFile _) \<Rightarrow> True | _ \<Rightarrow> False)"

text \<open>
  A tree of nodes: the root is a directory, only directories have entries, and no entry
  is called by an empty name, by \<open>.\<close> or \<open>..\<close>, or by a name with a slash.
\<close>

definition tree_wf :: "fs_tree \<Rightarrow> bool" where
  "tree_wf t \<longleftrightarrow>
     t [] = Some Directory
   \<and> (\<forall>ns. t ns \<noteq> None \<longrightarrow> (\<forall>n \<in> set ns. good_name n))
   \<and> (\<forall>ns x. t (ns @ [x]) \<noteq> None \<longrightarrow> t ns = Some Directory)"

definition fs_wf :: "file_system \<Rightarrow> bool" where
  "fs_wf fs \<longleftrightarrow> tree_wf (nodes fs) \<and> nodes fs (cwd fs) = Some Directory"

section \<open>Resolution\<close>

text \<open>
  \<open>walk create t links cur todo\<close> resolves the names \<open>todo\<close> from the directory \<open>cur\<close>.
  With \<open>create\<close>, a missing last name is the place of the file to be created.
\<close>

fun walk :: "bool \<Rightarrow> fs_tree \<Rightarrow> nat \<Rightarrow> string list \<Rightarrow> string list \<Rightarrow> io_error + string list" where
  "walk create t links cur [] = Ok cur"
| "walk create t links cur (x # xs) =
     (if t cur \<noteq> Some Directory then Err (if t cur = None then NotFound else NotADirectory)
      else if x = [] \<or> x = ''.'' then walk create t links cur xs
      else if x = ''..'' then walk create t links (butlast cur) xs
      else (case t (cur @ [x]) of
              None \<Rightarrow>
                if create \<and> xs = [] then Ok (cur @ [x])
                else if create \<and> list_all (\<lambda>y. y = []) xs then Err IsADirectory
                else Err NotFound
            | Some (Symlink target) \<Rightarrow>
                (case links of
                   0 \<Rightarrow> Err FilesystemLoop
                 | Suc links' \<Rightarrow>
                     walk create t links' (if is_absolute target then [] else cur)
                       (split_on (CHR ''/'') target @ xs))
            | Some Directory \<Rightarrow> walk create t links (cur @ [x]) xs
            | Some (RegularFile _) \<Rightarrow> walk create t links (cur @ [x]) xs))"

declare walk.simps(2) [simp del]

definition fs_resolve :: "bool \<Rightarrow> file_system \<Rightarrow> string \<Rightarrow> io_error + string list" where
  "fs_resolve create fs p =
     (if p = [] then Err NotFound
      else walk create (nodes fs) max_symlinks (if is_absolute p then [] else cwd fs)
             (split_on (CHR ''/'') p))"

section \<open>The calls\<close>

definition fs_canonicalize :: "file_system \<Rightarrow> string \<Rightarrow> io_error + string" where
  "fs_canonicalize fs p =
     (case io_fault fs OpCanonicalize p of
        Some e \<Rightarrow> Err e
      | None \<Rightarrow> (case fs_resolve False fs p of Err e \<Rightarrow> Err e | Ok ns \<Rightarrow> Ok (path_of_names ns)))"

definition fs_exists :: "file_system \<Rightarrow> string \<Rightarrow> bool" where
  "fs_exists fs p \<longleftrightarrow> io_fault fs OpMetadata p = None \<and> is_ok (fs_resolve False fs p)"

text \<open>The well-formed byte sequences of UTF-8.\<close>

definition utf8_cont :: "nat \<Rightarrow> bool" where
  "utf8_cont b \<longleftrightarrow> 128 \<le> b \<and> b \<le> 191"

fun utf8_bytes :: "nat list \<Rightarrow> bool" where
  "utf8_bytes [] = True"
| "utf8_bytes (a # bs) =
     (if a < 128 then utf8_bytes bs
      else case bs of
        [] \<Rightarrow> False
      | b # cs \<Rightarrow>
          if 194 \<le> a \<and> a \<le> 223 then utf8_cont b \<and> utf8_bytes cs
          else (case cs of
            [] \<Rightarrow> False
          | c # ds \<Rightarrow>
              if 224 \<le> a \<and> a \<le> 239 then
                (if a = 224 then 160 \<le> b \<and> b \<le> 191
                 else if a = 237 then 128 \<le> b \<and> b \<le> 159
                 else utf8_cont b) \<and> utf8_cont c \<and> utf8_bytes ds
              else (case ds of
                [] \<Rightarrow> False
              | d # es \<Rightarrow>
                  240 \<le> a \<and> a \<le> 244
                  \<and> (if a = 240 then 144 \<le> b \<and> b \<le> 191
                     else if a = 244 then 128 \<le> b \<and> b \<le> 143
                     else utf8_cont b)
                  \<and> utf8_cont c \<and> utf8_cont d \<and> utf8_bytes es)))"

definition valid_utf8 :: "string \<Rightarrow> bool" where
  "valid_utf8 s = utf8_bytes (map of_char s)"

definition fs_read_to_string :: "file_system \<Rightarrow> string \<Rightarrow> io_error + string" where
  "fs_read_to_string fs p =
     (case io_fault fs OpRead p of
        Some e \<Rightarrow> Err e
      | None \<Rightarrow>
          (case fs_resolve False fs p of
             Err e \<Rightarrow> Err e
           | Ok ns \<Rightarrow>
               (case nodes fs ns of
                  Some (RegularFile content) \<Rightarrow>
                    if valid_utf8 content then Ok content else Err InvalidData
                | Some Directory \<Rightarrow> Err IsADirectory
                | _ \<Rightarrow> Err NotFound)))"

definition fs_write :: "file_system \<Rightarrow> string \<Rightarrow> string \<Rightarrow> (io_error + unit) \<times> file_system" where
  "fs_write fs p content =
     (case io_fault fs OpWrite p of
        Some e \<Rightarrow> (Err e, fs)
      | None \<Rightarrow>
          (case fs_resolve True fs p of
             Err e \<Rightarrow> (Err e, fs)
           | Ok ns \<Rightarrow>
               (case nodes fs ns of
                  Some Directory \<Rightarrow> (Err IsADirectory, fs)
                | _ \<Rightarrow> (Ok (), fs\<lparr>nodes := (nodes fs)(ns \<mapsto> RegularFile content)\<rparr>))))"

section \<open>Facts about well-formed trees\<close>

lemma real_node_iff:
  "real_node t ns \<longleftrightarrow> t ns = Some Directory \<or> (\<exists>s. t ns = Some (RegularFile s))"
  by (auto simp: real_node_def split: option.splits fs_node.splits)

lemma real_node_Directory [simp]: "t ns = Some Directory \<Longrightarrow> real_node t ns"
  by (simp add: real_node_def)

lemma tree_wf_root: "tree_wf t \<Longrightarrow> t [] = Some Directory"
  by (simp add: tree_wf_def)

lemma tree_wf_names: "tree_wf t \<Longrightarrow> t ns = Some nd \<Longrightarrow> \<forall>n \<in> set ns. good_name n"
  unfolding tree_wf_def by blast

lemma tree_wf_parent: "tree_wf t \<Longrightarrow> t (ns @ [x]) = Some nd \<Longrightarrow> t ns = Some Directory"
  unfolding tree_wf_def by blast

lemma tree_wf_prefix:
  "tree_wf t \<Longrightarrow> t (ns @ ms) = Some nd \<Longrightarrow> ms \<noteq> [] \<Longrightarrow> t ns = Some Directory"
proof (induction ms arbitrary: nd rule: rev_induct)
  case (snoc x xs)
  then have "t (ns @ xs) = Some Directory"
    using tree_wf_parent [of t "ns @ xs" x] by simp
  with snoc show ?case by (cases "xs = []") auto
qed simp

lemma tree_wf_butlast:
  "tree_wf t \<Longrightarrow> t ns = Some nd \<Longrightarrow> t (butlast ns) = Some Directory \<or> ns = []"
  by (cases ns rule: rev_cases) (auto dest: tree_wf_parent)

lemma real_node_names: "tree_wf t \<Longrightarrow> real_node t ns \<Longrightarrow> \<forall>n \<in> set ns. good_name n"
  by (auto simp: real_node_iff dest: tree_wf_names)

section \<open>Results of a resolution\<close>

text \<open>A resolution without creation ends on a directory or a regular file.\<close>

lemma walk_real:
  "tree_wf t \<Longrightarrow> real_node t cur \<Longrightarrow> walk False t links cur todo = Ok r \<Longrightarrow> real_node t r"
proof (induction "False" t links cur todo arbitrary: r rule: walk.induct)
  case (1 t links cur)
  then show ?case by simp
next
  case (2 t links cur x xs)
  from "2.prems"(3) have dir: "t cur = Some Directory"
    by (auto simp: walk.simps(2) split: if_splits)
  have up: "real_node t (butlast cur)"
    using tree_wf_butlast [OF "2.prems"(1) dir] dir by auto
  have start: "real_node t (if b then [] else cur)" for b
    using tree_wf_root [OF "2.prems"(1)] dir by simp
  show ?case
  proof (cases "x = [] \<or> x = ''.'' \<or> x = ''..''")
    case True
    then show ?thesis
      using "2.hyps"(1,2) "2.prems" dir up by (auto simp: walk.simps(2) split: if_splits)
  next
    case False
    then show ?thesis
    proof (cases "t (cur @ [x])")
      case None
      with False dir "2.prems"(3) show ?thesis by (simp add: walk.simps(2))
    next
      case (Some nd)
      show ?thesis
      proof (cases nd)
        case (RegularFile s)
        with Some have "real_node t (cur @ [x])" by (simp add: real_node_def)
        with "2.hyps"(3) False dir Some RegularFile "2.prems" show ?thesis
          by (simp add: walk.simps(2))
      next
        case Directory
        with "2.hyps"(4) [of nd] False dir Some "2.prems" show ?thesis
          by (simp add: walk.simps(2))
      next
        case (Symlink target)
        then show ?thesis
          using "2.hyps"(5) [of nd target] start False dir Some "2.prems"
          by (auto simp: walk.simps(2) split: nat.splits)
      qed
    qed
  qed
qed

text \<open>The names of a node resolve to themselves, whatever the link budget.\<close>

lemma walk_self:
  "tree_wf t \<Longrightarrow> real_node t (cur @ todo) \<Longrightarrow> walk create t links cur todo = Ok (cur @ todo)"
proof (induction todo arbitrary: cur)
  case Nil
  then show ?case by simp
next
  case (Cons x xs)
  then obtain nd where nd: "t (cur @ x # xs) = Some nd" by (auto simp: real_node_iff)
  have dir: "t cur = Some Directory" using tree_wf_prefix [OF Cons.prems(1) nd] by simp
  have good: "good_name x" using tree_wf_names [OF Cons.prems(1) nd] by simp
  have real: "real_node t (cur @ [x])"
    using Cons.prems nd tree_wf_prefix [OF Cons.prems(1), of "cur @ [x]" xs nd]
    by (cases "xs = []") auto
  have IH: "walk create t links (cur @ [x]) xs = Ok (cur @ x # xs)"
    using Cons.IH [of "cur @ [x]"] Cons.prems by simp
  from dir good real IH show ?case
    by (auto simp: walk.simps(2) good_name_def real_node_iff)
qed

lemma fs_resolve_names:
  assumes "tree_wf (nodes fs)" and "real_node (nodes fs) ns"
  shows "fs_resolve create fs (path_of_names ns) = Ok ns"
proof -
  have sep: "\<forall>n \<in> set ns. CHR ''/'' \<notin> set n"
    using real_node_names [OF assms] good_name_no_sep by blast
  have root: "nodes fs [] = Some Directory" using assms(1) by (rule tree_wf_root)
  have self: "walk create (nodes fs) max_symlinks [] ns = Ok ns"
    using walk_self [of "nodes fs" "[]" ns] assms by simp
  show ?thesis
    using split_on_path_of_names [OF sep] root self
    by (auto simp: fs_resolve_def walk.simps(2))
qed

lemma fs_resolve_real:
  assumes "fs_wf fs" and "fs_resolve False fs p = Ok ns"
  shows "real_node (nodes fs) ns"
proof -
  have "real_node (nodes fs) (if is_absolute p then [] else cwd fs)"
    using assms(1) by (simp add: fs_wf_def tree_wf_root)
  moreover have "walk False (nodes fs) max_symlinks (if is_absolute p then [] else cwd fs)
      (split_on (CHR ''/'') p) = Ok ns"
    using assms(2) by (simp add: fs_resolve_def split: if_split_asm)
  moreover have "tree_wf (nodes fs)" using assms(1) by (simp add: fs_wf_def)
  ultimately show ?thesis using walk_real by blast
qed

lemma fs_canonicalize_Ok:
  assumes "fs_wf fs" and "fs_canonicalize fs p = Ok c"
  obtains ns where "c = path_of_names ns" and "real_node (nodes fs) ns"
    and "\<forall>n \<in> set ns. good_name n" and "fs_resolve False fs p = Ok ns"
proof -
  from assms(2) obtain ns where ns: "fs_resolve False fs p = Ok ns" "c = path_of_names ns"
    by (auto simp: fs_canonicalize_def split: option.splits sum.splits)
  moreover have "real_node (nodes fs) ns" by (rule fs_resolve_real [OF assms(1) ns(1)])
  moreover from this have "\<forall>n \<in> set ns. good_name n"
    using assms(1) real_node_names by (auto simp: fs_wf_def)
  ultimately show ?thesis using that by blast
qed

text \<open>A canonical path is a fixed point of canonicalization: nothing on the way to it is
  a link, so resolving it again, even after the path was stored, gives the path itself.\<close>

lemma fs_canonicalize_idem:
  assumes "fs_wf fs" and "fs_canonicalize fs p = Ok c" and "io_fault fs OpCanonicalize c = None"
  shows "fs_canonicalize fs c = Ok c"
  using fs_canonicalize_Ok [OF assms(1,2)] assms(1,3) fs_resolve_names
  by (metis (no_types, lifting) fs_canonicalize_def fs_wf_def option.simps(4) sum.simps(6))

section \<open>Where a write goes\<close>

text \<open>With creation, a resolution ends on a directory, on a regular file, or on a free place in
  a directory; never on a link.\<close>

definition free_place :: "fs_tree \<Rightarrow> string list \<Rightarrow> bool" where
  "free_place t ns \<longleftrightarrow>
     t ns = None \<and> ns \<noteq> [] \<and> t (butlast ns) = Some Directory \<and> good_name (last ns)"

lemma walk_place:
  "tree_wf t \<Longrightarrow> real_node t cur \<Longrightarrow> \<forall>x \<in> set todo. CHR ''/'' \<notin> set x \<Longrightarrow>
   walk create t links cur todo = Ok r \<Longrightarrow> real_node t r \<or> free_place t r"
proof (induction create t links cur todo arbitrary: r rule: walk.induct)
  case (1 create t links cur)
  then show ?case by simp
next
  case (2 create t links cur x xs)
  from "2.prems"(4) have dir: "t cur = Some Directory"
    by (auto simp: walk.simps(2) split: if_splits)
  have up: "real_node t (butlast cur)"
    using tree_wf_butlast [OF "2.prems"(1) dir] dir by auto
  have start: "real_node t (if b then [] else cur)" for b
    using tree_wf_root [OF "2.prems"(1)] dir by simp
  have no_sep: "\<forall>y \<in> set (split_on (CHR ''/'') target @ xs). CHR ''/'' \<notin> set y" for target
    using "2.prems"(3) split_on_parts_no_sep by auto
  show ?case
  proof (cases "x = [] \<or> x = ''.'' \<or> x = ''..''")
    case True
    then show ?thesis
      using "2.IH"(1,2) "2.prems" dir up by (auto simp: walk.simps(2) split: if_splits)
  next
    case False
    then show ?thesis
    proof (cases "t (cur @ [x])")
      case None
      then have "create \<and> xs = []" and r: "r = cur @ [x]"
        using False dir "2.prems"(4) by (auto simp: walk.simps(2) split: if_splits)
      moreover have "good_name x"
        using False "2.prems"(3) by (simp add: good_name_def)
      ultimately show ?thesis
        using None dir by (simp add: free_place_def)
    next
      case (Some nd)
      show ?thesis
      proof (cases nd)
        case (RegularFile s)
        with Some have "real_node t (cur @ [x])" by (simp add: real_node_def)
        with "2.IH"(3) False dir Some RegularFile "2.prems" show ?thesis
          by (simp add: walk.simps(2))
      next
        case Directory
        with "2.IH"(4) False dir Some "2.prems" show ?thesis
          by (simp add: walk.simps(2))
      next
        case (Symlink target)
        then show ?thesis
          using "2.IH"(5) [of nd target] start no_sep False dir Some "2.prems"
          by (auto simp: walk.simps(2) split: nat.splits)
      qed
    qed
  qed
qed

lemma fs_resolve_place:
  assumes "fs_wf fs" and "fs_resolve create fs p = Ok ns"
  shows "real_node (nodes fs) ns \<or> free_place (nodes fs) ns"
proof -
  have "real_node (nodes fs) (if is_absolute p then [] else cwd fs)"
    using assms(1) by (simp add: fs_wf_def tree_wf_root)
  moreover have "walk create (nodes fs) max_symlinks (if is_absolute p then [] else cwd fs)
      (split_on (CHR ''/'') p) = Ok ns"
    using assms(2) by (simp add: fs_resolve_def split: if_split_asm)
  moreover have "tree_wf (nodes fs)" using assms(1) by (simp add: fs_wf_def)
  ultimately show ?thesis using walk_place split_on_parts_no_sep by blast
qed

text \<open>A write either fails and changes nothing, or stores the content at the place the path
  resolves to.\<close>

lemma fs_write_cases:
  assumes "fs_wf fs" and "fs_write fs p content = (r, fs')"
  obtains (failed) e where "r = Err e" and "fs' = fs"
  | (stored) ns where "r = Ok ()" and "fs_resolve True fs p = Ok ns"
      and "fs' = fs\<lparr>nodes := (nodes fs)(ns \<mapsto> RegularFile content)\<rparr>"
      and "(\<exists>s. nodes fs ns = Some (RegularFile s)) \<or> free_place (nodes fs) ns"
proof (cases "io_fault fs OpWrite p")
  case (Some e)
  then have "r = Err e" "fs' = fs" using assms(2) by (simp_all add: fs_write_def)
  then show ?thesis by (rule failed)
next
  case None
  show ?thesis
  proof (cases "fs_resolve True fs p")
    case (Inl e)
    then have "r = Err e" "fs' = fs" using assms(2) None by (simp_all add: fs_write_def)
    then show ?thesis by (rule failed)
  next
    case (Inr ns)
    note place = fs_resolve_place [OF assms(1) Inr]
    show ?thesis
    proof (cases "nodes fs ns = Some Directory")
      case True
      then have "r = Err IsADirectory" "fs' = fs"
        using assms(2) None Inr by (simp_all add: fs_write_def)
      then show ?thesis by (rule failed)
    next
      case False
      then have kind: "(\<exists>s. nodes fs ns = Some (RegularFile s)) \<or> free_place (nodes fs) ns"
        using place by (auto simp: real_node_iff)
      have "nodes fs ns = None \<or> (\<exists>s. nodes fs ns = Some (RegularFile s))"
        using kind by (auto simp: free_place_def)
      then have "r = Ok ()" "fs' = fs\<lparr>nodes := (nodes fs)(ns \<mapsto> RegularFile content)\<rparr>"
        using assms(2) None Inr by (auto simp: fs_write_def)
      then show ?thesis using stored Inr kind by blast
    qed
  qed
qed

lemma tree_wf_store:
  assumes "tree_wf t" and "(\<exists>s. t ns = Some (RegularFile s)) \<or> free_place t ns"
  shows "tree_wf (t(ns \<mapsto> RegularFile content))"
proof -
  have names: "\<forall>n \<in> set ns. good_name n"
  proof (cases "\<exists>s. t ns = Some (RegularFile s)")
    case True
    then show ?thesis using assms(1) tree_wf_names by blast
  next
    case False
    with assms(2) have free: "free_place t ns" by simp
    then obtain ms x where "ns = ms @ [x]" by (cases ns rule: rev_cases) (auto simp: free_place_def)
    with free show ?thesis
      using assms(1) tree_wf_names [of t ms] by (auto simp: free_place_def)
  qed
  have not_dir: "t ns \<noteq> Some Directory" using assms(2) by (auto simp: free_place_def)
  have parent: "ns = ms @ [x] \<Longrightarrow> t ms = Some Directory" for ms x
    using assms tree_wf_parent by (auto simp: free_place_def)
  have nonempty: "ns \<noteq> []" using tree_wf_root [OF assms(1)] not_dir by auto
  let ?t' = "t(ns \<mapsto> RegularFile content)"
  have "?t' ms = Some Directory" if "?t' (ms @ [x]) \<noteq> None" for ms x
  proof -
    have "t ms = Some Directory"
    proof (cases "ms @ [x] = ns")
      case True
      then show ?thesis using parent by blast
    next
      case False
      with that obtain nd where "t (ms @ [x]) = Some nd" by auto
      then show ?thesis using assms(1) tree_wf_parent by blast
    qed
    then show ?thesis using not_dir by auto
  qed
  moreover have "\<forall>n \<in> set ms. good_name n" if "?t' ms \<noteq> None" for ms
    using that names assms(1) unfolding tree_wf_def by (cases "ms = ns") auto
  ultimately show ?thesis
    using nonempty tree_wf_root [OF assms(1)] unfolding tree_wf_def by simp
qed

lemma fs_write_wf:
  assumes "fs_wf fs" and "fs_write fs p content = (r, fs')"
  shows "fs_wf fs'"
  using assms
proof (cases rule: fs_write_cases)
  case failed
  then show ?thesis using assms(1) by simp
next
  case (stored ns)
  have "nodes fs ns \<noteq> Some Directory" using stored(4) by (auto simp: free_place_def)
  then show ?thesis
    using stored assms(1) tree_wf_store by (auto simp: fs_wf_def)
qed

text \<open>A write keeps every directory and every link, and the environment of the calls.\<close>

definition same_shape :: "file_system \<Rightarrow> file_system \<Rightarrow> bool" where
  "same_shape fs fs' \<longleftrightarrow>
     cwd fs' = cwd fs \<and> io_fault fs' = io_fault fs
   \<and> (\<forall>ns. nodes fs ns = Some Directory \<longleftrightarrow> nodes fs' ns = Some Directory)
   \<and> (\<forall>ns target. nodes fs ns = Some (Symlink target) \<longleftrightarrow> nodes fs' ns = Some (Symlink target))
   \<and> (\<forall>ns. nodes fs ns \<noteq> None \<longrightarrow> nodes fs' ns \<noteq> None)"

lemma same_shape_refl [simp]: "same_shape fs fs"
  by (simp add: same_shape_def)

lemma same_shape_trans: "same_shape fs fs' \<Longrightarrow> same_shape fs' fs'' \<Longrightarrow> same_shape fs fs''"
  by (auto simp: same_shape_def)

lemma fs_write_same_shape:
  assumes "fs_wf fs" and "fs_write fs p content = (r, fs')"
  shows "same_shape fs fs'"
  using assms
proof (cases rule: fs_write_cases)
  case failed
  then show ?thesis by simp
next
  case (stored ns)
  then show ?thesis
    by (auto simp: same_shape_def free_place_def)
qed

lemma same_shape_real_node: "same_shape fs fs' \<Longrightarrow> nodes fs ns = Some Directory \<Longrightarrow> real_node (nodes fs') ns"
  by (simp add: same_shape_def)

section \<open>Reading back\<close>

lemma walk_after_store:
  "t r \<noteq> Some Directory \<Longrightarrow> \<forall>target. t r \<noteq> Some (Symlink target) \<Longrightarrow>
   walk create t links cur todo = Ok r \<Longrightarrow>
   walk create' (t(r \<mapsto> RegularFile content)) links cur todo = Ok r"
proof (induction create t links cur todo rule: walk.induct)
  case (1 create t links cur)
  then show ?case by simp
next
  case (2 create t links cur x xs)
  let ?t' = "t(r \<mapsto> RegularFile content)"
  from "2.prems"(3) have dir: "t cur = Some Directory"
    by (auto simp: walk.simps(2) split: if_splits)
  then have dir': "?t' cur = Some Directory" using "2.prems"(1) by auto
  show ?case
  proof (cases "x = [] \<or> x = ''.'' \<or> x = ''..''")
    case True
    then show ?thesis
      using "2.IH"(1,2) "2.prems" dir dir' by (auto simp: walk.simps(2) split: if_splits)
  next
    case False
    then show ?thesis
    proof (cases "t (cur @ [x])")
      case None
      then have "create \<and> xs = []" and r: "r = cur @ [x]"
        using False dir "2.prems"(3) by (auto simp: walk.simps(2) split: if_splits)
      then show ?thesis using False dir' by (simp add: walk.simps(2))
    next
      case (Some nd)
      show ?thesis
      proof (cases nd)
        case (RegularFile s)
        then have "\<exists>s'. ?t' (cur @ [x]) = Some (RegularFile s')" using Some by auto
        with "2.IH"(3) False dir dir' Some RegularFile "2.prems" show ?thesis
          by (auto simp: walk.simps(2))
      next
        case Directory
        then have "?t' (cur @ [x]) = Some Directory" using Some "2.prems"(1) by auto
        with "2.IH"(4) False dir dir' Some Directory "2.prems" show ?thesis
          by (simp add: walk.simps(2))
      next
        case (Symlink target)
        then have "?t' (cur @ [x]) = Some (Symlink target)" using Some "2.prems"(2) by auto
        then show ?thesis
          using "2.IH"(5) [of nd target] False dir dir' Some Symlink "2.prems"
          by (auto simp: walk.simps(2) split: nat.splits)
      qed
    qed
  qed
qed

text \<open>What \<open>write\<close> stored under a path is what \<open>read_to_string\<close> returns for the same path,
  through links and for files that the write created.\<close>

lemma fs_read_back:
  assumes "fs_wf fs" and "fs_write fs p content = (Ok (), fs')"
    and "valid_utf8 content" and "io_fault fs OpRead p = None"
  shows "fs_read_to_string fs' p = Ok content"
  using assms(1,2)
proof (cases rule: fs_write_cases)
  case (stored ns)
  have "nodes fs ns \<noteq> Some Directory" "\<forall>target. nodes fs ns \<noteq> Some (Symlink target)"
    using stored(4) by (auto simp: free_place_def)
  then have "fs_resolve False fs' p = Ok ns"
    using stored(2,3) walk_after_store by (auto simp: fs_resolve_def split: if_splits)
  then show ?thesis
    using stored(3) assms(3,4) by (simp add: fs_read_to_string_def)
qed simp

section \<open>Links and stored files\<close>

text \<open>A store gives a resolution with creation no new destination.\<close>

lemma walk_before_store:
  assumes "(\<exists>s. t r = Some (RegularFile s)) \<or> free_place t r"
  shows "walk True (t(r \<mapsto> RegularFile content)) links cur todo = Ok q \<Longrightarrow>
         walk True t links cur todo = Ok q"
proof (induction "True" "t(r \<mapsto> RegularFile content)" links cur todo rule: walk.induct)
  case (1 links cur)
  then show ?case by simp
next
  case (2 links cur x xs)
  let ?t' = "t(r \<mapsto> RegularFile content)"
  from "2.prems" have dir': "?t' cur = Some Directory"
    by (auto simp: walk.simps(2) split: if_splits)
  then have dir: "t cur = Some Directory" by (auto split: if_splits)
  show ?case
  proof (cases "x = [] \<or> x = ''.'' \<or> x = ''..''")
    case True
    then show ?thesis
      using "2.hyps"(1,2) "2.prems" dir dir' by (auto simp: walk.simps(2) split: if_splits)
  next
    case False
    show ?thesis
    proof (cases "cur @ [x] = r")
      case True
      then have stored_file: "?t' (cur @ [x]) = Some (RegularFile content)" by simp
      have "walk True ?t' links (cur @ [x]) xs = Ok q"
        using "2.prems" False dir' stored_file by (simp add: walk.simps(2))
      then have end_here: "xs = [] \<and> q = r"
        using stored_file True by (cases xs) (simp_all add: walk.simps(2))
      show ?thesis
        using assms end_here True False dir by (auto simp: walk.simps(2) free_place_def)
    next
      case other: False
      then have same: "?t' (cur @ [x]) = t (cur @ [x])" by simp
      show ?thesis
      proof (cases "t (cur @ [x])")
        case None
        then show ?thesis using "2.prems" False dir dir' same
          by (simp add: walk.simps(2) split: if_splits)
      next
        case (Some nd)
        show ?thesis
        proof (cases nd)
          case (RegularFile s)
          with "2.hyps"(3) False dir dir' Some same "2.prems" show ?thesis
            by (simp add: walk.simps(2))
        next
          case Directory
          with "2.hyps"(4) False dir dir' Some same "2.prems" show ?thesis
            by (simp add: walk.simps(2))
        next
          case (Symlink target)
          then show ?thesis
            using "2.hyps"(5) [of nd target] False dir dir' Some same "2.prems"
            by (auto simp: walk.simps(2) split: nat.splits)
        qed
      qed
    qed
  qed
qed

text \<open>
  The links under a directory lead nowhere else: whatever path under \<open>rs\<close> a write resolves,
  the place it ends on is under \<open>rs\<close>.
\<close>

definition links_contained :: "file_system \<Rightarrow> string list \<Rightarrow> bool" where
  "links_contained fs rs \<longleftrightarrow>
     (\<forall>ns place. prefix rs ns \<longrightarrow> (\<forall>n \<in> set ns. good_name n) \<longrightarrow>
        fs_resolve True fs (path_of_names ns) = Ok place \<longrightarrow> prefix rs place)"

lemma links_contained_write:
  assumes wf: "fs_wf fs" and cont: "links_contained fs rs" and wr: "fs_write fs p content = (r, fs')"
  shows "links_contained fs' rs"
  using wf wr
proof (cases rule: fs_write_cases)
  case failed
  with cont show ?thesis by simp
next
  case (stored ns)
  have "fs_resolve True fs q = Ok place" if "fs_resolve True fs' q = Ok place" for q place
    using that stored walk_before_store [OF stored(4)]
    by (auto simp: fs_resolve_def split: if_splits)
  with cont show ?thesis unfolding links_contained_def by blast
qed

text \<open>A tree without links on the way resolves names to themselves.\<close>

lemma walk_no_links:
  "\<forall>n \<in> set todo. good_name n \<Longrightarrow>
   (\<And>ms target. prefix ms (cur @ todo) \<Longrightarrow> t ms \<noteq> Some (Symlink target)) \<Longrightarrow>
   walk create t links cur todo = Ok q \<Longrightarrow> q = cur @ todo"
proof (induction todo arbitrary: cur)
  case (Cons x xs)
  have dir: "t cur = Some Directory"
    using Cons.prems(3) by (auto simp: walk.simps(2) split: if_splits)
  have x: "x \<noteq> []" "x \<noteq> ''.''" "x \<noteq> ''..''"
    using Cons.prems(1) by (auto simp: good_name_def)
  have no_link: "t (cur @ [x]) \<noteq> Some (Symlink target)" for target
    using Cons.prems(2) [of "cur @ [x]"] by simp
  have IH: "walk create t links (cur @ [x]) xs = Ok q \<Longrightarrow> q = cur @ x # xs"
    using Cons.IH [of "cur @ [x]"] Cons.prems(1,2) by simp
  show ?case
  proof (cases "t (cur @ [x])")
    case None
    then show ?thesis using Cons.prems(3) dir x by (auto simp: walk.simps(2) split: if_splits)
  next
    case (Some nd)
    then show ?thesis using Cons.prems(3) dir x no_link IH
      by (cases nd) (auto simp: walk.simps(2))
  qed
qed simp

lemma links_contained_no_links:
  assumes wf: "fs_wf fs" and real: "real_node (nodes fs) rs"
    and no_links: "\<And>ns target. prefix rs ns \<Longrightarrow> nodes fs ns \<noteq> Some (Symlink target)"
  shows "links_contained fs rs"
  unfolding links_contained_def
proof (intro allI impI)
  fix ns place
  assume pre: "prefix rs ns" and good: "\<forall>n \<in> set ns. good_name n"
    and res: "fs_resolve True fs (path_of_names ns) = Ok place"
  have twf: "tree_wf (nodes fs)" using wf by (simp add: fs_wf_def)
  have above: "nodes fs ms = Some Directory" if "prefix ms rs" "ms \<noteq> rs" for ms
  proof -
    from that obtain zs where "rs = ms @ zs" "zs \<noteq> []" by (auto simp: prefix_def)
    with real twf show ?thesis by (auto simp: real_node_iff dest: tree_wf_prefix)
  qed
  have "nodes fs ms \<noteq> Some (Symlink target)" if "prefix ms ns" for ms target
  proof (cases "prefix rs ms")
    case True
    then show ?thesis by (rule no_links)
  next
    case False
    with that pre have "prefix ms rs" "ms \<noteq> rs" by (auto dest: prefix_same_cases)
    then show ?thesis by (simp add: above)
  qed
  moreover have "walk True (nodes fs) max_symlinks [] ns = Ok place"
    using res split_on_path_of_names [OF good_name_no_sep [OF good]] tree_wf_root [OF twf]
    by (auto simp: fs_resolve_def walk.simps(2) split: if_splits)
  ultimately have "place = ns" using walk_no_links [OF good, of "[]" "nodes fs"] by simp
  with pre show "prefix rs place" by simp
qed

section \<open>Concrete file systems\<close>

text \<open>A file system given by a list of its nodes beside the root, without injected faults.\<close>

definition tree_of :: "(string list \<times> fs_node) list \<Rightarrow> fs_tree" where
  "tree_of entries = map_of (([], Directory) # entries)"

definition plain_fs :: "(string list \<times> fs_node) list \<Rightarrow> file_system" where
  "plain_fs entries = \<lparr>nodes = tree_of entries, cwd = [], io_fault = (\<lambda>_ _. None)\<rparr>"

lemma plain_fs_simps [simp]:
  "nodes (plain_fs entries) = tree_of entries"
  "cwd (plain_fs entries) = []"
  "io_fault (plain_fs entries) op p = None"
  by (simp_all add: plain_fs_def)

text \<open>An executable check that such a list is a well-formed tree.\<close>

definition entries_wf :: "(string list \<times> fs_node) list \<Rightarrow> bool" where
  "entries_wf entries \<longleftrightarrow>
     list_all (\<lambda>(ns, _). ns \<noteq> [] \<and> list_all good_name ns
       \<and> tree_of entries (butlast ns) = Some Directory) entries"

lemma plain_fs_wf:
  assumes "entries_wf entries"
  shows "fs_wf (plain_fs entries)"
proof -
  have root: "tree_of entries [] = Some Directory" by (simp add: tree_of_def)
  have entry: "ns = [] \<or> (\<exists>nd'. (ns, nd') \<in> set entries)" if "tree_of entries ns = Some nd" for ns nd
    using that by (auto simp: tree_of_def dest: map_of_SomeD split: if_splits)
  have names: "\<forall>n \<in> set ns. good_name n" if "tree_of entries ns = Some nd" for ns nd
    using entry [OF that] assms by (fastforce simp: entries_wf_def list_all_iff)
  have parent: "tree_of entries ns = Some Directory" if "tree_of entries (ns @ [x]) = Some nd" for ns x nd
    using entry [OF that] assms by (fastforce simp: entries_wf_def list_all_iff)
  show ?thesis
    using root names parent by (auto simp: fs_wf_def tree_wf_def)
qed

end
