(* ===== verification/Core_Types.thy ===== *)
theory Core_Types
  imports Contract File_System
begin

text \<open>
  The action and error types of the core crate and the actions of the access crates.

  \<open>Action\<close> is a trait with three methods; the implementors of the repository are
  the filesystem, network and Monty session actions. A value behind \<open>&dyn Action\<close> is
  the datatype \<open>action\<close>: one constructor per implementor, and \<open>ActOther\<close> for an action of
  another crate, which only shows its type identity and the results of the three methods.
  \<open>action_type_of\<close> is the \<open>TypeId\<close> that \<open>Any\<close> compares.
\<close>

section \<open>Canonical path types (\<open>crates/access-fs/src/action.rs\<close>)\<close>

record canonical_path =
  cpath :: string

record canonical_root =
  root_path :: canonical_path

record canonical_prefix =
  prefix_path :: canonical_path

section \<open>Actions\<close>

record fs_action =
  fs_path :: canonical_path

record fs_read_action =
  read_path :: canonical_path

record fs_write_action =
  write_path :: canonical_path
  write_content :: string

record network_fetch_action =
  fetch_url :: string

record monty_session_key =
  key_workspace_root :: string
  key_session_id :: string

record monty_session_load_action =
  load_key :: monty_session_key

record monty_session_save_action =
  save_key :: monty_session_key
  save_bytes :: bytes

text \<open>An action type of another crate: its identity and what its methods return.\<close>

record other_action =
  other_type_name :: string
  other_capabilities :: capabilities
  other_audit_kind :: string
  other_audit_resource :: audit_resource

datatype action =
    ActFs fs_action
  | ActFsRead fs_read_action
  | ActFsWrite fs_write_action
  | ActNetworkFetch network_fetch_action
  | ActSessionLoad monty_session_load_action
  | ActSessionSave monty_session_save_action
  | ActOther other_action

datatype action_type =
    TFsAction | TFsReadAction | TFsWriteAction | TNetworkFetchAction
  | TMontySessionLoadAction | TMontySessionSaveAction | TOtherAction string

fun action_type_of :: "action \<Rightarrow> action_type" where
  "action_type_of (ActFs _) = TFsAction"
| "action_type_of (ActFsRead _) = TFsReadAction"
| "action_type_of (ActFsWrite _) = TFsWriteAction"
| "action_type_of (ActNetworkFetch _) = TNetworkFetchAction"
| "action_type_of (ActSessionLoad _) = TMontySessionLoadAction"
| "action_type_of (ActSessionSave _) = TMontySessionSaveAction"
| "action_type_of (ActOther a) = TOtherAction (other_type_name a)"

subsection \<open>The methods of the filesystem actions\<close>

definition fs_action_capabilities :: "fs_action \<Rightarrow> capabilities" where
  "fs_action_capabilities a = caps_empty"

definition fs_action_audit_kind :: string where
  "fs_action_audit_kind = ''fs''"

definition fs_action_audit_resource :: "fs_action \<Rightarrow> audit_resource" where
  "fs_action_audit_resource a = ResPath (cpath (fs_path a))"

definition fs_read_capabilities :: "fs_read_action \<Rightarrow> capabilities" where
  "fs_read_capabilities a = caps_of_capability FsRead"

definition fs_read_audit_kind :: string where
  "fs_read_audit_kind = ''fs.read''"

definition fs_read_audit_resource :: "fs_read_action \<Rightarrow> audit_resource" where
  "fs_read_audit_resource a = ResPath (cpath (read_path a))"

definition fs_write_capabilities :: "fs_write_action \<Rightarrow> capabilities" where
  "fs_write_capabilities a = caps_of_capability FsWrite"

definition fs_write_audit_kind :: string where
  "fs_write_audit_kind = ''fs.write''"

definition fs_write_audit_resource :: "fs_write_action \<Rightarrow> audit_resource" where
  "fs_write_audit_resource a = ResPath (cpath (write_path a))"

subsection \<open>The methods of the network action\<close>

definition network_fetch_capabilities :: "network_fetch_action \<Rightarrow> capabilities" where
  "network_fetch_capabilities a = caps_of_capability NetworkFetch"

definition network_fetch_audit_kind :: string where
  "network_fetch_audit_kind = ''network.fetch''"

definition network_fetch_audit_resource :: "network_fetch_action \<Rightarrow> audit_resource" where
  "network_fetch_audit_resource a = ResValue (fetch_url a)"

subsection \<open>The methods of the Monty session actions\<close>

definition session_key_audit_resource :: "monty_session_key \<Rightarrow> string" where
  "session_key_audit_resource k = key_workspace_root k @ ''#'' @ key_session_id k"

definition session_load_capabilities :: "monty_session_load_action \<Rightarrow> capabilities" where
  "session_load_capabilities a = caps_empty"

definition session_load_audit_kind :: string where
  "session_load_audit_kind = ''monty.session.load''"

definition session_load_audit_resource :: "monty_session_load_action \<Rightarrow> audit_resource" where
  "session_load_audit_resource a = ResValue (session_key_audit_resource (load_key a))"

definition session_save_capabilities :: "monty_session_save_action \<Rightarrow> capabilities" where
  "session_save_capabilities a = caps_empty"

definition session_save_audit_kind :: string where
  "session_save_audit_kind = ''monty.session.save''"

definition session_save_audit_resource :: "monty_session_save_action \<Rightarrow> audit_resource" where
  "session_save_audit_resource a = ResValue (session_key_audit_resource (save_key a))"

subsection \<open>Dynamic dispatch\<close>

fun action_capabilities :: "action \<Rightarrow> capabilities" where
  "action_capabilities (ActFs a) = fs_action_capabilities a"
| "action_capabilities (ActFsRead a) = fs_read_capabilities a"
| "action_capabilities (ActFsWrite a) = fs_write_capabilities a"
| "action_capabilities (ActNetworkFetch a) = network_fetch_capabilities a"
| "action_capabilities (ActSessionLoad a) = session_load_capabilities a"
| "action_capabilities (ActSessionSave a) = session_save_capabilities a"
| "action_capabilities (ActOther a) = other_capabilities a"

fun audit_kind :: "action \<Rightarrow> string" where
  "audit_kind (ActFs a) = fs_action_audit_kind"
| "audit_kind (ActFsRead a) = fs_read_audit_kind"
| "audit_kind (ActFsWrite a) = fs_write_audit_kind"
| "audit_kind (ActNetworkFetch a) = network_fetch_audit_kind"
| "audit_kind (ActSessionLoad a) = session_load_audit_kind"
| "audit_kind (ActSessionSave a) = session_save_audit_kind"
| "audit_kind (ActOther a) = other_audit_kind a"

fun audit_resource_of :: "action \<Rightarrow> audit_resource" where
  "audit_resource_of (ActFs a) = fs_action_audit_resource a"
| "audit_resource_of (ActFsRead a) = fs_read_audit_resource a"
| "audit_resource_of (ActFsWrite a) = fs_write_audit_resource a"
| "audit_resource_of (ActNetworkFetch a) = network_fetch_audit_resource a"
| "audit_resource_of (ActSessionLoad a) = session_load_audit_resource a"
| "audit_resource_of (ActSessionSave a) = session_save_audit_resource a"
| "audit_resource_of (ActOther a) = other_audit_resource a"

lemmas action_capabilities_defs =
  fs_action_capabilities_def fs_read_capabilities_def fs_write_capabilities_def
  network_fetch_capabilities_def session_load_capabilities_def session_save_capabilities_def

section \<open>Errors (\<open>crates/core/src/error.rs\<close>)\<close>

record authorization_deny =
  deny_reason :: string
  deny_record_of :: "grant_record option"

definition authorization_deny_new :: "string \<Rightarrow> authorization_deny" where
  "authorization_deny_new s = \<lparr>deny_reason = s, deny_record_of = None\<rparr>"

definition authorization_deny_from_record :: "grant_record \<Rightarrow> authorization_deny" where
  "authorization_deny_from_record r =
     \<lparr>deny_reason = (case rec_reason r of Some s \<Rightarrow> s | None \<Rightarrow> ''policy denied action''),
      deny_record_of = Some r\<rparr>"

datatype authorization_error =
    MissingCapability capability
  | Denied authorization_deny
  | OutsideWorkspace
  | AuthIo io_error

fun denied_reason :: "authorization_error \<Rightarrow> string option" where
  "denied_reason (Denied d) = Some (deny_reason d)"
| "denied_reason _ = None"

fun deny_record :: "authorization_error \<Rightarrow> grant_record option" where
  "deny_record (Denied d) = deny_record_of d"
| "deny_record _ = None"

datatype capability_error = GrantMismatch | CapDenied | CapIo io_error

datatype execution_error =
    ExecAuthorization authorization_error
  | ExecCapability capability_error
  | ExecOther string

datatype input_error = MissingField string | InvalidField string

datatype tool_error =
    UnknownTool string
  | DuplicateTool string
  | InvalidSpec
  | InvalidInput input_error
  | ToolAuthorization authorization_error
  | ToolExecution execution_error

section \<open>Debug formatting of the errors\<close>

text \<open>
  The derived \<open>Debug\<close> of the error types, which the tool host records on its spans and
  which the Monty tool hands to the script as an exception message.
\<close>

definition debug_struct :: "string \<Rightarrow> (string \<times> string) list \<Rightarrow> string" where
  "debug_struct name kvs =
     name @ '' { '' @
     concat (map (\<lambda>(i, (k, v)). (if i = 0 then '''' else '', '') @ k @ '': '' @ v)
       (enumerate 0 kvs)) @ '' }''"

definition debug_tuple :: "string \<Rightarrow> string \<Rightarrow> string" where
  "debug_tuple name v = name @ ''('' @ v @ '')''"

definition debug_os_error :: "nat \<Rightarrow> string \<Rightarrow> string \<Rightarrow> string" where
  "debug_os_error code kind msg =
     debug_struct ''Os'' [(''code'', dec_nat code), (''kind'', kind), (''message'', debug_str msg)]"

fun debug_io_error :: "io_error \<Rightarrow> string" where
  "debug_io_error NotFound = debug_os_error 2 ''NotFound'' ''No such file or directory''"
| "debug_io_error AlreadyExists = debug_os_error 17 ''AlreadyExists'' ''File exists''"
| "debug_io_error NotADirectory = debug_os_error 20 ''NotADirectory'' ''Not a directory''"
| "debug_io_error IsADirectory = debug_os_error 21 ''IsADirectory'' ''Is a directory''"
| "debug_io_error FilesystemLoop =
     debug_os_error 40 ''FilesystemLoop'' ''Too many levels of symbolic links''"
| "debug_io_error InvalidData =
     debug_struct ''Error'' [(''kind'', ''InvalidData''),
       (''message'', debug_str ''stream did not contain valid UTF-8'')]"
| "debug_io_error PermissionDenied = debug_os_error 13 ''PermissionDenied'' ''Permission denied''"
| "debug_io_error (OtherIo s) = s"

fun debug_grant_id :: "grant_id \<Rightarrow> string" where
  "debug_grant_id (GrantId v) = debug_tuple ''GrantId'' (dec_u64 v)"

fun debug_grant_decision :: "grant_decision \<Rightarrow> string" where
  "debug_grant_decision (GrantAllow gid) = debug_tuple ''Allow'' (debug_grant_id gid)"
| "debug_grant_decision GrantDeny = ''Deny''"

fun debug_audit_resource :: "audit_resource \<Rightarrow> string" where
  "debug_audit_resource (ResPath p) = debug_tuple ''Path'' (debug_str p)"
| "debug_audit_resource (ResValue v) = debug_tuple ''Value'' (debug_str v)"
| "debug_audit_resource ResNone = ''None''"

fun debug_grant_source :: "grant_source \<Rightarrow> string" where
  "debug_grant_source (SourcePolicy n i) =
     debug_struct ''Policy'' [(''policy_name'', debug_str n), (''policy_id'', dec_u64 i)]"
| "debug_grant_source NoMatchingPolicy = ''NoMatchingPolicy''"

definition debug_grant_record :: "grant_record \<Rightarrow> string" where
  "debug_grant_record r =
     debug_struct ''GrantRecord''
       [(''decision'', debug_grant_decision (rec_decision r)),
        (''action_kind'', debug_str (action_kind r)),
        (''resource'', debug_audit_resource (resource r)),
        (''source'', debug_grant_source (grant_src r)),
        (''reason'', debug_option debug_str (rec_reason r))]"

definition debug_authorization_deny :: "authorization_deny \<Rightarrow> string" where
  "debug_authorization_deny d =
     debug_struct ''AuthorizationDeny''
       [(''reason'', debug_str (deny_reason d)),
        (''record'', debug_option debug_grant_record (deny_record_of d))]"

fun debug_capability :: "capability \<Rightarrow> string" where
  "debug_capability FsRead = ''FsRead''"
| "debug_capability FsWrite = ''FsWrite''"
| "debug_capability FsList = ''FsList''"
| "debug_capability FsMetadata = ''FsMetadata''"
| "debug_capability ProcessSpawn = ''ProcessSpawn''"
| "debug_capability ProcessSignal = ''ProcessSignal''"
| "debug_capability ProcessIo = ''ProcessIo''"
| "debug_capability SecretList = ''SecretList''"
| "debug_capability SecretRead = ''SecretRead''"
| "debug_capability SecretMutate = ''SecretMutate''"
| "debug_capability NetworkFetch = ''NetworkFetch''"
| "debug_capability NetworkBind = ''NetworkBind''"
| "debug_capability ScheduleList = ''ScheduleList''"
| "debug_capability ScheduleRead = ''ScheduleRead''"
| "debug_capability ScheduleMutate = ''ScheduleMutate''"
| "debug_capability AgentSpawn = ''AgentSpawn''"
| "debug_capability JobSpawn = ''JobSpawn''"
| "debug_capability TimeRead = ''TimeRead''"

fun debug_authorization_error :: "authorization_error \<Rightarrow> string" where
  "debug_authorization_error (MissingCapability c) =
     debug_tuple ''MissingCapability'' (debug_capability c)"
| "debug_authorization_error (Denied d) = debug_tuple ''Denied'' (debug_authorization_deny d)"
| "debug_authorization_error OutsideWorkspace = ''OutsideWorkspace''"
| "debug_authorization_error (AuthIo e) = debug_tuple ''Io'' (debug_io_error e)"

fun debug_capability_error :: "capability_error \<Rightarrow> string" where
  "debug_capability_error GrantMismatch = ''GrantMismatch''"
| "debug_capability_error CapDenied = ''Denied''"
| "debug_capability_error (CapIo e) = debug_tuple ''Io'' (debug_io_error e)"

fun debug_execution_error :: "execution_error \<Rightarrow> string" where
  "debug_execution_error (ExecAuthorization e) =
     debug_tuple ''Authorization'' (debug_authorization_error e)"
| "debug_execution_error (ExecCapability e) = debug_tuple ''Capability'' (debug_capability_error e)"
| "debug_execution_error (ExecOther s) = debug_tuple ''Other'' (debug_str s)"

fun debug_input_error :: "input_error \<Rightarrow> string" where
  "debug_input_error (MissingField f) = debug_tuple ''MissingField'' (debug_str f)"
| "debug_input_error (InvalidField f) = debug_tuple ''InvalidField'' (debug_str f)"

fun debug_tool_error :: "tool_error \<Rightarrow> string" where
  "debug_tool_error (UnknownTool s) = debug_tuple ''UnknownTool'' (debug_str s)"
| "debug_tool_error (DuplicateTool s) = debug_tuple ''DuplicateTool'' (debug_str s)"
| "debug_tool_error InvalidSpec = ''InvalidSpec''"
| "debug_tool_error (InvalidInput e) = debug_tuple ''InvalidInput'' (debug_input_error e)"
| "debug_tool_error (ToolAuthorization e) =
     debug_tuple ''Authorization'' (debug_authorization_error e)"
| "debug_tool_error (ToolExecution e) = debug_tuple ''Execution'' (debug_execution_error e)"

end
