(* ===== verification/Kernel_Audit.thy ===== *)
theory Kernel_Audit
  imports Core_Types
begin

text \<open>
  \<open>crates/kernel/src/audit.rs\<close>: the structured audit facts. The \<open>tracing\<close> macros are
  calls into another crate; the model keeps the log of those calls in the order the code
  makes them: an event with its level, target and fields, the entry into a span with the
  fields it declares, a value recorded on the current span, the exit from it. A field
  whose value is \<open>None\<close> is not emitted.
\<close>

section \<open>The log\<close>

datatype level = DEBUG | INFO | WARN

datatype field_value = FStr string | FU64 u64 | FBool bool | FEmpty

type_synonym log_fields = "(string \<times> field_value) list"

datatype audit_event =
    Event level string log_fields
  | SpanEnter string string log_fields
  | SpanRecord string field_value
  | SpanExit

definition opt_field :: "string \<Rightarrow> ('a \<Rightarrow> field_value) \<Rightarrow> 'a option \<Rightarrow> log_fields" where
  "opt_field k f v = (case v of None \<Rightarrow> [] | Some x \<Rightarrow> [(k, f x)])"

lemma opt_field_simps [simp]:
  "opt_field k f None = []"
  "opt_field k f (Some x) = [(k, f x)]"
  by (simp_all add: opt_field_def)

section \<open>Names\<close>

definition AUDIT_TARGET :: string where "AUDIT_TARGET = ''mvp::audit''"

definition SPAN_TOOL_INVOKE :: string where "SPAN_TOOL_INVOKE = ''tool.invoke''"
definition SPAN_TOOL_PARSE_INPUT :: string where "SPAN_TOOL_PARSE_INPUT = ''tool.parse_input''"
definition SPAN_TOOL_EXECUTION :: string where "SPAN_TOOL_EXECUTION = ''tool.execution''"
definition SPAN_ACTION_GRANT :: string where "SPAN_ACTION_GRANT = ''action.grant''"

definition EVENT_TOOL_CAPABILITIES_OVERRIDE :: string where
  "EVENT_TOOL_CAPABILITIES_OVERRIDE = ''tool.capabilities_override''"
definition EVENT_TOOL_NESTED_SCOPE :: string where
  "EVENT_TOOL_NESTED_SCOPE = ''tool.nested_scope''"
definition EVENT_GRANT_ALLOW :: string where "EVENT_GRANT_ALLOW = ''grant.allow''"
definition EVENT_GRANT_DENY :: string where "EVENT_GRANT_DENY = ''grant.deny''"
definition EVENT_POLICY_EVALUATE :: string where "EVENT_POLICY_EVALUATE = ''policy.evaluate''"

definition PHASE_TOOL :: string where "PHASE_TOOL = ''tool''"
definition PHASE_POLICY :: string where "PHASE_POLICY = ''policy''"
definition PHASE_GRANT :: string where "PHASE_GRANT = ''grant''"

lemmas audit_names =
  AUDIT_TARGET_def SPAN_TOOL_INVOKE_def SPAN_TOOL_PARSE_INPUT_def SPAN_TOOL_EXECUTION_def
  SPAN_ACTION_GRANT_def EVENT_TOOL_CAPABILITIES_OVERRIDE_def EVENT_TOOL_NESTED_SCOPE_def
  EVENT_GRANT_ALLOW_def EVENT_GRANT_DENY_def EVENT_POLICY_EVALUATE_def
  PHASE_TOOL_def PHASE_POLICY_def PHASE_GRANT_def

section \<open>Spans\<close>

definition tool_invocation_span :: "string \<Rightarrow> string \<Rightarrow> audit_event" where
  "tool_invocation_span tool_path name =
     SpanEnter AUDIT_TARGET SPAN_TOOL_INVOKE
       [(''otel.name'', FStr (''tool.invoke '' @ name)),
        (''phase'', FStr PHASE_TOOL),
        (''tool_path'', FStr (debug_str tool_path)),
        (''tool_name'', FStr name),
        (''result'', FEmpty),
        (''error'', FEmpty)]"

definition tool_parse_input_span :: "string \<Rightarrow> audit_event" where
  "tool_parse_input_span name =
     SpanEnter AUDIT_TARGET SPAN_TOOL_PARSE_INPUT
       [(''otel.name'', FStr (''tool.parse_input '' @ name)),
        (''phase'', FStr PHASE_TOOL),
        (''tool_name'', FStr name),
        (''result'', FEmpty),
        (''error'', FEmpty)]"

definition tool_execution_span :: "string \<Rightarrow> audit_event" where
  "tool_execution_span name =
     SpanEnter AUDIT_TARGET SPAN_TOOL_EXECUTION
       [(''otel.name'', FStr (''tool.execute '' @ name)),
        (''phase'', FStr PHASE_TOOL),
        (''tool_name'', FStr name),
        (''result'', FEmpty),
        (''error'', FEmpty)]"

definition action_grant_span :: "string \<Rightarrow> audit_event" where
  "action_grant_span kind =
     SpanEnter AUDIT_TARGET SPAN_ACTION_GRANT
       [(''otel.name'', FStr (''action.grant '' @ kind)),
        (''phase'', FStr PHASE_GRANT),
        (''action'', FStr kind),
        (''result'', FEmpty),
        (''grant_id'', FEmpty),
        (''policy_name'', FEmpty),
        (''reason'', FEmpty)]"

section \<open>Events\<close>

definition serialize_resource :: "audit_resource \<Rightarrow> string \<times> string" where
  "serialize_resource res =
     (case res of
        ResPath p \<Rightarrow> (''path'', p)
      | ResValue v \<Rightarrow> (''value'', v)
      | ResNone \<Rightarrow> (''none'', ''''))"

definition record_tool_capabilities_override ::
  "string \<Rightarrow> string \<Rightarrow> capabilities \<Rightarrow> capabilities \<Rightarrow> audit_event list" where
  "record_tool_capabilities_override tool_path name declared effective =
     (if \<not> caps_contains declared effective then
        [Event INFO AUDIT_TARGET
          [(''event'', FStr EVENT_TOOL_CAPABILITIES_OVERRIDE),
           (''phase'', FStr PHASE_TOOL),
           (''tool_path'', FStr (debug_str tool_path)),
           (''tool_name'', FStr name),
           (''declared_capabilities'', FU64 declared),
           (''effective_capabilities'', FU64 effective)]]
      else [])"

definition record_nested_capability_override ::
  "string \<Rightarrow> string \<Rightarrow> string \<Rightarrow> capabilities \<Rightarrow> capabilities option \<Rightarrow> capabilities option \<Rightarrow> bool
   \<Rightarrow> audit_event list" where
  "record_nested_capability_override parent_path parent_name child_path parent_caps requested
     actual attempted_expand =
     [Event (if attempted_expand then WARN else INFO) AUDIT_TARGET
       ([(''event'', FStr EVENT_TOOL_NESTED_SCOPE),
         (''phase'', FStr PHASE_TOOL),
         (''parent_tool_path'', FStr (debug_str parent_path)),
         (''parent_tool_name'', FStr parent_name),
         (''child_tool_path'', FStr (debug_str child_path)),
         (''parent_effective_capabilities'', FU64 parent_caps)]
        @ opt_field ''requested_capabilities_override'' FU64 requested
        @ opt_field ''actual_child_capabilities'' FU64 actual
        @ [(''attempted_expand'', FBool attempted_expand)])]"

text \<open>\<open>record_grant\<close> emits the final event of an authorization and then records the result on
  the current span.\<close>

definition record_grant :: "grant_record \<Rightarrow> audit_event list" where
  "record_grant r =
     (let ev = (case rec_decision r of GrantAllow _ \<Rightarrow> EVENT_GRANT_ALLOW | GrantDeny \<Rightarrow> EVENT_GRANT_DENY);
          gid = (case rec_decision r of GrantAllow g \<Rightarrow> Some (grant_id_get g) | GrantDeny \<Rightarrow> None);
          (rkind, rvalue) = serialize_resource (resource r);
          (pname, pid, gsource) =
            (case grant_src r of
               SourcePolicy n i \<Rightarrow> (Some n, Some i, ''policy'')
             | NoMatchingPolicy \<Rightarrow> (None, None, ''no_matching_policy''))
      in [Event INFO AUDIT_TARGET
            ([(''event'', FStr ev),
              (''phase'', FStr PHASE_GRANT),
              (''action'', FStr (action_kind r))]
             @ opt_field ''grant_id'' FU64 gid
             @ [(''resource_kind'', FStr rkind),
                (''resource'', FStr rvalue),
                (''grant_source'', FStr gsource)]
             @ opt_field ''policy_name'' FStr pname
             @ opt_field ''policy_id'' FU64 pid
             @ opt_field ''reason'' FStr (rec_reason r))]
         @ (case rec_decision r of
              GrantAllow g \<Rightarrow>
                [SpanRecord ''result'' (FStr ''allow''),
                 SpanRecord ''otel.status_code'' (FStr ''ok''),
                 SpanRecord ''grant_id'' (FU64 (grant_id_get g))]
            | GrantDeny \<Rightarrow>
                [SpanRecord ''result'' (FStr ''deny''),
                 SpanRecord ''otel.status_code'' (FStr ''error'')]
                @ (case rec_reason r of
                     None \<Rightarrow> []
                   | Some s \<Rightarrow> [SpanRecord ''otel.status_description'' (FStr s),
                                SpanRecord ''reason'' (FStr s)]))
         @ (case pname of None \<Rightarrow> [] | Some n \<Rightarrow> [SpanRecord ''policy_name'' (FStr n)]))"

definition policy_decision_name :: "policy_decision \<Rightarrow> string" where
  "policy_decision_name d =
     (case d of Allow \<Rightarrow> ''allow'' | Deny \<Rightarrow> ''deny'' | Abstain \<Rightarrow> ''abstain'')"

definition record_policy_grant ::
  "string \<Rightarrow> audit_resource \<Rightarrow> string \<Rightarrow> policy_id \<Rightarrow> string \<Rightarrow> policy_grant \<Rightarrow> audit_event" where
  "record_policy_grant kind res pname pid stage g =
     (let (rkind, rvalue) = serialize_resource res
      in Event DEBUG AUDIT_TARGET
           ([(''event'', FStr EVENT_POLICY_EVALUATE),
             (''phase'', FStr PHASE_POLICY),
             (''action'', FStr kind),
             (''resource_kind'', FStr rkind),
             (''resource'', FStr rvalue),
             (''policy_name'', FStr pname),
             (''policy_id'', FU64 pid),
             (''policy_stage'', FStr stage),
             (''decision'', FStr (policy_decision_name (decision g)))]
            @ opt_field ''reason'' FStr (reason g)
            @ opt_field ''predicate'' FStr (predicate g)))"

section \<open>Reading the log\<close>

text \<open>The name of an event, and the level-0 view used by the properties below.\<close>

fun event_name :: "audit_event \<Rightarrow> string option" where
  "event_name (Event l tgt fs) =
     (case map_of fs ''event'' of Some (FStr n) \<Rightarrow> Some n | _ \<Rightarrow> None)"
| "event_name _ = None"

fun event_field :: "string \<Rightarrow> audit_event \<Rightarrow> field_value option" where
  "event_field k (Event l tgt fs) = map_of fs k"
| "event_field k _ = None"

fun declared_fields :: "audit_event \<Rightarrow> string list" where
  "declared_fields (SpanEnter tgt n fs) = map fst fs"
| "declared_fields _ = []"

end
