(* ===== verification/World.thy ===== *)
theory World
  imports Kernel_Audit
begin

text \<open>
  The mutable state that the code under \<open>crates/\<close> reaches: the process-wide counter of
  grant identifiers (\<open>NEXT_GRANT_ID\<close>), the file system, the Monty session map behind its
  mutex, and the audit log. Operations take the world and return the new one.
\<close>

text \<open>
  \<open>BTreeMap<MontySessionKey, Vec<u8>>\<close> in a \<open>Mutex\<close>: the key order compares the workspace
  root as a path, that is by its components; \<open>poisoned\<close> is the state of a mutex whose holder
  panicked.
\<close>

record session_store =
  session_map :: "(path_component list \<times> string) \<Rightarrow> bytes option"
  poisoned :: bool

record world =
  next_grant_id :: u64
  fs :: file_system
  sessions :: session_store
  audit_log :: "audit_event list"

definition emit :: "audit_event list \<Rightarrow> world \<Rightarrow> world" where
  "emit evs w = w\<lparr>audit_log := audit_log w @ evs\<rparr>"

lemma emit_simps [simp]:
  "next_grant_id (emit evs w) = next_grant_id w"
  "fs (emit evs w) = fs w"
  "sessions (emit evs w) = sessions w"
  "audit_log (emit evs w) = audit_log w @ evs"
  by (simp_all add: emit_def)

lemma emit_Nil [simp]: "emit [] w = w"
  by (simp add: emit_def)

lemma emit_emit [simp]: "emit evs' (emit evs w) = emit (evs @ evs') w"
  by (simp add: emit_def)

text \<open>The start of a process: the grant counter is 1, no session is stored, nothing is logged.\<close>

definition session_store_new :: session_store where
  "session_store_new = \<lparr>session_map = (\<lambda>_. None), poisoned = False\<rparr>"

definition initial_world :: "file_system \<Rightarrow> world" where
  "initial_world fsys =
     \<lparr>next_grant_id = 1, fs = fsys, sessions = session_store_new, audit_log = []\<rparr>"

lemma initial_world_simps [simp]:
  "next_grant_id (initial_world fsys) = 1"
  "fs (initial_world fsys) = fsys"
  "sessions (initial_world fsys) = session_store_new"
  "audit_log (initial_world fsys) = []"
  by (simp_all add: initial_world_def)

end
