(* ===== verification/Core_Policy.thy ===== *)
theory Core_Policy
  imports World
begin

text \<open>
  \<open>crates/core/src/policy\<close>: policy contexts, policies, the engine interface and the grant
  path. A policy engine decides an action in a context and returns a report;
  \<open>grant_with_engine\<close> turns an allow report into a \<open>granted\<close> value with a fresh identifier
  and a deny report into an error that carries the record. \<open>Granted\<close> has no other
  constructor in the sources, so a backend that takes a \<open>granted\<close> action has a record of
  the decision.
\<close>

section \<open>Contexts and policies\<close>

record policy_context =
  ctx_capabilities :: capabilities
  ctx_workspace_root :: string

text \<open>\<open>Policy<F, A>\<close> for one action type, and \<open>PolicyAny<F>\<close> for any action.\<close>

record 'a policy =
  pol_name :: string
  pol_grant :: "policy_context \<Rightarrow> 'a \<Rightarrow> policy_grant"

record policy_any =
  any_name :: string
  any_grant :: "policy_context \<Rightarrow> action \<Rightarrow> policy_grant"

section \<open>Grants\<close>

record 'a granted =
  granted_record :: grant_record
  granted_action :: 'a

definition granted_new :: "grant_record \<Rightarrow> 'a \<Rightarrow> 'a granted" where
  "granted_new r a = \<lparr>granted_record = r, granted_action = a\<rparr>"

text \<open>\<open>Granted::grant_id\<close> panics when the record is not an allow record.\<close>

definition granted_grant_id :: "'a granted \<Rightarrow> grant_id exec" where
  "granted_grant_id g =
     (case grant_record_grant_id (granted_record g) of
        Some gid \<Rightarrow> Done gid
      | None \<Rightarrow> Panicked ''Granted values are always backed by an allow record'')"

definition into_action :: "'a granted \<Rightarrow> 'a" where
  "into_action g = granted_action g"

text \<open>\<open>NEXT_GRANT_ID.fetch_add(1)\<close> returns the old value; the counter wraps.\<close>

definition fetch_grant_id :: "world \<Rightarrow> grant_id \<times> world" where
  "fetch_grant_id w =
     (grant_id_from_raw (next_grant_id w), w\<lparr>next_grant_id := next_grant_id w + 1\<rparr>)"

section \<open>The grant path\<close>

type_synonym engine_decide = "policy_context \<Rightarrow> action \<Rightarrow> policy_report \<times> audit_event list"

text \<open>
  \<open>grant_with_engine\<close>; \<open>dyn\<close> is the coercion of the action type to \<open>dyn Action\<close>. The
  events are those that the engine emits while it decides.
\<close>

definition grant_with_engine ::
  "engine_decide \<Rightarrow> ('a \<Rightarrow> action) \<Rightarrow> policy_context \<Rightarrow> 'a \<Rightarrow> world
   \<Rightarrow> (authorization_error + 'a granted) \<times> world" where
  "grant_with_engine decide dyn ctx a w =
     (let kind = audit_kind (dyn a);
          res = audit_resource_of (dyn a);
          (report, evs) = decide ctx (dyn a);
          w1 = emit evs w
      in case report_outcome report of
           OutcomeAllow n i r \<Rightarrow>
             (let (gid, w2) = fetch_grant_id w1
              in (Ok (granted_new (grant_record_allow gid kind res n i r) a), w2))
         | OutcomeDeny (SourcePolicy n i) r \<Rightarrow>
             (let r' = (case r of Some s \<Rightarrow> Some s | None \<Rightarrow> Some ''policy denied action'')
              in (Err (Denied (authorization_deny_from_record
                    (grant_record_deny_from_policy kind res n i r'))), w1))
         | OutcomeDeny NoMatchingPolicy r \<Rightarrow>
             (let r' = (case r of Some s \<Rightarrow> Some s | None \<Rightarrow> Some ''No matching policy.'')
              in (Err (Denied (authorization_deny_from_record
                    (grant_record_deny_without_match kind res r'))), w1)))"

lemma grant_with_engine_frame [frame]:
  "grant_with_engine decide dyn ctx a w = (r, w') \<Longrightarrow>
     fs w' = fs w \<and> sessions w' = sessions w"
  by (auto simp: grant_with_engine_def fetch_grant_id_def Let_def
      split: prod.splits policy_outcome.splits grant_source.splits)

lemma grant_with_engine_Ok:
  assumes "grant_with_engine decide dyn ctx a w = (Ok g, w')"
  obtains n i r where "report_outcome (fst (decide ctx (dyn a))) = OutcomeAllow n i r"
    and "granted_action g = a"
    and "granted_record g = grant_record_allow (GrantId (next_grant_id w)) (audit_kind (dyn a))
           (audit_resource_of (dyn a)) n i r"
    and "next_grant_id w' = next_grant_id w + 1"
  using assms
  by (auto simp: grant_with_engine_def fetch_grant_id_def granted_new_def grant_id_from_raw_def
      Let_def split: prod.splits policy_outcome.splits grant_source.splits)

lemma grant_with_engine_Err:
  assumes "grant_with_engine decide dyn ctx a w = (Err e, w')"
  obtains src r d where "report_outcome (fst (decide ctx (dyn a))) = OutcomeDeny src r"
    and "e = Denied d" and "next_grant_id w' = next_grant_id w"
  using assms
  by (auto simp: grant_with_engine_def fetch_grant_id_def Let_def
      split: prod.splits policy_outcome.splits grant_source.splits)

section \<open>The engine interface\<close>

text \<open>
  What the access facades rely on: an engine state that satisfies \<open>invar\<close> allows an action
  only when the action's capabilities are within those of the context.
\<close>

locale gated_engine =
  fixes decide :: "'e \<Rightarrow> engine_decide"
    and invar :: "'e \<Rightarrow> bool"
  assumes gate: "invar e \<Longrightarrow>
      report_outcome (fst (decide e ctx a)) = OutcomeAllow n i r \<Longrightarrow>
      caps_contains (ctx_capabilities ctx) (action_capabilities a)"
begin

lemma granted_within_envelope:
  assumes "invar e" and "grant_with_engine (decide e) dyn ctx a w = (Ok g, w')"
  shows "caps_contains (ctx_capabilities ctx) (action_capabilities (dyn (granted_action g)))"
  using assms(2) by (rule grant_with_engine_Ok) (use gate [OF assms(1)] in auto)

lemma outside_envelope_denied:
  assumes "invar e" and "\<not> caps_contains (ctx_capabilities ctx) (action_capabilities (dyn a))"
  shows "\<exists>d w'. grant_with_engine (decide e) dyn ctx a w = (Err (Denied d), w')"
proof (cases "grant_with_engine (decide e) dyn ctx a w")
  case (Pair r w')
  show ?thesis
  proof (cases r)
    case (Inl err)
    with Pair have "grant_with_engine (decide e) dyn ctx a w = (Err err, w')" by simp
    then show ?thesis by (rule grant_with_engine_Err) (use Pair Inl in auto)
  next
    case (Inr g)
    with Pair have eq: "grant_with_engine (decide e) dyn ctx a w = (Ok g, w')" by simp
    then have "granted_action g = a" by (rule grant_with_engine_Ok)
    with granted_within_envelope [OF assms(1) eq] assms(2) show ?thesis by simp
  qed
qed

end

section \<open>Properties\<close>

text \<open>A granted value is always backed by an allow record that carries the counter's value,
  so reading its identifier never panics, the record names the action's own kind and
  resource, and the counter advances by one.\<close>

theorem granted_grant_id_never_panics:
  assumes "grant_with_engine decide dyn ctx a w = (Ok g, w')"
  shows "granted_grant_id g = Done (GrantId (next_grant_id w))
    \<and> action_kind (granted_record g) = audit_kind (dyn a)
    \<and> resource (granted_record g) = audit_resource_of (dyn a)
    \<and> into_action g = a
    \<and> next_grant_id w' = next_grant_id w + 1"
  using assms
  by (rule grant_with_engine_Ok)
    (simp add: granted_grant_id_def grant_record_grant_id_def grant_record_allow_def into_action_def)

theorem granted_grant_id_never_panics_witness:
  "\<exists>g w'. grant_with_engine (\<lambda>ctx a. (report_allow [] ''p'' 1 None, [])) ActNetworkFetch
       \<lparr>ctx_capabilities = caps_empty, ctx_workspace_root = ''/''\<rparr> \<lparr>fetch_url = ''u''\<rparr>
       (initial_world (plain_fs [])) = (Ok g, w')
     \<and> granted_grant_id g = Done (GrantId 1)"
proof -
  let ?run = "grant_with_engine (\<lambda>ctx a. (report_allow [] ''p'' 1 None, [])) ActNetworkFetch
       \<lparr>ctx_capabilities = caps_empty, ctx_workspace_root = ''/''\<rparr> \<lparr>fetch_url = ''u''\<rparr>
       (initial_world (plain_fs []))"
  have "is_ok (fst ?run)"
    by (simp add: grant_with_engine_def fetch_grant_id_def report_allow_def Let_def)
  then obtain g w' where run: "?run = (Ok g, w')" by (metis is_ok_iff prod.collapse)
  with granted_grant_id_never_panics [OF run] show ?thesis by auto
qed

text \<open>A denial always carries a reason for the caller: the one of the report, or the default
  text of its source when the report gives none.\<close>

theorem grant_denied_has_record:
  assumes "report_outcome (fst (decide ctx (dyn a))) = OutcomeDeny src r"
  shows "\<exists>d rec. fst (grant_with_engine decide dyn ctx a w) = Err (Denied d)
    \<and> deny_record (Denied d) = Some rec
    \<and> rec_decision rec = GrantDeny \<and> grant_src rec = src
    \<and> denied_reason (Denied d) =
        Some (case r of Some s \<Rightarrow> s
              | None \<Rightarrow> (case src of SourcePolicy _ _ \<Rightarrow> ''policy denied action''
                        | NoMatchingPolicy \<Rightarrow> ''No matching policy.''))"
  using assms
  by (cases src; cases r)
    (auto simp: grant_with_engine_def authorization_deny_from_record_def grant_record_defs
      Let_def split: prod.splits)

theorem grant_denied_has_record_witness:
  "\<exists>d. fst (grant_with_engine (\<lambda>ctx a. (report_deny_without_match [] None, [])) ActNetworkFetch
       \<lparr>ctx_capabilities = caps_empty, ctx_workspace_root = ''/''\<rparr> \<lparr>fetch_url = ''u''\<rparr>
       (initial_world (plain_fs []))) = Err (Denied d) \<and> denied_reason (Denied d) = Some ''No matching policy.''"
proof -
  have "report_outcome (fst ((\<lambda>ctx a. (report_deny_without_match [] None, []))
      \<lparr>ctx_capabilities = caps_empty, ctx_workspace_root = ''/''\<rparr>
      (ActNetworkFetch \<lparr>fetch_url = ''u''\<rparr>))) = OutcomeDeny NoMatchingPolicy None"
    by (simp add: report_deny_without_match_def)
  from grant_denied_has_record [where w = "initial_world (plain_fs [])" and dyn = ActNetworkFetch, OF this] show ?thesis by auto
qed

end
