(* ===== verification/Tool_Host.thy ===== *)
theory Tool_Host
  imports Core_Policy
begin

text \<open>
  \<open>crates/core/src/tool\<close>: tool registrations, tool implementations and the adapter that runs
  one invocation of a tool: parse the payload, execute, convert the output, with a tracing
  span around each of the first two steps.

  A tool reaches the world only through the methods of its context, so the body of
  \<open>execute\<close> is modelled by the tree of its context calls: \<open>tool_prog\<close> has one constructor per
  method of the context, with the continuation that takes the method's result. The host
  interprets the tree (\<open>App\<close>); a tool of any crate is such a tree, so the theorems about the
  host hold for every tool. \<open>ToolPanics\<close> is a panic inside the tool's own code and
  \<open>StepBound\<close> a tool that had not finished within the bound of its model.
\<close>

section \<open>Programs of tools\<close>

datatype 'a tool_prog =
    Return "tool_error + 'a"
  | CallReadFile string "(execution_error + string) \<Rightarrow> 'a tool_prog"
  | CallWriteFile string string "(execution_error + unit) \<Rightarrow> 'a tool_prog"
  | CallFetchUrl string "(execution_error + bytes) \<Rightarrow> 'a tool_prog"
  | CallSessionLoad string "(execution_error + bytes option) \<Rightarrow> 'a tool_prog"
  | CallSessionSave string bytes "(execution_error + unit) \<Rightarrow> 'a tool_prog"
  | CallInvokeTool string "capabilities option" json "(tool_error + tool_outcome) \<Rightarrow> 'a tool_prog"
  | EmitAudit "audit_event list" "'a tool_prog"
  | ToolPanics string
  | StepBound

text \<open>Sequencing: go on with the result, error or value, of the first program.\<close>

primrec bind_prog :: "'a tool_prog \<Rightarrow> (tool_error + 'a \<Rightarrow> 'b tool_prog) \<Rightarrow> 'b tool_prog" where
  "bind_prog (Return r) f = f r"
| "bind_prog (CallReadFile p k) f = CallReadFile p (\<lambda>r. bind_prog (k r) f)"
| "bind_prog (CallWriteFile p c k) f = CallWriteFile p c (\<lambda>r. bind_prog (k r) f)"
| "bind_prog (CallFetchUrl u k) f = CallFetchUrl u (\<lambda>r. bind_prog (k r) f)"
| "bind_prog (CallSessionLoad s k) f = CallSessionLoad s (\<lambda>r. bind_prog (k r) f)"
| "bind_prog (CallSessionSave s bs k) f = CallSessionSave s bs (\<lambda>r. bind_prog (k r) f)"
| "bind_prog (CallInvokeTool p c j k) f = CallInvokeTool p c j (\<lambda>r. bind_prog (k r) f)"
| "bind_prog (EmitAudit evs p) f = EmitAudit evs (bind_prog p f)"
| "bind_prog (ToolPanics m) f = ToolPanics m"
| "bind_prog StepBound f = StepBound"

text \<open>The \<open>?\<close> operator inside a tool.\<close>

definition try_prog :: "'a tool_prog \<Rightarrow> ('a \<Rightarrow> 'b tool_prog) \<Rightarrow> 'b tool_prog" where
  "try_prog p f = bind_prog p (\<lambda>r. case r of Err e \<Rightarrow> Return (Err e) | Ok x \<Rightarrow> f x)"

lemma bind_prog_assoc: "bind_prog (bind_prog p f) g = bind_prog p (\<lambda>r. bind_prog (f r) g)"
  by (induction p) auto

lemma bind_prog_Return: "bind_prog p Return = p"
  by (induction p) auto

section \<open>Registrations\<close>

record tool_registration =
  reg_spec :: tool_spec
  registered_at :: nat

definition tool_registration_new :: "nat \<Rightarrow> tool_spec \<Rightarrow> tool_error + tool_registration" where
  "tool_registration_new now spec =
     (if tool_name spec = [] then Err InvalidSpec
      else Ok \<lparr>reg_spec = spec, registered_at = now\<rparr>)"

text \<open>What a tool sees of its invocation (the accessors of \<open>ToolContext\<close>).\<close>

record tool_context =
  cx_tool_path :: string
  cx_registration :: tool_registration
  cx_effective_capabilities :: capabilities
  cx_workspace_root :: canonical_root

record ('i, 'o) tool_impl =
  impl_spec :: tool_spec
  impl_parse_input :: "json \<Rightarrow> input_error + 'i"
  impl_execute :: "tool_context \<Rightarrow> 'i \<Rightarrow> 'o tool_prog"
  impl_into_outcome :: "'o \<Rightarrow> tool_outcome"

section \<open>The adapter\<close>

definition record_span_result :: "string option \<Rightarrow> audit_event list" where
  "record_span_result r =
     (case r of
        None \<Rightarrow> [SpanRecord ''result'' (FStr ''ok''), SpanRecord ''otel.status_code'' (FStr ''ok'')]
      | Some err \<Rightarrow>
          [SpanRecord ''result'' (FStr ''error''),
           SpanRecord ''otel.status_code'' (FStr ''error''),
           SpanRecord ''otel.status_description'' (FStr err),
           SpanRecord ''error'' (FStr err)])"

text \<open>The spans of the host: a list of one entry, or none for a host without spans.\<close>

record host_spans =
  host_parse_input_span :: "string \<Rightarrow> audit_event list"
  host_execution_span :: "string \<Rightarrow> audit_event list"

definition no_spans :: host_spans where
  "no_spans = \<lparr>host_parse_input_span = (\<lambda>_. []), host_execution_span = (\<lambda>_. [])\<rparr>"

definition leave :: "audit_event list \<Rightarrow> audit_event list" where
  "leave enter = map (\<lambda>_. SpanExit) enter"

definition adapter_invoke ::
  "host_spans \<Rightarrow> ('i, 'o) tool_impl \<Rightarrow> tool_context \<Rightarrow> json \<Rightarrow> tool_outcome tool_prog" where
  "adapter_invoke spans inner ctx payload =
     (let name = tool_name (reg_spec (cx_registration ctx));
          parse = host_parse_input_span spans name;
          exe = host_execution_span spans name
      in EmitAudit parse
          (case impl_parse_input inner payload of
             Err error \<Rightarrow>
               EmitAudit (record_span_result (Some (debug_input_error error)) @ leave parse)
                 (Return (Err (InvalidInput error)))
           | Ok input \<Rightarrow>
               EmitAudit (record_span_result None @ leave parse @ exe)
                 (bind_prog (impl_execute inner ctx input)
                   (\<lambda>r. case r of
                      Ok output \<Rightarrow>
                        EmitAudit (record_span_result None @ leave exe)
                          (Return (Ok (impl_into_outcome inner output)))
                    | Err error \<Rightarrow>
                        EmitAudit (record_span_result (Some (debug_tool_error error)) @ leave exe)
                          (Return (Err error))))))"

text \<open>The status fields of OpenTelemetry never reach a span: the result recorders set
  \<open>otel.status_code\<close> (and \<open>otel.status_description\<close> on errors), but none of the four spans
  declares these fields, and a field that a span did not declare cannot be recorded on it.\<close>

lemma otel_status_never_declared:
  "SpanRecord ''otel.status_code'' (FStr ''ok'') \<in> set (record_span_result None)
   \<and> SpanRecord ''otel.status_description'' (FStr err) \<in> set (record_span_result (Some err))
   \<and> (\<exists>v. SpanRecord ''otel.status_code'' v \<in> set (record_grant r))
   \<and> set (declared_fields (tool_invocation_span p n)) \<inter> {''otel.status_code'', ''otel.status_description''} = {}
   \<and> set (declared_fields (tool_parse_input_span n)) \<inter> {''otel.status_code'', ''otel.status_description''} = {}
   \<and> set (declared_fields (tool_execution_span n)) \<inter> {''otel.status_code'', ''otel.status_description''} = {}
   \<and> set (declared_fields (action_grant_span n)) \<inter> {''otel.status_code'', ''otel.status_description''} = {}"
  by (auto simp: record_span_result_def record_grant_def tool_invocation_span_def
      tool_parse_input_span_def tool_execution_span_def action_grant_span_def Let_def split_beta
      split: grant_decision.split option.split)

section \<open>Registered tools\<close>

record registered_tool =
  tool_registration_of :: tool_registration
  tool_adapter :: "tool_context \<Rightarrow> json \<Rightarrow> tool_outcome tool_prog"

definition registered_tool_from_tool ::
  "host_spans \<Rightarrow> nat \<Rightarrow> ('i, 'o) tool_impl \<Rightarrow> tool_error + registered_tool" where
  "registered_tool_from_tool spans now tool =
     and_then (tool_registration_new now (impl_spec tool))
       (\<lambda>r. Ok \<lparr>tool_registration_of = r, tool_adapter = adapter_invoke spans tool\<rparr>)"

definition registered_tool_invoke ::
  "registered_tool \<Rightarrow> tool_context \<Rightarrow> json \<Rightarrow> tool_outcome tool_prog" where
  "registered_tool_invoke t ctx payload = tool_adapter t ctx payload"

section \<open>Programs without panics\<close>

text \<open>The tool's own code does not panic, whatever its calls return; likewise for the bound.\<close>

primrec panic_free :: "'a tool_prog \<Rightarrow> bool" where
  "panic_free (Return r) = True"
| "panic_free (CallReadFile p k) = (\<forall>r. panic_free (k r))"
| "panic_free (CallWriteFile p c k) = (\<forall>r. panic_free (k r))"
| "panic_free (CallFetchUrl u k) = (\<forall>r. panic_free (k r))"
| "panic_free (CallSessionLoad s k) = (\<forall>r. panic_free (k r))"
| "panic_free (CallSessionSave s bs k) = (\<forall>r. panic_free (k r))"
| "panic_free (CallInvokeTool p c j k) = (\<forall>r. panic_free (k r))"
| "panic_free (EmitAudit evs p) = panic_free p"
| "panic_free (ToolPanics m) = False"
| "panic_free StepBound = True"

lemma panic_free_bind:
  "panic_free p \<Longrightarrow> (\<And>r. panic_free (f r)) \<Longrightarrow> panic_free (bind_prog p f)"
  by (induction p) auto

lemma panic_free_try:
  "panic_free p \<Longrightarrow> (\<And>x. panic_free (f x)) \<Longrightarrow> panic_free (try_prog p f)"
  unfolding try_prog_def by (rule panic_free_bind) (auto split: sum.splits)

lemma panic_free_adapter:
  assumes "\<And>input. panic_free (impl_execute inner ctx input)"
  shows "panic_free (adapter_invoke spans inner ctx payload)"
  using assms
  by (auto simp: adapter_invoke_def Let_def split: sum.splits intro!: panic_free_bind)

end
