(* ===== verification/Kernel_Policy.thy ===== *)
theory Kernel_Policy
  imports Core_Policy
begin

text \<open>
  \<open>crates/kernel/src/policy\<close>: the policy registry, the built-in policies, the wrapper that
  lets a typed policy stand where any action is accepted, and the pipeline that decides an
  action: inbound policies may only deny, then the policies of the action's type and the
  outbound policies give the first answer that is not an abstention, and without any the
  action is denied.

  The registry keeps typed policies in a map from Rust types to deques. Here a typed policy
  is boxed behind a downcast (\<open>box_policy\<close>) and the map is keyed by \<open>action_type\<close>; since the
  pipeline only looks under the type of the action, the downcast of a registered policy
  succeeds (\<open>boxed_policy_applies\<close>).
\<close>

section \<open>Downcasts\<close>

fun as_fs_action :: "action \<Rightarrow> fs_action option" where
  "as_fs_action (ActFs a) = Some a" | "as_fs_action _ = None"

fun as_fs_read :: "action \<Rightarrow> fs_read_action option" where
  "as_fs_read (ActFsRead a) = Some a" | "as_fs_read _ = None"

fun as_fs_write :: "action \<Rightarrow> fs_write_action option" where
  "as_fs_write (ActFsWrite a) = Some a" | "as_fs_write _ = None"

fun as_network_fetch :: "action \<Rightarrow> network_fetch_action option" where
  "as_network_fetch (ActNetworkFetch a) = Some a" | "as_network_fetch _ = None"

fun as_session_load :: "action \<Rightarrow> monty_session_load_action option" where
  "as_session_load (ActSessionLoad a) = Some a" | "as_session_load _ = None"

fun as_session_save :: "action \<Rightarrow> monty_session_save_action option" where
  "as_session_save (ActSessionSave a) = Some a" | "as_session_save _ = None"

section \<open>Boxed policies\<close>

definition box_policy :: "(action \<Rightarrow> 'a option) \<Rightarrow> 'a policy \<Rightarrow> policy_any" where
  "box_policy downcast p =
     \<lparr>any_name = pol_name p,
      any_grant = (\<lambda>ctx a. case downcast a of
                      Some x \<Rightarrow> pol_grant p ctx x
                    | None \<Rightarrow> policy_grant_abstain None)\<rparr>"

lemma boxed_policy_applies [simp]:
  "downcast a = Some x \<Longrightarrow> any_grant (box_policy downcast p) ctx a = pol_grant p ctx x"
  by (simp add: box_policy_def)

text \<open>\<open>PolicyAnyWrapper\<close>: a typed policy as a global one abstains from other actions.\<close>

definition policy_any_wrapper ::
  "(action \<Rightarrow> 'a option) \<Rightarrow> string \<Rightarrow> 'a policy \<Rightarrow> policy_any" where
  "policy_any_wrapper downcast type_name inner =
     \<lparr>any_name = pol_name inner,
      any_grant = (\<lambda>ctx a. case downcast a of
                      Some x \<Rightarrow> pol_grant inner ctx x
                    | None \<Rightarrow>
                        with_predicate
                          (policy_grant_abstain (Some ''policy does not apply to this action type''))
                          (''action downcasts to policy action type: '' @ type_name))\<rparr>"

section \<open>Built-in policies\<close>

definition envelope_predicate :: "policy_context \<Rightarrow> action \<Rightarrow> string" where
  "envelope_predicate ctx a =
     ''effective_capabilities contains action_capabilities: '' @ dec_u64 (ctx_capabilities ctx)
     @ '' contains '' @ dec_u64 (action_capabilities a)"

definition capability_envelope_grant :: "policy_context \<Rightarrow> action \<Rightarrow> policy_grant" where
  "capability_envelope_grant ctx a =
     (if caps_contains (ctx_capabilities ctx) (action_capabilities a) then
        with_predicate
          (policy_grant_abstain (Some ''action is within declared capability envelope''))
          (envelope_predicate ctx a)
      else
        with_predicate
          (policy_grant_deny (Some ''action exceeds declared capability envelope''))
          (envelope_predicate ctx a))"

definition CapabilityEnvelopePolicy :: policy_any where
  "CapabilityEnvelopePolicy =
     \<lparr>any_name = ''policy.capability_envelope'', any_grant = capability_envelope_grant\<rparr>"

definition AllowAllPolicy :: policy_any where
  "AllowAllPolicy =
     \<lparr>any_name = ''policy.default_allow'',
      any_grant = (\<lambda>ctx a. with_predicate
        (policy_grant_allow (Some ''default allow policy granted action'')) ''default allow'')\<rparr>"

lemma decision_capability_envelope:
  "decision (capability_envelope_grant ctx a) =
     (if caps_contains (ctx_capabilities ctx) (action_capabilities a) then Abstain else Deny)"
  by (simp add: capability_envelope_grant_def)

section \<open>The registry\<close>

record registered_policy =
  reg_id :: policy_id
  reg_inner :: policy_any

record policy_registry =
  next_policy_id :: policy_id
  policy_entries :: "action_type \<Rightarrow> registered_policy list option"
  global_policies_inbound :: "registered_policy list"
  global_policies_outbound :: "registered_policy list"

definition registry_new :: policy_registry where
  "registry_new =
     \<lparr>next_policy_id = 1, policy_entries = (\<lambda>_. None),
      global_policies_inbound = [], global_policies_outbound = []\<rparr>"

definition action_policies :: "policy_registry \<Rightarrow> action_type \<Rightarrow> registered_policy list option" where
  "action_policies reg T = policy_entries reg T"

definition inbound_policies :: "policy_registry \<Rightarrow> registered_policy list" where
  "inbound_policies reg = global_policies_inbound reg"

definition outbound_policies :: "policy_registry \<Rightarrow> registered_policy list" where
  "outbound_policies reg = global_policies_outbound reg"

definition allocate_policy_id :: "policy_registry \<Rightarrow> policy_id \<times> policy_registry" where
  "allocate_policy_id reg = (next_policy_id reg, reg\<lparr>next_policy_id := next_policy_id reg + 1\<rparr>)"

definition registered_action_policy ::
  "policy_registry \<Rightarrow> policy_any \<Rightarrow> registered_policy \<times> policy_registry" where
  "registered_action_policy reg p =
     (let (i, reg') = allocate_policy_id reg in (\<lparr>reg_id = i, reg_inner = p\<rparr>, reg'))"

definition get_or_default :: "policy_registry \<Rightarrow> action_type \<Rightarrow> registered_policy list" where
  "get_or_default reg T = (case policy_entries reg T of Some ps \<Rightarrow> ps | None \<Rightarrow> [])"

definition prepend_action :: "action_type \<Rightarrow> policy_any \<Rightarrow> policy_registry \<Rightarrow> policy_registry" where
  "prepend_action T p reg =
     (let (r, reg') = registered_action_policy reg p
      in reg'\<lparr>policy_entries := (policy_entries reg')(T \<mapsto> r # get_or_default reg' T)\<rparr>)"

definition append_action :: "action_type \<Rightarrow> policy_any \<Rightarrow> policy_registry \<Rightarrow> policy_registry" where
  "append_action T p reg =
     (let (r, reg') = registered_action_policy reg p
      in reg'\<lparr>policy_entries := (policy_entries reg')(T \<mapsto> get_or_default reg' T @ [r])\<rparr>)"

definition prepend_inbound :: "policy_any \<Rightarrow> policy_registry \<Rightarrow> policy_registry" where
  "prepend_inbound p reg =
     (let (i, reg') = allocate_policy_id reg
      in reg'\<lparr>global_policies_inbound :=
                \<lparr>reg_id = i, reg_inner = p\<rparr> # global_policies_inbound reg'\<rparr>)"

definition append_inbound :: "policy_any \<Rightarrow> policy_registry \<Rightarrow> policy_registry" where
  "append_inbound p reg =
     (let (i, reg') = allocate_policy_id reg
      in reg'\<lparr>global_policies_inbound :=
                global_policies_inbound reg' @ [\<lparr>reg_id = i, reg_inner = p\<rparr>]\<rparr>)"

definition prepend_outbound :: "policy_any \<Rightarrow> policy_registry \<Rightarrow> policy_registry" where
  "prepend_outbound p reg =
     (let (i, reg') = allocate_policy_id reg
      in reg'\<lparr>global_policies_outbound :=
                \<lparr>reg_id = i, reg_inner = p\<rparr> # global_policies_outbound reg'\<rparr>)"

definition append_outbound :: "policy_any \<Rightarrow> policy_registry \<Rightarrow> policy_registry" where
  "append_outbound p reg =
     (let (i, reg') = allocate_policy_id reg
      in reg'\<lparr>global_policies_outbound :=
                global_policies_outbound reg' @ [\<lparr>reg_id = i, reg_inner = p\<rparr>]\<rparr>)"

lemmas registry_op_defs =
  prepend_action_def append_action_def prepend_inbound_def append_inbound_def
  prepend_outbound_def append_outbound_def registered_action_policy_def allocate_policy_id_def
  get_or_default_def

section \<open>The pipeline\<close>

record policy_pipeline =
  registry :: policy_registry

definition pipeline_new :: policy_pipeline where
  "pipeline_new = \<lparr>registry = registry_new\<rparr>"

text \<open>One policy evaluation: the grant, its audit event and its entry in the report.\<close>

definition evaluate ::
  "policy_context \<Rightarrow> action \<Rightarrow> string \<Rightarrow> registered_policy \<Rightarrow> policy_evaluation \<times> audit_event" where
  "evaluate ctx a stage p =
     (let g = any_grant (reg_inner p) ctx a
      in (policy_evaluation_new (any_name (reg_inner p)) (reg_id p) stage g,
          record_policy_grant (audit_kind a) (audit_resource_of a) (any_name (reg_inner p))
            (reg_id p) stage g))"

text \<open>The loop over the inbound policies: only a denial ends it early.\<close>

fun inbound_loop ::
  "policy_context \<Rightarrow> action \<Rightarrow> registered_policy list \<Rightarrow> policy_evaluation list \<Rightarrow> audit_event list
   \<Rightarrow> policy_report option \<times> policy_evaluation list \<times> audit_event list" where
  "inbound_loop ctx a [] evals evs = (None, evals, evs)"
| "inbound_loop ctx a (p # ps) evals evs =
     (let (ev, au) = evaluate ctx a ''inbound'' p;
          (d, r) = into_decision_and_reason (eval_grant ev);
          evals' = evals @ [ev];
          evs' = evs @ [au]
      in case d of
           Deny \<Rightarrow>
             (Some (report_deny_from_policy evals' (any_name (reg_inner p)) (reg_id p) r), evals', evs')
         | _ \<Rightarrow> inbound_loop ctx a ps evals' evs')"

text \<open>The loops over the policies of the action's type and over the outbound policies: the
  first answer that is not an abstention ends them.\<close>

fun stage_loop ::
  "policy_context \<Rightarrow> action \<Rightarrow> string \<Rightarrow> registered_policy list \<Rightarrow> policy_evaluation list
   \<Rightarrow> audit_event list \<Rightarrow> policy_report option \<times> policy_evaluation list \<times> audit_event list" where
  "stage_loop ctx a stage [] evals evs = (None, evals, evs)"
| "stage_loop ctx a stage (p # ps) evals evs =
     (let (ev, au) = evaluate ctx a stage p;
          (d, r) = into_decision_and_reason (eval_grant ev);
          evals' = evals @ [ev];
          evs' = evs @ [au]
      in case d of
           Allow \<Rightarrow>
             (Some (report_allow evals' (any_name (reg_inner p)) (reg_id p) r), evals', evs')
         | Deny \<Rightarrow>
             (Some (report_deny_from_policy evals' (any_name (reg_inner p)) (reg_id p) r), evals', evs')
         | Abstain \<Rightarrow> stage_loop ctx a stage ps evals' evs')"

definition pipeline_decide :: "policy_pipeline \<Rightarrow> engine_decide" where
  "pipeline_decide pl ctx a =
     (case inbound_loop ctx a (inbound_policies (registry pl)) [] [] of
        (Some report, _, evs) \<Rightarrow> (report, evs)
      | (None, evals, evs) \<Rightarrow>
          (case (case action_policies (registry pl) (action_type_of a) of
                   Some entries \<Rightarrow> stage_loop ctx a ''action'' entries evals evs
                 | None \<Rightarrow> (None, evals, evs)) of
             (Some report, _, evs) \<Rightarrow> (report, evs)
           | (None, evals, evs) \<Rightarrow>
               (case stage_loop ctx a ''outbound'' (outbound_policies (registry pl)) evals evs of
                  (Some report, _, evs) \<Rightarrow> (report, evs)
                | (None, evals, evs) \<Rightarrow>
                    (report_deny_without_match evals (Some ''No matching policy.''), evs))))"

text \<open>The pipeline's \<open>grant\<close>: the core grant path inside the span of the action, followed by
  the final audit record of an allowed action or of a denial that has a record.\<close>

definition pipeline_grant ::
  "policy_pipeline \<Rightarrow> ('a \<Rightarrow> action) \<Rightarrow> policy_context \<Rightarrow> 'a \<Rightarrow> world
   \<Rightarrow> (authorization_error + 'a granted) \<times> world" where
  "pipeline_grant pl dyn ctx a w =
     (let w1 = emit [action_grant_span (audit_kind (dyn a))] w;
          (result, w2) = grant_with_engine (pipeline_decide pl) dyn ctx a w1;
          w3 = (case result of
                  Ok g \<Rightarrow> emit (record_grant (granted_record g)) w2
                | Err e \<Rightarrow> (case deny_record e of
                              Some r \<Rightarrow> emit (record_grant r) w2
                            | None \<Rightarrow> w2))
      in (result, emit [SpanExit] w3))"

definition pipeline_prepend :: "action_type \<Rightarrow> policy_any \<Rightarrow> policy_pipeline \<Rightarrow> policy_pipeline" where
  "pipeline_prepend T p pl = pl\<lparr>registry := prepend_action T p (registry pl)\<rparr>"

definition pipeline_append :: "action_type \<Rightarrow> policy_any \<Rightarrow> policy_pipeline \<Rightarrow> policy_pipeline" where
  "pipeline_append T p pl = pl\<lparr>registry := append_action T p (registry pl)\<rparr>"

definition pipeline_prepend_inbound :: "policy_any \<Rightarrow> policy_pipeline \<Rightarrow> policy_pipeline" where
  "pipeline_prepend_inbound p pl = pl\<lparr>registry := prepend_inbound p (registry pl)\<rparr>"

definition pipeline_append_inbound :: "policy_any \<Rightarrow> policy_pipeline \<Rightarrow> policy_pipeline" where
  "pipeline_append_inbound p pl = pl\<lparr>registry := append_inbound p (registry pl)\<rparr>"

definition pipeline_prepend_outbound :: "policy_any \<Rightarrow> policy_pipeline \<Rightarrow> policy_pipeline" where
  "pipeline_prepend_outbound p pl = pl\<lparr>registry := prepend_outbound p (registry pl)\<rparr>"

definition pipeline_append_outbound :: "policy_any \<Rightarrow> policy_pipeline \<Rightarrow> policy_pipeline" where
  "pipeline_append_outbound p pl = pl\<lparr>registry := append_outbound p (registry pl)\<rparr>"

lemmas pipeline_op_defs =
  pipeline_prepend_def pipeline_append_def pipeline_prepend_inbound_def
  pipeline_append_inbound_def pipeline_prepend_outbound_def pipeline_append_outbound_def

end
