(* ===== verification/Access_Fs.thy ===== *)
theory Access_Fs
  imports Kernel_Policy
begin

text \<open>
  \<open>crates/access-fs\<close>: canonical path types and the resolution of user paths under a
  workspace root (\<open>action.rs\<close>), the resource policies (\<open>policy.rs\<close>), the backend over the
  standard library (\<open>backend.rs\<close>) and the facade \<open>FsAccess\<close> (\<open>access.rs\<close>), which resolves
  a path, asks for a grant of the parent action and of the read or write action, and hands
  the granted action to the backend.
\<close>

section \<open>Canonical paths\<close>

definition from_canonical :: "string \<Rightarrow> canonical_path" where
  "from_canonical p = \<lparr>cpath = p\<rparr>"

definition canonical_path_existing ::
  "file_system \<Rightarrow> string \<Rightarrow> authorization_error + canonical_path" where
  "canonical_path_existing fsys p =
     (case map_err AuthIo (fs_canonicalize fsys p) of
        Err e \<Rightarrow> Err e
      | Ok canonical \<Rightarrow> Ok (from_canonical canonical))"

definition canonical_path_existing_or_parent ::
  "file_system \<Rightarrow> string \<Rightarrow> authorization_error + canonical_path" where
  "canonical_path_existing_or_parent fsys p =
     (if fs_exists fsys p then canonical_path_existing fsys p
      else
        and_then (ok_or (Denied (authorization_deny_new ''write target must include a file name''))
                   (path_file_name p))
          (\<lambda>file_name.
        and_then (ok_or (Denied (authorization_deny_new
                          ''write target must have an authorized parent directory''))
                   (path_parent p))
          (\<lambda>parent.
        and_then (map_err AuthIo (fs_canonicalize fsys parent))
          (\<lambda>canonical_parent.
        Ok (from_canonical (path_join canonical_parent file_name))))))"

definition canonical_root_existing ::
  "file_system \<Rightarrow> string \<Rightarrow> authorization_error + canonical_root" where
  "canonical_root_existing fsys p =
     and_then (canonical_path_existing fsys p) (\<lambda>c. Ok \<lparr>root_path = c\<rparr>)"

definition root_as_path :: "canonical_root \<Rightarrow> string" where
  "root_as_path root = cpath (root_path root)"

definition root_contains :: "canonical_root \<Rightarrow> canonical_path \<Rightarrow> bool" where
  "root_contains root p = path_starts_with (cpath p) (root_as_path root)"

definition canonical_prefix_existing ::
  "file_system \<Rightarrow> string \<Rightarrow> authorization_error + canonical_prefix" where
  "canonical_prefix_existing fsys p =
     and_then (canonical_path_existing fsys p) (\<lambda>c. Ok \<lparr>prefix_path = c\<rparr>)"

definition prefix_as_path :: "canonical_prefix \<Rightarrow> string" where
  "prefix_as_path pre = cpath (prefix_path pre)"

definition prefix_contains :: "canonical_prefix \<Rightarrow> canonical_path \<Rightarrow> bool" where
  "prefix_contains pre p = path_starts_with (cpath p) (prefix_as_path pre)"

section \<open>Resolution under a root\<close>

definition candidate_path :: "string \<Rightarrow> string \<Rightarrow> string" where
  "candidate_path root p = (if is_absolute p then p else path_join root p)"

definition ensure_under_root ::
  "canonical_root \<Rightarrow> canonical_path \<Rightarrow> authorization_error + unit" where
  "ensure_under_root root candidate =
     (if root_contains root candidate then Ok () else Err OutsideWorkspace)"

definition resolve_under_authorization ::
  "file_system \<Rightarrow> canonical_root \<Rightarrow> string \<Rightarrow> authorization_error + canonical_path" where
  "resolve_under_authorization fsys root p =
     (let requested = candidate_path (root_as_path root) p
      in and_then (canonical_path_existing fsys requested)
           (\<lambda>canonical. and_then (ensure_under_root root canonical) (\<lambda>_. Ok canonical)))"

definition resolve_write_under_authorization ::
  "file_system \<Rightarrow> canonical_root \<Rightarrow> string \<Rightarrow> authorization_error + canonical_path" where
  "resolve_write_under_authorization fsys root p =
     (let requested = candidate_path (root_as_path root) p
      in and_then (canonical_path_existing_or_parent fsys requested)
           (\<lambda>canonical. and_then (ensure_under_root root canonical) (\<lambda>_. Ok canonical)))"

section \<open>Action constructors\<close>

definition fs_action_new :: "canonical_path \<Rightarrow> fs_action" where
  "fs_action_new p = \<lparr>fs_path = p\<rparr>"

definition fs_read_action_new :: "fs_action granted \<Rightarrow> fs_read_action" where
  "fs_read_action_new parent = \<lparr>read_path = fs_path (into_action parent)\<rparr>"

definition fs_write_action_new :: "fs_action granted \<Rightarrow> string \<Rightarrow> fs_write_action" where
  "fs_write_action_new parent content =
     \<lparr>write_path = fs_path (into_action parent), write_content = content\<rparr>"

section \<open>Resource policies\<close>

text \<open>The common form of their answers: allow or the fallback, with the predicate text.\<close>

definition starts_with_predicate :: "string \<Rightarrow> string \<Rightarrow> string \<Rightarrow> string" where
  "starts_with_predicate what p base =
     ''path starts_with '' @ what @ '': '' @ p @ '' starts_with '' @ base"

definition equals_predicate :: "string \<Rightarrow> string \<Rightarrow> string" where
  "equals_predicate p allowed = ''path == allowed: '' @ p @ '' == '' @ allowed"

definition AllowWorkspaceFsPolicy :: "fs_action policy" where
  "AllowWorkspaceFsPolicy =
     \<lparr>pol_name = ''fs.allow_path'',
      pol_grant = (\<lambda>ctx a.
        let p = cpath (fs_path a);
            pr = starts_with_predicate ''workspace_root'' p (ctx_workspace_root ctx)
        in if path_starts_with p (ctx_workspace_root ctx)
           then with_predicate (policy_grant_allow (Some ''filesystem path is under workspace root'')) pr
           else with_predicate (policy_grant_deny (Some ''filesystem path is outside workspace root'')) pr)\<rparr>"

definition AllowExactFileReadPolicy :: "canonical_path \<Rightarrow> fs_read_action policy" where
  "AllowExactFileReadPolicy allowed =
     \<lparr>pol_name = ''fs.allow_exact_file_read'',
      pol_grant = (\<lambda>ctx a.
        let p = cpath (read_path a); pr = equals_predicate p (cpath allowed)
        in if path_eq p (cpath allowed)
           then with_predicate (policy_grant_allow (Some ''read path matches exact allowed file'')) pr
           else with_predicate
                  (policy_grant_abstain (Some ''read path does not match exact allowed file'')) pr)\<rparr>"

definition allow_exact_file_read_new :: "file_system \<Rightarrow> string \<Rightarrow> fs_read_action policy exec" where
  "allow_exact_file_read_new fsys p =
     (case canonical_path_existing fsys p of
        Ok c \<Rightarrow> Done (AllowExactFileReadPolicy c)
      | Err e \<Rightarrow> Panicked (''read policy path must exist: '' @ debug_authorization_error e))"

definition AllowFileReadPrefixPolicy :: "canonical_prefix \<Rightarrow> fs_read_action policy" where
  "AllowFileReadPrefixPolicy pre =
     \<lparr>pol_name = ''fs.allow_file_read_prefix'',
      pol_grant = (\<lambda>ctx a.
        let pr = starts_with_predicate ''prefix'' (cpath (read_path a)) (prefix_as_path pre)
        in if prefix_contains pre (read_path a)
           then with_predicate (policy_grant_allow (Some ''read path is under allowed prefix'')) pr
           else with_predicate
                  (policy_grant_abstain (Some ''read path is outside allowed prefix'')) pr)\<rparr>"

definition allow_file_read_prefix_new :: "file_system \<Rightarrow> string \<Rightarrow> fs_read_action policy exec" where
  "allow_file_read_prefix_new fsys p =
     (case canonical_prefix_existing fsys p of
        Ok c \<Rightarrow> Done (AllowFileReadPrefixPolicy c)
      | Err e \<Rightarrow> Panicked (''read prefix must exist: '' @ debug_authorization_error e))"

definition AllowWorkspaceReadPolicy :: "fs_read_action policy" where
  "AllowWorkspaceReadPolicy =
     \<lparr>pol_name = ''fs.allow_workspace_read'',
      pol_grant = (\<lambda>ctx a.
        let p = cpath (read_path a);
            pr = starts_with_predicate ''workspace_root'' p (ctx_workspace_root ctx)
        in if path_starts_with p (ctx_workspace_root ctx)
           then with_predicate (policy_grant_allow (Some ''read path is under workspace root'')) pr
           else with_predicate
                  (policy_grant_abstain (Some ''read path is outside workspace root'')) pr)\<rparr>"

definition AllowExactFileWritePolicy :: "canonical_path \<Rightarrow> fs_write_action policy" where
  "AllowExactFileWritePolicy allowed =
     \<lparr>pol_name = ''fs.allow_exact_file_write'',
      pol_grant = (\<lambda>ctx a.
        let p = cpath (write_path a); pr = equals_predicate p (cpath allowed)
        in if path_eq p (cpath allowed)
           then with_predicate (policy_grant_allow (Some ''write path matches exact allowed file'')) pr
           else with_predicate
                  (policy_grant_abstain (Some ''write path does not match exact allowed file'')) pr)\<rparr>"

definition allow_exact_file_write_new :: "file_system \<Rightarrow> string \<Rightarrow> fs_write_action policy exec" where
  "allow_exact_file_write_new fsys p =
     (case canonical_path_existing_or_parent fsys p of
        Ok c \<Rightarrow> Done (AllowExactFileWritePolicy c)
      | Err e \<Rightarrow> Panicked (''write policy path parent must exist: '' @ debug_authorization_error e))"

definition AllowFileWritePrefixPolicy :: "canonical_prefix \<Rightarrow> fs_write_action policy" where
  "AllowFileWritePrefixPolicy pre =
     \<lparr>pol_name = ''fs.allow_file_write_prefix'',
      pol_grant = (\<lambda>ctx a.
        let pr = starts_with_predicate ''prefix'' (cpath (write_path a)) (prefix_as_path pre)
        in if prefix_contains pre (write_path a)
           then with_predicate (policy_grant_allow (Some ''write path is under allowed prefix'')) pr
           else with_predicate
                  (policy_grant_abstain (Some ''write path is outside allowed prefix'')) pr)\<rparr>"

definition allow_file_write_prefix_new :: "file_system \<Rightarrow> string \<Rightarrow> fs_write_action policy exec" where
  "allow_file_write_prefix_new fsys p =
     (case canonical_prefix_existing fsys p of
        Ok c \<Rightarrow> Done (AllowFileWritePrefixPolicy c)
      | Err e \<Rightarrow> Panicked (''write prefix must exist: '' @ debug_authorization_error e))"

definition AllowWorkspaceWritePolicy :: "fs_write_action policy" where
  "AllowWorkspaceWritePolicy =
     \<lparr>pol_name = ''fs.allow_workspace_write'',
      pol_grant = (\<lambda>ctx a.
        let p = cpath (write_path a);
            pr = starts_with_predicate ''workspace_root'' p (ctx_workspace_root ctx)
        in if path_starts_with p (ctx_workspace_root ctx)
           then with_predicate (policy_grant_allow (Some ''write path is under workspace root'')) pr
           else with_predicate
                  (policy_grant_abstain (Some ''write path is outside workspace root'')) pr)\<rparr>"

section \<open>The backend\<close>

definition read_canonical :: "file_system \<Rightarrow> canonical_path \<Rightarrow> capability_error + string" where
  "read_canonical fsys p = map_err CapIo (fs_read_to_string fsys (cpath p))"

definition write_canonical ::
  "file_system \<Rightarrow> canonical_path \<Rightarrow> string \<Rightarrow> (capability_error + unit) \<times> file_system" where
  "write_canonical fsys p content =
     (let (r, fsys') = fs_write fsys (cpath p) content in (map_err CapIo r, fsys'))"

definition std_fs_read_file ::
  "fs_read_action granted \<Rightarrow> world \<Rightarrow> (execution_error + string) \<times> world" where
  "std_fs_read_file granted w =
     (let a = into_action granted
      in (map_err ExecCapability (read_canonical (fs w) (read_path a)), w))"

definition std_fs_write_file ::
  "fs_write_action granted \<Rightarrow> world \<Rightarrow> (execution_error + unit) \<times> world" where
  "std_fs_write_file granted w =
     (let a = into_action granted;
          (r, fsys') = write_canonical (fs w) (write_path a) (write_content a)
      in (map_err ExecCapability r, w\<lparr>fs := fsys'\<rparr>))"

section \<open>The facade\<close>

record fs_access =
  access_workspace_root :: canonical_root
  access_policy_context :: policy_context

definition fs_access_new :: "world \<Rightarrow> string \<Rightarrow> policy_context \<Rightarrow> fs_access exec" where
  "fs_access_new w workspace_root ctx =
     (case canonical_root_existing (fs w) workspace_root of
        Ok root \<Rightarrow> Done \<lparr>access_workspace_root = root, access_policy_context = ctx\<rparr>
      | Err e \<Rightarrow>
          Panicked (''tool context workspace root is canonical: '' @ debug_authorization_error e))"

definition fs_access_read_file ::
  "policy_pipeline \<Rightarrow> fs_access \<Rightarrow> string \<Rightarrow> world \<Rightarrow> (execution_error + string) \<times> world" where
  "fs_access_read_file pl acc p w =
     (let ctx = access_policy_context acc
      in case map_err ExecAuthorization
                (resolve_under_authorization (fs w) (access_workspace_root acc) p) of
           Err e \<Rightarrow> (Err e, w)
         | Ok canonical \<Rightarrow>
             (case pipeline_grant pl ActFs ctx (fs_action_new canonical) w of
                (Err e, w1) \<Rightarrow> (Err (ExecAuthorization e), w1)
              | (Ok parent, w1) \<Rightarrow>
                  (case pipeline_grant pl ActFsRead ctx (fs_read_action_new parent) w1 of
                     (Err e, w2) \<Rightarrow> (Err (ExecAuthorization e), w2)
                   | (Ok granted, w2) \<Rightarrow> std_fs_read_file granted w2)))"

definition fs_access_write_file ::
  "policy_pipeline \<Rightarrow> fs_access \<Rightarrow> string \<Rightarrow> string \<Rightarrow> world \<Rightarrow> (execution_error + unit) \<times> world" where
  "fs_access_write_file pl acc p content w =
     (let ctx = access_policy_context acc
      in case map_err ExecAuthorization
                (resolve_write_under_authorization (fs w) (access_workspace_root acc) p) of
           Err e \<Rightarrow> (Err e, w)
         | Ok canonical \<Rightarrow>
             (case pipeline_grant pl ActFs ctx (fs_action_new canonical) w of
                (Err e, w1) \<Rightarrow> (Err (ExecAuthorization e), w1)
              | (Ok parent, w1) \<Rightarrow>
                  (case pipeline_grant pl ActFsWrite ctx (fs_write_action_new parent content) w1 of
                     (Err e, w2) \<Rightarrow> (Err (ExecAuthorization e), w2)
                   | (Ok granted, w2) \<Rightarrow> std_fs_write_file granted w2)))"

end
