(* ===== verification/Kernel_Policy_Laws.thy ===== *)
theory Kernel_Policy_Laws
  imports Kernel_Policy
begin

text \<open>
  What the pipeline promises: its decision is the first-match reading of the registered
  policies (\<open>specified_outcome\<close>), its report and its DEBUG audit events list exactly the
  policies that were asked, registrations change one deque at one end and keep identifiers
  distinct, and a pipeline with the capability envelope among its inbound policies is a
  gated engine.
\<close>

section \<open>The reference reading of a pipeline\<close>

definition answer :: "policy_context \<Rightarrow> action \<Rightarrow> registered_policy \<Rightarrow> policy_decision" where
  "answer ctx a p = decision (any_grant (reg_inner p) ctx a)"

definition verdict :: "policy_context \<Rightarrow> action \<Rightarrow> registered_policy \<Rightarrow> policy_outcome" where
  "verdict ctx a p =
     (let g = any_grant (reg_inner p) ctx a
      in if decision g = Allow then OutcomeAllow (any_name (reg_inner p)) (reg_id p) (reason g)
         else OutcomeDeny (SourcePolicy (any_name (reg_inner p)) (reg_id p)) (reason g))"

definition typed_policies :: "policy_pipeline \<Rightarrow> action \<Rightarrow> registered_policy list" where
  "typed_policies pl a = get_or_default (registry pl) (action_type_of a)"

definition specified_outcome :: "policy_pipeline \<Rightarrow> policy_context \<Rightarrow> action \<Rightarrow> policy_outcome" where
  "specified_outcome pl ctx a =
     (case find (\<lambda>p. answer ctx a p = Deny) (inbound_policies (registry pl)) of
        Some p \<Rightarrow> verdict ctx a p
      | None \<Rightarrow>
          (case find (\<lambda>p. answer ctx a p \<noteq> Abstain)
                  (typed_policies pl a @ outbound_policies (registry pl)) of
             Some p \<Rightarrow> verdict ctx a p
           | None \<Rightarrow> OutcomeDeny NoMatchingPolicy (Some ''No matching policy.'')))"

text \<open>The elements up to and including the first that satisfies a predicate.\<close>

fun until :: "('a \<Rightarrow> bool) \<Rightarrow> 'a list \<Rightarrow> 'a list" where
  "until P [] = []"
| "until P (x # xs) = (if P x then [x] else x # until P xs)"

lemma until_none: "find P xs = None \<Longrightarrow> until P xs = xs"
  by (induction xs) (auto split: if_splits)

lemma find_append:
  "find P (xs @ ys) = (case find P xs of Some x \<Rightarrow> Some x | None \<Rightarrow> find P ys)"
  by (induction xs) auto

lemma find_map: "find P (map f xs) = map_option f (find (\<lambda>x. P (f x)) xs)"
  by (induction xs) auto

lemma until_map: "until P (map f xs) = map f (until (\<lambda>x. P (f x)) xs)"
  by (induction xs) auto

lemma until_append:
  "until P (xs @ ys) = (case find P xs of Some _ \<Rightarrow> until P xs | None \<Rightarrow> xs @ until P ys)"
  by (induction xs) (auto split: option.splits)

text \<open>The policies a decision asks, each with its stage.\<close>

definition asked_policies ::
  "policy_pipeline \<Rightarrow> policy_context \<Rightarrow> action \<Rightarrow> (string \<times> registered_policy) list" where
  "asked_policies pl ctx a =
     (let inb = inbound_policies (registry pl);
          later = map (Pair ''action'') (typed_policies pl a)
                  @ map (Pair ''outbound'') (outbound_policies (registry pl))
      in map (Pair ''inbound'') (until (\<lambda>p. answer ctx a p = Deny) inb)
         @ (if find (\<lambda>p. answer ctx a p = Deny) inb = None
            then until (\<lambda>(stage, p). answer ctx a p \<noteq> Abstain) later else []))"

section \<open>The loops\<close>

lemma evaluate_simps [simp]:
  "eval_grant (fst (evaluate ctx a stage p)) = any_grant (reg_inner p) ctx a"
  by (simp add: evaluate_def Let_def policy_evaluation_new_def)

lemma inbound_loop_eq:
  "inbound_loop ctx a ps evals evs =
     (let es = map (evaluate ctx a ''inbound'') (until (\<lambda>p. answer ctx a p = Deny) ps);
          evals' = evals @ map fst es
      in (map_option (\<lambda>p. \<lparr>evaluations = evals', report_outcome = verdict ctx a p\<rparr>)
            (find (\<lambda>p. answer ctx a p = Deny) ps),
          evals', evs @ map snd es))"
proof (induction ps arbitrary: evals evs)
  case (Cons p ps)
  show ?case
  proof (cases "answer ctx a p")
    case Deny
    then show ?thesis
      by (simp add: Let_def split_beta into_decision_and_reason_def answer_def verdict_def
          report_deny_from_policy_def)
  qed (use Cons in \<open>simp_all add: Let_def split_beta into_decision_and_reason_def answer_def\<close>)
qed (simp add: Let_def)

lemma stage_loop_eq:
  "stage_loop ctx a stage ps evals evs =
     (let es = map (evaluate ctx a stage) (until (\<lambda>p. answer ctx a p \<noteq> Abstain) ps);
          evals' = evals @ map fst es
      in (map_option (\<lambda>p. \<lparr>evaluations = evals', report_outcome = verdict ctx a p\<rparr>)
            (find (\<lambda>p. answer ctx a p \<noteq> Abstain) ps),
          evals', evs @ map snd es))"
proof (induction ps arbitrary: evals evs)
  case (Cons p ps)
  show ?case
  proof (cases "answer ctx a p")
    case Abstain
    with Cons show ?thesis
      by (simp add: Let_def split_beta into_decision_and_reason_def answer_def)
  qed (simp_all add: Let_def split_beta into_decision_and_reason_def answer_def verdict_def
      report_allow_def report_deny_from_policy_def)
qed (simp add: Let_def)

lemma typed_loop_eq:
  "(case action_policies (registry pl) (action_type_of a) of
      Some entries \<Rightarrow> stage_loop ctx a ''action'' entries evals evs
    | None \<Rightarrow> (None, evals, evs))
   = stage_loop ctx a ''action'' (typed_policies pl a) evals evs"
  by (simp add: typed_policies_def get_or_default_def action_policies_def split: option.split)

text \<open>The whole decision in one equation.\<close>

lemma pipeline_decide_eq:
  "pipeline_decide pl ctx a =
     (let es = map (\<lambda>(stage, p). evaluate ctx a stage p) (asked_policies pl ctx a)
      in (\<lparr>evaluations = map fst es, report_outcome = specified_outcome pl ctx a\<rparr>, map snd es))"
proof (cases "find (\<lambda>p. answer ctx a p = Deny) (inbound_policies (registry pl))")
  case (Some p)
  then show ?thesis
    by (simp add: pipeline_decide_def inbound_loop_eq asked_policies_def specified_outcome_def
        Let_def o_def)
next
  case inb: None
  show ?thesis
  proof (cases "find (\<lambda>p. answer ctx a p \<noteq> Abstain) (typed_policies pl a)")
    case (Some p)
    with inb show ?thesis
      by (simp add: pipeline_decide_def inbound_loop_eq typed_loop_eq stage_loop_eq
          asked_policies_def specified_outcome_def find_append until_append until_map
          Let_def o_def find_map until_none)
  next
    case None
    with inb show ?thesis
      by (simp add: pipeline_decide_def inbound_loop_eq typed_loop_eq stage_loop_eq
          asked_policies_def specified_outcome_def find_append until_append until_map
          Let_def o_def find_map until_none report_deny_without_match_def
          split: option.split)
  qed
qed

text \<open>C5: the pipeline decides by first match: the first inbound policy that denies settles the
  action; else the first answer that is not an abstention, among the policies of the
  action's own type and then the outbound ones, settles it; else it is denied with "No
  matching policy."\<close>

theorem pipeline_decides_by_first_match:
  "report_outcome (fst (pipeline_decide pl ctx a)) = specified_outcome pl ctx a"
  by (simp add: pipeline_decide_eq Let_def)

text \<open>C6: the report of a decision and the DEBUG audit events emitted while deciding list the
  same evaluations: exactly the policies that were asked, in order, each with its stage,
  its identifier and its answer; no policy after the deciding one is asked.\<close>

theorem pipeline_audit_mirrors_report:
  "evaluations (fst (pipeline_decide pl ctx a)) =
     map (\<lambda>(stage, p). policy_evaluation_new (any_name (reg_inner p)) (reg_id p) stage
            (any_grant (reg_inner p) ctx a)) (asked_policies pl ctx a)
   \<and> snd (pipeline_decide pl ctx a) =
     map (\<lambda>ev. record_policy_grant (audit_kind a) (audit_resource_of a) (policy_name ev)
            (eval_policy_id ev) (policy_stage ev) (eval_grant ev))
       (evaluations (fst (pipeline_decide pl ctx a)))"
  by (simp add: pipeline_decide_eq Let_def evaluate_def policy_evaluation_new_def o_def split_beta)

section \<open>Registrations\<close>

text \<open>The six ways to register a policy, as data, and the deque each one changes.\<close>

datatype slot = Inbound | Outbound | Typed action_type

datatype registration =
    Prepend action_type policy_any
  | Append action_type policy_any
  | PrependInbound policy_any
  | AppendInbound policy_any
  | PrependOutbound policy_any
  | AppendOutbound policy_any

fun apply_registration :: "registration \<Rightarrow> policy_pipeline \<Rightarrow> policy_pipeline" where
  "apply_registration (Prepend T p) pl = pipeline_prepend T p pl"
| "apply_registration (Append T p) pl = pipeline_append T p pl"
| "apply_registration (PrependInbound p) pl = pipeline_prepend_inbound p pl"
| "apply_registration (AppendInbound p) pl = pipeline_append_inbound p pl"
| "apply_registration (PrependOutbound p) pl = pipeline_prepend_outbound p pl"
| "apply_registration (AppendOutbound p) pl = pipeline_append_outbound p pl"

fun registration_slot :: "registration \<Rightarrow> slot" where
  "registration_slot (Prepend T p) = Typed T"
| "registration_slot (Append T p) = Typed T"
| "registration_slot (PrependInbound p) = Inbound"
| "registration_slot (AppendInbound p) = Inbound"
| "registration_slot (PrependOutbound p) = Outbound"
| "registration_slot (AppendOutbound p) = Outbound"

fun registration_policy :: "registration \<Rightarrow> policy_any" where
  "registration_policy (Prepend T p) = p"
| "registration_policy (Append T p) = p"
| "registration_policy (PrependInbound p) = p"
| "registration_policy (AppendInbound p) = p"
| "registration_policy (PrependOutbound p) = p"
| "registration_policy (AppendOutbound p) = p"

fun at_front :: "registration \<Rightarrow> bool" where
  "at_front (Prepend T p) = True"
| "at_front (PrependInbound p) = True"
| "at_front (PrependOutbound p) = True"
| "at_front _ = False"

fun slot_entries :: "policy_pipeline \<Rightarrow> slot \<Rightarrow> registered_policy list" where
  "slot_entries pl Inbound = inbound_policies (registry pl)"
| "slot_entries pl Outbound = outbound_policies (registry pl)"
| "slot_entries pl (Typed T) = get_or_default (registry pl) T"

definition pipeline_next_id :: "policy_pipeline \<Rightarrow> policy_id" where
  "pipeline_next_id pl = next_policy_id (registry pl)"

definition registered :: "registration \<Rightarrow> policy_pipeline \<Rightarrow> registered_policy" where
  "registered op pl = \<lparr>reg_id = pipeline_next_id pl, reg_inner = registration_policy op\<rparr>"

lemma pipeline_next_id_apply [simp]:
  "pipeline_next_id (apply_registration op pl) = pipeline_next_id pl + 1"
  by (cases op)
    (simp_all add: pipeline_next_id_def pipeline_op_defs registry_op_defs Let_def)

lemma slot_effect:
  "slot_entries (apply_registration op pl) s =
     (if s = registration_slot op
      then (if at_front op then registered op pl # slot_entries pl s
            else slot_entries pl s @ [registered op pl])
      else slot_entries pl s)"
  by (cases op; cases s)
    (simp_all add: registered_def pipeline_next_id_def pipeline_op_defs registry_op_defs
      inbound_policies_def outbound_policies_def Let_def)

text \<open>A registration changes one deque, at the end it names, by the new policy under the
  next identifier, and leaves every other deque alone: a prepended policy is asked before
  and an appended one after those of the same deque.\<close>

theorem registration_effect:
  "slot_entries (apply_registration op pl) s =
     (if s = registration_slot op
      then (if at_front op then registered op pl # slot_entries pl s
            else slot_entries pl s @ [registered op pl])
      else slot_entries pl s)"
  by (rule slot_effect)

lemma set_slot_entries_apply:
  "r \<in> set (slot_entries (apply_registration op pl) s) \<longleftrightarrow>
     r \<in> set (slot_entries pl s) \<or> (s = registration_slot op \<and> r = registered op pl)"
  by (auto simp: slot_effect)

text \<open>All identifiers are below the next one, and no two registrations share one.\<close>

definition ids_wf :: "policy_pipeline \<Rightarrow> bool" where
  "ids_wf pl \<longleftrightarrow>
     (\<forall>s r. r \<in> set (slot_entries pl s) \<longrightarrow> unat (reg_id r) < unat (pipeline_next_id pl))
   \<and> (\<forall>s. distinct (map reg_id (slot_entries pl s)))
   \<and> (\<forall>s s' r r'. s \<noteq> s' \<longrightarrow> r \<in> set (slot_entries pl s) \<longrightarrow> r' \<in> set (slot_entries pl s') \<longrightarrow>
        reg_id r \<noteq> reg_id r')"

lemma slot_entries_new [simp]: "slot_entries pipeline_new s = []"
  by (cases s)
    (simp_all add: pipeline_new_def registry_new_def inbound_policies_def outbound_policies_def
      get_or_default_def)

lemma ids_wf_new: "ids_wf pipeline_new"
  by (simp add: ids_wf_def)

lemma unat_plus_one_u64: "unat (w :: u64) + 1 < 2 ^ 64 \<Longrightarrow> unat (w + 1) = unat w + 1"
  by (simp add: unat_word_ariths)

lemma ids_wf_apply:
  assumes wf: "ids_wf pl" and room: "unat (pipeline_next_id pl) + 1 < 2 ^ 64"
  shows "ids_wf (apply_registration op pl)"
proof -
  let ?new = "registered op pl"
  have next_id: "unat (pipeline_next_id (apply_registration op pl)) = unat (pipeline_next_id pl) + 1"
    using room by (simp add: unat_plus_one_u64)
  have below: "r \<in> set (slot_entries pl s) \<Longrightarrow> unat (reg_id r) < unat (pipeline_next_id pl)" for r s
    using wf by (simp add: ids_wf_def)
  have fresh: "r \<in> set (slot_entries pl s) \<Longrightarrow> reg_id r \<noteq> reg_id ?new" for r s
    using below [of r s] by (auto simp: registered_def)
  have "unat (reg_id r) < unat (pipeline_next_id (apply_registration op pl))"
    if "r \<in> set (slot_entries (apply_registration op pl) s)" for r s
    using that below [of r s] next_id by (auto simp: set_slot_entries_apply registered_def)
  moreover have "distinct (map reg_id (slot_entries (apply_registration op pl) s))" for s
    using wf fresh [of _ s] by (force simp: slot_effect ids_wf_def)
  moreover have "reg_id r \<noteq> reg_id r'"
    if "s \<noteq> s'" "r \<in> set (slot_entries (apply_registration op pl) s)"
      "r' \<in> set (slot_entries (apply_registration op pl) s')" for s s' r r'
    using that wf fresh [of r s] fresh [of r' s'] by (auto simp: set_slot_entries_apply ids_wf_def)
  ultimately show ?thesis unfolding ids_wf_def by blast
qed

lemma ids_wf_fold:
  "ids_wf pl \<Longrightarrow> unat (pipeline_next_id pl) + length ops < 2 ^ 64 \<Longrightarrow>
   ids_wf (fold apply_registration ops pl)"
proof (induction ops arbitrary: pl)
  case (Cons op ops)
  have "unat (pipeline_next_id (apply_registration op pl)) = unat (pipeline_next_id pl) + 1"
    using Cons.prems(2) by (simp add: unat_plus_one_u64)
  moreover have "ids_wf (apply_registration op pl)"
    using Cons.prems by (intro ids_wf_apply) simp_all
  ultimately show ?case using Cons by simp
qed simp

text \<open>C14: in a pipeline built from an empty one by fewer than 2^64 - 1 registrations of any kind,
  no two registered policies have the same identifier, so an identifier in a report or an
  audit event names one policy.\<close>

theorem policy_ids_unique:
  assumes "length ops < 2 ^ 64 - 1"
  shows "ids_wf (fold apply_registration ops pipeline_new)"
  using assms
  by (intro ids_wf_fold ids_wf_new) (simp add: pipeline_next_id_def pipeline_new_def registry_new_def)

theorem policy_ids_unique_witness:
  "ids_wf (fold apply_registration
     [AppendOutbound AllowAllPolicy, PrependInbound CapabilityEnvelopePolicy] pipeline_new)"
  by (rule policy_ids_unique) simp

section \<open>The capability gate\<close>

definition has_envelope :: "policy_pipeline \<Rightarrow> bool" where
  "has_envelope pl \<longleftrightarrow>
     (\<exists>r \<in> set (inbound_policies (registry pl)). any_grant (reg_inner r) = capability_envelope_grant)"

lemma has_envelope_apply: "has_envelope pl \<Longrightarrow> has_envelope (apply_registration op pl)"
  using set_slot_entries_apply [of _ op pl Inbound] by (auto simp: has_envelope_def)

lemma has_envelope_fold: "has_envelope pl \<Longrightarrow> has_envelope (fold apply_registration ops pl)"
  by (induction ops arbitrary: pl) (auto intro: has_envelope_apply)

lemma specified_allow_passes_inbound:
  assumes "specified_outcome pl ctx a = OutcomeAllow n i r"
    and "p \<in> set (inbound_policies (registry pl))"
  shows "answer ctx a p \<noteq> Deny"
proof (cases "find (\<lambda>p. answer ctx a p = Deny) (inbound_policies (registry pl))")
  case None
  then show ?thesis using assms(2) by (simp add: find_None_iff)
next
  case (Some q)
  then have "answer ctx a q = Deny" by (auto simp: find_Some_iff)
  with Some assms(1) show ?thesis
    by (simp add: specified_outcome_def verdict_def answer_def Let_def)
qed

interpretation kernel_gate: gated_engine pipeline_decide has_envelope
proof unfold_locales
  fix pl ctx a n i r
  assume env: "has_envelope pl"
    and allow: "report_outcome (fst (pipeline_decide pl ctx a)) = OutcomeAllow n i r"
  from env obtain p where p: "p \<in> set (inbound_policies (registry pl))"
    "any_grant (reg_inner p) = capability_envelope_grant"
    by (auto simp: has_envelope_def)
  have "specified_outcome pl ctx a = OutcomeAllow n i r"
    using allow by (simp add: pipeline_decide_eq Let_def)
  then have "answer ctx a p \<noteq> Deny" using p(1) by (rule specified_allow_passes_inbound)
  then show "caps_contains (ctx_capabilities ctx) (action_capabilities a)"
    by (simp add: answer_def p(2) decision_capability_envelope split: if_splits)
qed

section \<open>The pipeline's grant\<close>

lemma pipeline_grant_frame [frame]:
  "pipeline_grant pl dyn ctx a w = (r, w') \<Longrightarrow> fs w' = fs w \<and> sessions w' = sessions w"
  by (cases "grant_with_engine (pipeline_decide pl) dyn ctx a
        (emit [action_grant_span (audit_kind (dyn a))] w)")
    (auto simp: pipeline_grant_def Let_def split: sum.splits option.splits
      dest!: grant_with_engine_frame)

lemma pipeline_grant_result:
  "fst (pipeline_grant pl dyn ctx a w) =
     fst (grant_with_engine (pipeline_decide pl) dyn ctx a
       (emit [action_grant_span (audit_kind (dyn a))] w))"
  by (simp add: pipeline_grant_def Let_def split_beta)

lemma pipeline_grant_Ok:
  assumes "pipeline_grant pl dyn ctx a w = (Ok g, w')"
  obtains n i r where "specified_outcome pl ctx (dyn a) = OutcomeAllow n i r"
    and "granted_action g = a"
    and "granted_record g = grant_record_allow (GrantId (next_grant_id w)) (audit_kind (dyn a))
           (audit_resource_of (dyn a)) n i r"
proof -
  let ?w1 = "emit [action_grant_span (audit_kind (dyn a))] w"
  have "fst (grant_with_engine (pipeline_decide pl) dyn ctx a ?w1) = Ok g"
    using assms pipeline_grant_result [of pl dyn ctx a w] by simp
  then obtain w2 where "grant_with_engine (pipeline_decide pl) dyn ctx a ?w1 = (Ok g, w2)"
    by (metis prod.collapse)
  then show ?thesis
    by (rule grant_with_engine_Ok) (use that in \<open>auto simp: pipeline_decide_eq Let_def\<close>)
qed

lemma pipeline_grant_into_action:
  "pipeline_grant pl dyn ctx a w = (Ok g, w') \<Longrightarrow> into_action g = a"
  by (erule pipeline_grant_Ok) (simp add: into_action_def)

lemma pipeline_grant_gated:
  assumes "has_envelope pl" and "pipeline_grant pl dyn ctx a w = (Ok g, w')"
  shows "caps_contains (ctx_capabilities ctx) (action_capabilities (dyn a))"
proof -
  let ?w1 = "emit [action_grant_span (audit_kind (dyn a))] w"
  have "fst (grant_with_engine (pipeline_decide pl) dyn ctx a ?w1) = Ok g"
    using assms(2) pipeline_grant_result [of pl dyn ctx a w] by simp
  then obtain w2 where "grant_with_engine (pipeline_decide pl) dyn ctx a ?w1 = (Ok g, w2)"
    by (metis prod.collapse)
  from kernel_gate.granted_within_envelope [OF assms(1) this] pipeline_grant_into_action [OF assms(2)]
  show ?thesis by (simp add: into_action_def)
qed

lemma grant_with_engine_log:
  "\<exists>r. audit_log (snd (grant_with_engine decide dyn ctx a w)) = audit_log w @ snd (decide ctx (dyn a))
    \<and> (case fst (grant_with_engine decide dyn ctx a w) of
         Ok g \<Rightarrow> granted_record g = r \<and> rec_decision r = GrantAllow (GrantId (next_grant_id w))
       | Err e \<Rightarrow> deny_record e = Some r \<and> rec_decision r = GrantDeny)
    \<and> action_kind r = audit_kind (dyn a) \<and> resource r = audit_resource_of (dyn a)"
  by (auto simp: grant_with_engine_def fetch_grant_id_def granted_new_def grant_id_from_raw_def
      authorization_deny_from_record_def grant_record_defs Let_def
      split: prod.splits policy_outcome.splits grant_source.splits)

lemma pipeline_grant_log:
  "\<exists>r. audit_log (snd (pipeline_grant pl dyn ctx a w)) =
      audit_log w @ action_grant_span (audit_kind (dyn a)) # snd (pipeline_decide pl ctx (dyn a))
        @ record_grant r @ [SpanExit]
    \<and> (case fst (pipeline_grant pl dyn ctx a w) of
         Ok g \<Rightarrow> granted_record g = r \<and> rec_decision r = GrantAllow (GrantId (next_grant_id w))
           \<and> next_grant_id (snd (pipeline_grant pl dyn ctx a w)) = next_grant_id w + 1
       | Err e \<Rightarrow> deny_record e = Some r \<and> rec_decision r = GrantDeny
           \<and> next_grant_id (snd (pipeline_grant pl dyn ctx a w)) = next_grant_id w)
    \<and> action_kind r = audit_kind (dyn a) \<and> resource r = audit_resource_of (dyn a)"
proof -
  let ?w1 = "emit [action_grant_span (audit_kind (dyn a))] w"
  let ?gr = "grant_with_engine (pipeline_decide pl) dyn ctx a ?w1"
  obtain r where r: "audit_log (snd ?gr) = audit_log ?w1 @ snd (pipeline_decide pl ctx (dyn a))"
    "case fst ?gr of
       Ok g \<Rightarrow> granted_record g = r \<and> rec_decision r = GrantAllow (GrantId (next_grant_id ?w1))
     | Err e \<Rightarrow> deny_record e = Some r \<and> rec_decision r = GrantDeny"
    "action_kind r = audit_kind (dyn a)" "resource r = audit_resource_of (dyn a)"
    using grant_with_engine_log [of "pipeline_decide pl" dyn ctx a ?w1] by blast
  have ids: "case fst ?gr of Ok g \<Rightarrow> next_grant_id (snd ?gr) = next_grant_id w + 1
     | Err e \<Rightarrow> next_grant_id (snd ?gr) = next_grant_id w"
    by (cases ?gr; cases "fst ?gr") (auto elim!: grant_with_engine_Ok grant_with_engine_Err)
  from r ids show ?thesis
    by (intro exI [of _ r]) (auto simp: pipeline_grant_def Let_def split_beta split: sum.splits)
qed

text \<open>C22: every authorization leaves one complete trace: inside the span of the action, the DEBUG
  events of the policies asked, in order, and then exactly one final record, which agrees
  with the result (an allow record with the grant's own identifier, or the deny record that
  the error carries) and names the action's kind and resource.\<close>

theorem authorization_trace:
  "\<exists>r. audit_log (snd (pipeline_grant pl dyn ctx a w)) =
      audit_log w @ [action_grant_span (audit_kind (dyn a))] @ snd (pipeline_decide pl ctx (dyn a))
        @ record_grant r @ [SpanExit]
    \<and> (case fst (pipeline_grant pl dyn ctx a w) of
         Ok g \<Rightarrow> granted_record g = r \<and> granted_grant_id g = Done (GrantId (next_grant_id w))
       | Err e \<Rightarrow> deny_record e = Some r \<and> rec_decision r = GrantDeny)
    \<and> action_kind r = audit_kind (dyn a) \<and> resource r = audit_resource_of (dyn a)"
proof -
  let ?g = "pipeline_grant pl dyn ctx a w"
  obtain r where r: "audit_log (snd ?g) = audit_log w @ action_grant_span (audit_kind (dyn a))
      # snd (pipeline_decide pl ctx (dyn a)) @ record_grant r @ [SpanExit]"
    and result: "case fst ?g of
       Ok g \<Rightarrow> granted_record g = r \<and> rec_decision r = GrantAllow (GrantId (next_grant_id w))
         \<and> next_grant_id (snd ?g) = next_grant_id w + 1
     | Err e \<Rightarrow> deny_record e = Some r \<and> rec_decision r = GrantDeny
         \<and> next_grant_id (snd ?g) = next_grant_id w"
    and of_action: "action_kind r = audit_kind (dyn a)" "resource r = audit_resource_of (dyn a)"
    using pipeline_grant_log [of pl dyn ctx a w] by (elim exE conjE) (rule that; assumption)
  have "case fst ?g of
      Ok g \<Rightarrow> granted_record g = r \<and> granted_grant_id g = Done (GrantId (next_grant_id w))
    | Err e \<Rightarrow> deny_record e = Some r \<and> rec_decision r = GrantDeny"
    using result by (cases "fst ?g") (simp_all add: granted_grant_id_def grant_record_grant_id_def)
  with r of_action show ?thesis by (intro exI [of _ r]) simp
qed

lemma pipeline_grant_allow_iff:
  "(\<exists>g w'. pipeline_grant pl dyn ctx a w = (Ok g, w')) \<longleftrightarrow>
     (\<exists>n i r. specified_outcome pl ctx (dyn a) = OutcomeAllow n i r)"
proof
  assume "\<exists>g w'. pipeline_grant pl dyn ctx a w = (Ok g, w')"
  then show "\<exists>n i r. specified_outcome pl ctx (dyn a) = OutcomeAllow n i r"
    by (meson pipeline_grant_Ok)
next
  assume "\<exists>n i r. specified_outcome pl ctx (dyn a) = OutcomeAllow n i r"
  then obtain n i r where "specified_outcome pl ctx (dyn a) = OutcomeAllow n i r" by blast
  then have "is_ok (fst (pipeline_grant pl dyn ctx a w))"
    by (simp add: pipeline_grant_result grant_with_engine_def pipeline_decide_eq Let_def split_beta)
  then show "\<exists>g w'. pipeline_grant pl dyn ctx a w = (Ok g, w')"
    by (metis is_ok_iff prod.collapse)
qed

lemma pipeline_grant_allowed:
  "specified_outcome pl ctx (dyn a) = OutcomeAllow n i r \<Longrightarrow>
     \<exists>g w'. pipeline_grant pl dyn ctx a w = (Ok g, w')"
  by (subst pipeline_grant_allow_iff) blast

text \<open>C4: with the capability envelope among the inbound policies, in any position and whatever
  other policies are registered (an allow-all policy included), an action that is granted
  needs no capability outside the effective ones of its context.\<close>

theorem granted_actions_stay_in_envelope:
  assumes "has_envelope pl" and "pipeline_grant pl dyn ctx a w = (Ok g, w')"
  shows "caps_contains (ctx_capabilities ctx) (action_capabilities (dyn (into_action g)))"
  using pipeline_grant_gated [OF assms] pipeline_grant_into_action [OF assms(2)] by simp

theorem granted_actions_stay_in_envelope_witness:
  "\<exists>g w'. pipeline_grant
       (fold apply_registration [AppendOutbound AllowAllPolicy, PrependInbound CapabilityEnvelopePolicy]
         pipeline_new)
       ActNetworkFetch \<lparr>ctx_capabilities = caps_of_capability NetworkFetch, ctx_workspace_root = ''/''\<rparr>
       \<lparr>fetch_url = ''https://example.test/''\<rparr> (initial_world (plain_fs [])) = (Ok g, w')
     \<and> caps_contains (caps_of_capability NetworkFetch)
         (action_capabilities (ActNetworkFetch (into_action g)))"
proof -
  let ?pl = "fold apply_registration
    [AppendOutbound AllowAllPolicy, PrependInbound CapabilityEnvelopePolicy] pipeline_new"
  let ?ctx = "\<lparr>ctx_capabilities = caps_of_capability NetworkFetch, ctx_workspace_root = ''/''\<rparr>"
  have entries: "inbound_policies (registry ?pl) = [\<lparr>reg_id = 2, reg_inner = CapabilityEnvelopePolicy\<rparr>]"
    "outbound_policies (registry ?pl) = [\<lparr>reg_id = 1, reg_inner = AllowAllPolicy\<rparr>]"
    "typed_policies ?pl (ActNetworkFetch u) = []" for u
    by (simp_all add: pipeline_op_defs registry_op_defs pipeline_new_def registry_new_def
        inbound_policies_def outbound_policies_def typed_policies_def Let_def)
  have env: "has_envelope ?pl"
    unfolding has_envelope_def entries by (simp add: CapabilityEnvelopePolicy_def)
  have "specified_outcome ?pl ?ctx (ActNetworkFetch \<lparr>fetch_url = ''https://example.test/''\<rparr>)
      = OutcomeAllow ''policy.default_allow'' 1 (Some ''default allow policy granted action'')"
    unfolding specified_outcome_def entries
    by (simp add: answer_def verdict_def CapabilityEnvelopePolicy_def AllowAllPolicy_def
        decision_capability_envelope network_fetch_capabilities_def)
  then obtain g w' where g: "pipeline_grant ?pl ActNetworkFetch ?ctx
      \<lparr>fetch_url = ''https://example.test/''\<rparr> (initial_world (plain_fs [])) = (Ok g, w')"
    using pipeline_grant_allowed [where dyn = ActNetworkFetch] by blast
  with granted_actions_stay_in_envelope [OF env g] show ?thesis by auto
qed

end
