(* ===== verification/Access_Fs_Laws.thy ===== *)
theory Access_Fs_Laws
  imports Access_Fs Kernel_Policy_Laws
begin

text \<open>
  Laws of the filesystem access crate: containment of canonical paths (one contract for
  roots and prefixes), what a resolved path is, which files the facade can read or change,
  the contract between facade and backend, and the decisions of the resource policies.
\<close>

section \<open>Containment\<close>

text \<open>The contract that roots and prefixes share: they contain the paths that start with them.\<close>

locale containment =
  fixes contains :: "'r \<Rightarrow> canonical_path \<Rightarrow> bool"
    and as_path :: "'r \<Rightarrow> string"
  assumes contains_iff: "contains r p \<longleftrightarrow> path_starts_with (cpath p) (as_path r)"
begin

lemma contains_self: "cpath p = as_path r \<Longrightarrow> contains r p"
  by (simp add: contains_iff)

lemma contains_nested:
  "path_starts_with (as_path r) (as_path r') \<Longrightarrow> contains r p \<Longrightarrow> contains r' p"
  unfolding contains_iff by (rule path_starts_with_trans)

lemma contains_names:
  assumes "as_path r = path_of_names rs" and "cpath p = path_of_names ns"
    and "\<forall>n \<in> set rs. good_name n" and "\<forall>n \<in> set ns. good_name n"
  shows "contains r p \<longleftrightarrow> prefix rs ns"
  using assms by (simp add: contains_iff path_starts_with_names)

end

interpretation root: containment root_contains root_as_path
  by unfold_locales (simp add: root_contains_def)

interpretation pre: containment prefix_contains prefix_as_path
  by unfold_locales (simp add: prefix_contains_def)

section \<open>Resolved paths\<close>

text \<open>A root that names the directory or file \<open>rs\<close> of a tree.\<close>

definition root_at :: "file_system \<Rightarrow> canonical_root \<Rightarrow> string list \<Rightarrow> bool" where
  "root_at fsys root rs \<longleftrightarrow>
     root_as_path root = path_of_names rs \<and> real_node (nodes fsys) rs \<and> (\<forall>n \<in> set rs. good_name n)"

lemma canonical_path_existing_Ok:
  assumes "fs_wf fsys" and "canonical_path_existing fsys p = Ok c"
  obtains ns where "cpath c = path_of_names ns" and "real_node (nodes fsys) ns"
    and "\<forall>n \<in> set ns. good_name n" and "fs_resolve False fsys p = Ok ns"
proof -
  have "fs_canonicalize fsys p = Ok (cpath c)"
    using assms(2) by (auto simp: canonical_path_existing_def from_canonical_def split: sum.splits)
  from fs_canonicalize_Ok [OF assms(1) this] show ?thesis using that by metis
qed

lemma canonical_root_existing_at:
  assumes "fs_wf fsys" and "canonical_root_existing fsys p = Ok root"
  obtains rs where "root_at fsys root rs"
proof -
  have c: "canonical_path_existing fsys p = Ok (root_path root)"
    using assms(2) by (auto simp: canonical_root_existing_def and_then_eq_Ok)
  show ?thesis
    by (rule canonical_path_existing_Ok [OF assms(1) c])
      (use that in \<open>auto simp: root_at_def root_as_path_def\<close>)
qed

lemma path_file_name_good: "path_file_name p = Some n \<Longrightarrow> good_name n"
proof -
  assume "path_file_name p = Some n"
  then have "Normal n \<in> set (components p)"
    by (auto simp: path_file_name_def split: list.splits path_component.splits)
  then obtain part where part: "part \<in> set (split_on (CHR ''/'') p)"
    and n: "Normal n \<in> set (component_of_part part)"
    by (auto simp: components_def Let_def split: if_splits)
  have "n = part" "part \<noteq> []" "part \<noteq> ''.''" "part \<noteq> ''..''"
    using n by (auto split: if_splits)
  with part show "good_name n"
    using split_on_parts_no_sep by (auto simp: good_name_def)
qed

lemma canonical_path_existing_or_parent_Ok:
  assumes wf: "fs_wf fsys" and res: "canonical_path_existing_or_parent fsys p = Ok c"
  obtains ns where "cpath c = path_of_names ns" and "\<forall>n \<in> set ns. good_name n"
    and "real_node (nodes fsys) ns \<or> (ns \<noteq> [] \<and> real_node (nodes fsys) (butlast ns))"
proof (cases "fs_exists fsys p")
  case True
  then have "canonical_path_existing fsys p = Ok c"
    using res by (simp add: canonical_path_existing_or_parent_def)
  then show ?thesis by (rule canonical_path_existing_Ok [OF wf]) (use that in auto)
next
  case False
  then obtain n par canon where n: "path_file_name p = Some n" and "path_parent p = Some par"
    and canon: "fs_canonicalize fsys par = Ok canon" and c: "c = from_canonical (path_join canon n)"
    using res by (auto simp: canonical_path_existing_or_parent_def and_then_eq_Ok)
  show ?thesis
  proof (rule fs_canonicalize_Ok [OF wf canon])
    fix ds assume ds: "canon = path_of_names ds" "real_node (nodes fsys) ds"
      "\<forall>n \<in> set ds. good_name n"
    show ?thesis
      by (rule that [of "ds @ [n]"])
        (use ds c path_join_name [OF path_file_name_good [OF n] ds(3)] path_file_name_good [OF n]
          in \<open>auto simp: from_canonical_def\<close>)
  qed
qed

text \<open>The exact result of resolving a path to be read: the candidate (the path itself when
  absolute, else joined to the root) is canonicalized, an I/O error is passed on, and the
  canonical path is returned only when it is under the root.\<close>

theorem resolve_under_authorization_cases:
  "resolve_under_authorization fsys root p =
     (case fs_canonicalize fsys (if is_absolute p then p else path_join (root_as_path root) p) of
        Err e \<Rightarrow> Err (AuthIo e)
      | Ok c \<Rightarrow> if path_starts_with c (root_as_path root) then Ok \<lparr>cpath = c\<rparr>
                else Err OutsideWorkspace)"
  by (simp add: resolve_under_authorization_def candidate_path_def canonical_path_existing_def
      ensure_under_root_def root_contains_def from_canonical_def Let_def split: sum.split)

lemma resolve_under_authorization_Ok:
  assumes "fs_wf fsys" and "root_at fsys root rs" and "resolve_under_authorization fsys root p = Ok c"
  obtains ns where "cpath c = path_of_names ns" and "real_node (nodes fsys) ns" and "prefix rs ns"
    and "\<forall>n \<in> set ns. good_name n"
proof -
  from assms(3) have ex: "canonical_path_existing fsys (candidate_path (root_as_path root) p) = Ok c"
    and under: "root_contains root c"
    by (auto simp: resolve_under_authorization_def and_then_eq_Ok ensure_under_root_def Let_def
        split: if_splits)
  show ?thesis
  proof (rule canonical_path_existing_Ok [OF assms(1) ex])
    fix ns assume ns: "cpath c = path_of_names ns" "real_node (nodes fsys) ns"
      "\<forall>n \<in> set ns. good_name n"
    have "prefix rs ns"
      using under root.contains_names [of root rs c ns] assms(2) ns by (simp add: root_at_def)
    with ns show ?thesis using that by blast
  qed
qed

lemma resolve_write_under_authorization_Ok:
  assumes "fs_wf fsys" and "root_at fsys root rs"
    and "resolve_write_under_authorization fsys root p = Ok c"
  obtains ns where "cpath c = path_of_names ns" and "\<forall>n \<in> set ns. good_name n" and "prefix rs ns"
    and "real_node (nodes fsys) ns \<or> (ns \<noteq> [] \<and> real_node (nodes fsys) (butlast ns))"
proof -
  from assms(3)
  have ex: "canonical_path_existing_or_parent fsys (candidate_path (root_as_path root) p) = Ok c"
    and under: "root_contains root c"
    by (auto simp: resolve_write_under_authorization_def and_then_eq_Ok ensure_under_root_def
        Let_def split: if_splits)
  show ?thesis
  proof (rule canonical_path_existing_or_parent_Ok [OF assms(1) ex])
    fix ns assume ns: "cpath c = path_of_names ns" "\<forall>n \<in> set ns. good_name n"
      "real_node (nodes fsys) ns \<or> (ns \<noteq> [] \<and> real_node (nodes fsys) (butlast ns))"
    have "prefix rs ns"
      using under root.contains_names [of root rs c ns] assms(2) ns(1,2) by (simp add: root_at_def)
    with ns show ?thesis using that by blast
  qed
qed

section \<open>What the facade reads\<close>

lemma fs_access_read_file_steps:
  assumes "fs_access_read_file pl acc p w = (Ok s, w')"
  obtains c g1 w1 g2 where
    "resolve_under_authorization (fs w) (access_workspace_root acc) p = Ok c"
    "pipeline_grant pl ActFs (access_policy_context acc) (fs_action_new c) w = (Ok g1, w1)"
    "pipeline_grant pl ActFsRead (access_policy_context acc) \<lparr>read_path = c\<rparr> w1 = (Ok g2, w')"
    "fs_read_to_string (fs w) (cpath c) = Ok s"
proof -
  from assms obtain c g1 w1 g2 where
    res: "resolve_under_authorization (fs w) (access_workspace_root acc) p = Ok c"
    and g1: "pipeline_grant pl ActFs (access_policy_context acc) (fs_action_new c) w = (Ok g1, w1)"
    and g2: "pipeline_grant pl ActFsRead (access_policy_context acc) (fs_read_action_new g1) w1
        = (Ok g2, w')"
    and stored: "std_fs_read_file g2 w' = (Ok s, w')"
    by (auto simp: fs_access_read_file_def std_fs_read_file_def Let_def
        split: sum.splits prod.splits)
  have act: "fs_read_action_new g1 = \<lparr>read_path = c\<rparr>"
    using pipeline_grant_into_action [OF g1] by (simp add: fs_read_action_new_def fs_action_new_def)
  have "into_action g2 = \<lparr>read_path = c\<rparr>"
    using pipeline_grant_into_action [OF g2] act by simp
  moreover have "fs w' = fs w"
    using pipeline_grant_frame [OF g1] pipeline_grant_frame [OF g2] by simp
  ultimately have "fs_read_to_string (fs w) (cpath c) = Ok s"
    using stored by (simp add: std_fs_read_file_def read_canonical_def Let_def)
  with res g1 g2 act show ?thesis using that by simp
qed

lemma fs_access_read_file_frame [frame]:
  "fs_access_read_file pl acc p w = (r, w') \<Longrightarrow> fs w' = fs w \<and> sessions w' = sessions w"
  by (auto simp: fs_access_read_file_def std_fs_read_file_def Let_def
      split: sum.splits prod.splits dest!: pipeline_grant_frame)

lemma fs_access_new_Done:
  assumes "fs_wf (fs w)" and "fs_access_new w r ctx = Done acc"
  obtains rs where "root_at (fs w) (access_workspace_root acc) rs"
    and "access_policy_context acc = ctx"
proof -
  from assms(2) have "canonical_root_existing (fs w) r = Ok (access_workspace_root acc)"
    and ctx: "access_policy_context acc = ctx"
    by (auto simp: fs_access_new_def split: sum.splits)
  from canonical_root_existing_at [OF assms(1) this(1)] show ?thesis using that ctx by metis
qed

lemma read_file_contained:
  assumes "fs_wf (fs w)" and "root_at (fs w) (access_workspace_root acc) rs" and "has_envelope pl"
    and "fs_access_read_file pl acc p w = (Ok s, w')"
  shows "(\<exists>ns. prefix rs ns \<and> nodes (fs w) ns = Some (RegularFile s))
       \<and> allows (ctx_capabilities (access_policy_context acc)) FsRead
       \<and> fs w' = fs w \<and> sessions w' = sessions w"
proof -
  from assms(4) show ?thesis
  proof (rule fs_access_read_file_steps)
    fix c g1 w1 g2
    assume res: "resolve_under_authorization (fs w) (access_workspace_root acc) p = Ok c"
      and g1: "pipeline_grant pl ActFs (access_policy_context acc) (fs_action_new c) w = (Ok g1, w1)"
      and g2: "pipeline_grant pl ActFsRead (access_policy_context acc) \<lparr>read_path = c\<rparr> w1 = (Ok g2, w')"
      and read: "fs_read_to_string (fs w) (cpath c) = Ok s"
    obtain ns where ns: "cpath c = path_of_names ns" "real_node (nodes (fs w)) ns" "prefix rs ns"
      using resolve_under_authorization_Ok [OF assms(1,2) res] by metis
    have "fs_resolve False (fs w) (cpath c) = Ok ns"
      using fs_resolve_names [of "fs w" ns] assms(1) ns by (simp add: fs_wf_def)
    then have "nodes (fs w) ns = Some (RegularFile s)"
      using read ns(2)
      by (auto simp: fs_read_to_string_def real_node_iff split: option.splits if_splits)
    moreover have "allows (ctx_capabilities (access_policy_context acc)) FsRead"
      using pipeline_grant_gated [OF assms(3) g2] by (simp add: allows_def fs_read_capabilities_def)
    ultimately show ?thesis
      using ns(3) fs_access_read_file_frame [OF assms(4)] by blast
  qed
qed

text \<open>C11: whatever a read through the facade returns is the whole content of a regular file
  under the canonical workspace root, however the path was written (absolute, with \<open>..\<close>,
  through links); the effective capabilities include \<open>FsRead\<close>; and nothing is changed but
  the grant counter and the audit log.\<close>

theorem read_file_only_under_root:
  assumes "fs_wf (fs w)" and "has_envelope pl" and "fs_access_new w r ctx = Done acc"
    and "fs_access_read_file pl acc p w = (Ok s, w')"
  shows "\<exists>rs ns. root_as_path (access_workspace_root acc) = path_of_names rs
       \<and> prefix rs ns \<and> nodes (fs w) ns = Some (RegularFile s)
       \<and> allows (ctx_capabilities ctx) FsRead
       \<and> fs w' = fs w \<and> sessions w' = sessions w"
proof -
  from fs_access_new_Done [OF assms(1,3)] obtain rs where
    "root_at (fs w) (access_workspace_root acc) rs" "access_policy_context acc = ctx" by metis
  with read_file_contained [OF assms(1) _ assms(2,4)] show ?thesis
    unfolding root_at_def by metis
qed

section \<open>What the facade writes\<close>

lemma fs_write_frame: "fs_write fsys p content = (Err e, fsys') \<Longrightarrow> fsys' = fsys"
  by (auto simp: fs_write_def split: option.splits sum.splits fs_node.splits)

lemma fs_access_write_file_sessions [frame]:
  "fs_access_write_file pl acc p content w = (r, w') \<Longrightarrow> sessions w' = sessions w"
  by (auto simp: fs_access_write_file_def std_fs_write_file_def Let_def
      split: sum.splits prod.splits dest!: pipeline_grant_frame)

text \<open>A write either leaves the file system alone, or both grants were given and the backend
  stored the content under the canonical path.\<close>

lemma fs_access_write_file_steps:
  assumes "fs_access_write_file pl acc p content w = (r, w')"
  obtains (unchanged) e where "r = Err e" and "fs w' = fs w"
  | (written) c g1 w1 g2 w2 where
      "resolve_write_under_authorization (fs w) (access_workspace_root acc) p = Ok c"
      "pipeline_grant pl ActFs (access_policy_context acc) (fs_action_new c) w = (Ok g1, w1)"
      "pipeline_grant pl ActFsWrite (access_policy_context acc)
         \<lparr>write_path = c, write_content = content\<rparr> w1 = (Ok g2, w2)"
      "r = Ok ()" and "fs_write (fs w) (cpath c) content = (Ok (), fs w')"
proof (cases r)
  case (Inl e)
  have "fs w' = fs w"
    using assms Inl
    by (auto simp: fs_access_write_file_def std_fs_write_file_def write_canonical_def Let_def
        split: sum.splits prod.splits dest!: pipeline_grant_frame fs_write_frame)
  with Inl show ?thesis by (rule unchanged)
next
  case (Inr u)
  from assms Inr obtain c g1 w1 g2 w2 where
    res: "resolve_write_under_authorization (fs w) (access_workspace_root acc) p = Ok c"
    and g1: "pipeline_grant pl ActFs (access_policy_context acc) (fs_action_new c) w = (Ok g1, w1)"
    and g2: "pipeline_grant pl ActFsWrite (access_policy_context acc)
        (fs_write_action_new g1 content) w1 = (Ok g2, w2)"
    and stored: "std_fs_write_file g2 w2 = (Ok (), w')"
    by (auto simp: fs_access_write_file_def Let_def split: sum.splits prod.splits)
  have act: "fs_write_action_new g1 content = \<lparr>write_path = c, write_content = content\<rparr>"
    using pipeline_grant_into_action [OF g1] by (simp add: fs_write_action_new_def fs_action_new_def)
  have "into_action g2 = \<lparr>write_path = c, write_content = content\<rparr>"
    using pipeline_grant_into_action [OF g2] act by simp
  moreover have "fs w2 = fs w"
    using pipeline_grant_frame [OF g1] pipeline_grant_frame [OF g2] by simp
  ultimately have "fs_write (fs w) (cpath c) content = (Ok (), fs w')"
    using stored by (auto simp: std_fs_write_file_def write_canonical_def Let_def split: prod.splits)
  then show ?thesis using written res g1 g2 act Inr by simp
qed

text \<open>The effect of a write on the tree: none, or one write to a canonical path under the root,
  and only with \<open>FsWrite\<close>.\<close>

definition write_effect ::
  "capabilities \<Rightarrow> string list \<Rightarrow> file_system \<Rightarrow> file_system \<Rightarrow> bool" where
  "write_effect caps rs fsys fsys' \<longleftrightarrow>
     fsys' = fsys
   \<or> (allows caps FsWrite
      \<and> (\<exists>ns content. prefix rs ns \<and> (\<forall>n \<in> set ns. good_name n)
           \<and> fs_write fsys (path_of_names ns) content = (Ok (), fsys')))"

lemma write_file_effect:
  assumes wf: "fs_wf (fs w)" and root: "root_at (fs w) (access_workspace_root acc) rs"
    and env: "has_envelope pl" and wr: "fs_access_write_file pl acc p content w = (r, w')"
  shows "write_effect (ctx_capabilities (access_policy_context acc)) rs (fs w) (fs w')"
  using wr
proof (cases rule: fs_access_write_file_steps)
  case unchanged
  then show ?thesis by (simp add: write_effect_def)
next
  case (written c g1 w1 g2 w2)
  obtain ns where ns: "cpath c = path_of_names ns" "\<forall>n \<in> set ns. good_name n" "prefix rs ns"
    using resolve_write_under_authorization_Ok [OF wf root written(1)] by metis
  have caps: "allows (ctx_capabilities (access_policy_context acc)) FsWrite"
    using pipeline_grant_gated [OF env written(3)] by (simp add: allows_def fs_write_capabilities_def)
  show ?thesis
    using ns caps written(5) unfolding write_effect_def by metis
qed

lemma write_file_wf:
  assumes "fs_wf (fs w)" and "fs_access_write_file pl acc p content w = (r, w')"
  shows "fs_wf (fs w') \<and> same_shape (fs w) (fs w')"
  using assms(2)
proof (cases rule: fs_access_write_file_steps)
  case unchanged
  with assms(1) show ?thesis by simp
next
  case written
  with assms(1) show ?thesis using fs_write_wf fs_write_same_shape by blast
qed

text \<open>A write effect keeps every node outside the root, and the links under it contained.\<close>

lemma write_effect_outside:
  assumes "fs_wf fsys" and "write_effect caps rs fsys fsys'" and "links_contained fsys rs"
    and "\<not> prefix rs ms"
  shows "nodes fsys' ms = nodes fsys ms"
proof (cases "fsys' = fsys")
  case False
  then obtain ns content where ns: "prefix rs ns" "\<forall>n \<in> set ns. good_name n"
    and wr: "fs_write fsys (path_of_names ns) content = (Ok (), fsys')"
    using assms(2) by (auto simp: write_effect_def)
  show ?thesis
    using assms(1) wr
  proof (cases rule: fs_write_cases)
    case (stored place)
    with assms(3,4) ns show ?thesis by (auto simp: links_contained_def)
  qed simp
qed simp

lemma write_effect_links:
  "fs_wf fsys \<Longrightarrow> write_effect caps rs fsys fsys' \<Longrightarrow> links_contained fsys rs \<Longrightarrow>
   links_contained fsys' rs"
  by (auto simp: write_effect_def intro: links_contained_write)

lemma write_effect_needs_FsWrite:
  "write_effect caps rs fsys fsys' \<Longrightarrow> \<not> allows caps FsWrite \<Longrightarrow> fsys' = fsys"
  by (auto simp: write_effect_def)

text \<open>A write through the facade changes nothing outside the canonical workspace root, whatever
  path the caller gives (absolute, with \<open>..\<close>, through links), as long as the links under the
  root lead nowhere else; and it changes nothing at all without the capability \<open>FsWrite\<close>.\<close>

theorem write_file_only_under_root:
  assumes "fs_wf (fs w)" and "has_envelope pl" and "fs_access_new w r ctx = Done acc"
    and "root_as_path (access_workspace_root acc) = path_of_names rs"
    and "\<forall>n \<in> set rs. good_name n" and "links_contained (fs w) rs"
    and "fs_access_write_file pl acc p content w = (res, w')"
  shows "(\<not> prefix rs ms \<longrightarrow> nodes (fs w') ms = nodes (fs w) ms)
       \<and> (\<not> allows (ctx_capabilities ctx) FsWrite \<longrightarrow> fs w' = fs w)
       \<and> sessions w' = sessions w"
proof -
  from fs_access_new_Done [OF assms(1,3)] obtain rs' where
    at: "root_at (fs w) (access_workspace_root acc) rs'" and ctx: "access_policy_context acc = ctx"
    by metis
  have "rs' = rs"
    using at assms(4,5) path_of_names_inj by (auto simp: root_at_def)
  with write_file_effect [OF assms(1) at assms(2,7)] ctx
  have eff: "write_effect (ctx_capabilities ctx) rs (fs w) (fs w')" by simp
  show ?thesis
    using write_effect_outside [OF assms(1) eff assms(6)] write_effect_needs_FsWrite [OF eff]
      fs_access_write_file_sessions [OF assms(7)] by blast
qed

section \<open>A workspace with the workspace policies\<close>

text \<open>The registrations of an application that confines its tools to the workspace.\<close>

definition workspace_pipeline :: policy_pipeline where
  "workspace_pipeline = fold apply_registration
     [PrependInbound CapabilityEnvelopePolicy,
      Append TFsAction (box_policy as_fs_action AllowWorkspaceFsPolicy),
      Append TFsReadAction (box_policy as_fs_read AllowWorkspaceReadPolicy),
      Append TFsWriteAction (box_policy as_fs_write AllowWorkspaceWritePolicy)] pipeline_new"

lemma workspace_pipeline_envelope: "has_envelope workspace_pipeline"
  unfolding workspace_pipeline_def fold_simps(2)
  by (intro has_envelope_fold)
    (simp add: has_envelope_def pipeline_op_defs registry_op_defs inbound_policies_def Let_def
      CapabilityEnvelopePolicy_def)

definition workspace_context :: "capability list \<Rightarrow> policy_context" where
  "workspace_context cs =
     \<lparr>ctx_capabilities = caps_from_slice cs, ctx_workspace_root = ''/ws''\<rparr>"

text \<open>A workspace \<open>/ws\<close> with one file, beside a file \<open>/etc/passwd\<close>.\<close>

definition sample_fs :: file_system where
  "sample_fs = plain_fs
     [([''ws''], Directory), ([''etc''], Directory),
      ([''ws'', ''hello.txt''], RegularFile ''hello''),
      ([''etc'', ''passwd''], RegularFile ''root'')]"

lemma sample_fs_wf: "fs_wf sample_fs"
  unfolding sample_fs_def by (rule plain_fs_wf) code_simp

lemma sample_fs_links: "links_contained sample_fs [''ws'']"
proof (rule links_contained_no_links [OF sample_fs_wf])
  show "real_node (nodes sample_fs) [''ws'']" by code_simp
  show "nodes sample_fs ns \<noteq> Some (Symlink target)" for ns target
    by (simp add: sample_fs_def tree_of_def)
qed

definition ws_access :: "capability list \<Rightarrow> fs_access" where
  "ws_access cs =
     \<lparr>access_workspace_root = \<lparr>root_path = \<lparr>cpath = ''/ws''\<rparr>\<rparr>,
      access_policy_context = workspace_context cs\<rparr>"

lemma sample_fs_access_new:
  "fs_access_new (initial_world sample_fs) ''/ws/.'' (workspace_context cs) = Done (ws_access cs)"
proof -
  have "canonical_root_existing sample_fs ''/ws/.'' = Ok \<lparr>root_path = \<lparr>cpath = ''/ws''\<rparr>\<rparr>"
    by code_simp
  then show ?thesis by (simp add: fs_access_new_def ws_access_def)
qed

theorem read_file_only_under_root_witness:
  "\<exists>w' rs ns. fs_access_read_file workspace_pipeline (ws_access [FsRead]) ''../ws/./hello.txt''
       (initial_world sample_fs)
       = (Ok ''hello'', w')
   \<and> path_of_names rs = ''/ws'' \<and> prefix rs ns \<and> nodes sample_fs ns = Some (RegularFile ''hello'')"
proof -
  have "fst (fs_access_read_file workspace_pipeline (ws_access [FsRead]) ''../ws/./hello.txt''
      (initial_world sample_fs)) = Ok ''hello''"
    by code_simp
  then obtain w' where run: "fs_access_read_file workspace_pipeline (ws_access [FsRead])
      ''../ws/./hello.txt'' (initial_world sample_fs) = (Ok ''hello'', w')"
    by (metis prod.collapse)
  have "fs_wf (fs (initial_world sample_fs))" by (simp add: sample_fs_wf)
  from read_file_only_under_root [OF this workspace_pipeline_envelope sample_fs_access_new run]
  show ?thesis using run by (auto simp: ws_access_def root_as_path_def)
qed

theorem write_file_only_under_root_witness:
  "\<exists>w'. fs_access_write_file workspace_pipeline (ws_access [FsWrite]) ''new.txt'' ''data''
       (initial_world sample_fs) = (Ok (), w')
   \<and> nodes (fs w') [''etc'', ''passwd''] = Some (RegularFile ''root'')"
proof -
  have "fst (fs_access_write_file workspace_pipeline (ws_access [FsWrite]) ''new.txt'' ''data''
      (initial_world sample_fs)) = Ok ()"
    by code_simp
  then obtain w' where w': "fs_access_write_file workspace_pipeline (ws_access [FsWrite]) ''new.txt''
      ''data'' (initial_world sample_fs) = (Ok (), w')"
    by (metis prod.collapse)
  have "fs_wf (fs (initial_world sample_fs))" by (simp add: sample_fs_wf)
  note outside = write_file_only_under_root [OF this workspace_pipeline_envelope sample_fs_access_new
      _ _ _ w', of "[''ws'']" "[''etc'', ''passwd'']"]
  have "nodes (fs w') [''etc'', ''passwd''] = nodes sample_fs [''etc'', ''passwd'']"
    using outside by (simp add: ws_access_def root_as_path_def path_of_names_def sample_fs_links good_name_def)
  also have "\<dots> = Some (RegularFile ''root'')" by code_simp
  finally show ?thesis using w' by blast
qed

section \<open>The contract of the backend\<close>

text \<open>
  What the facade relies on in a filesystem backend: a write keeps the backend's invariant,
  a failed one changes nothing, and a path that was written reads back until it is written
  again.
\<close>

locale fs_backend =
  fixes read_at :: "'s \<Rightarrow> canonical_path \<Rightarrow> 'e + string"
    and write_at :: "'s \<Rightarrow> canonical_path \<Rightarrow> string \<Rightarrow> ('e + unit) \<times> 's"
    and invar :: "'s \<Rightarrow> bool"
    and readable :: "'s \<Rightarrow> canonical_path \<Rightarrow> bool"
  assumes write_invar: "invar s \<Longrightarrow> write_at s p c = (r, s') \<Longrightarrow> invar s'"
    and failed_write: "invar s \<Longrightarrow> write_at s p c = (Err e, s') \<Longrightarrow> s' = s"
    and readable_after: "invar s \<Longrightarrow> write_at s p c = (r, s') \<Longrightarrow> readable s' q \<longleftrightarrow> readable s q"
    and read_back: "invar s \<Longrightarrow> readable s p \<Longrightarrow> valid_utf8 c \<Longrightarrow>
          write_at s p c = (Ok (), s') \<Longrightarrow> read_at s' p = Ok c"
begin

lemma last_write_wins:
  assumes "invar s" and "readable s p" and "valid_utf8 c'"
    and "write_at s p c = (r, s1)" and "write_at s1 p c' = (Ok (), s2)"
  shows "read_at s2 p = Ok c'"
  using read_back [OF write_invar [OF assms(1,4)] _ assms(3,5)]
    readable_after [OF assms(1,4)] assms(2) by blast

lemma failed_write_keeps_content:
  assumes "invar s" and "readable s p" and "valid_utf8 c"
    and "write_at s p c = (Ok (), s1)" and "write_at s1 q c' = (Err e, s2)"
  shows "read_at s2 p = Ok c"
  using failed_write [OF write_invar [OF assms(1,4)] assms(5)] read_back [OF assms(1-4)] by simp

end

definition readable_path :: "file_system \<Rightarrow> canonical_path \<Rightarrow> bool" where
  "readable_path fsys p \<longleftrightarrow> io_fault fsys OpRead (cpath p) = None"

lemma write_canonical_eq:
  "write_canonical fsys p c = (r, fsys') \<longleftrightarrow>
     (\<exists>r0. fs_write fsys (cpath p) c = (r0, fsys') \<and> r = map_err CapIo r0)"
  by (auto simp: write_canonical_def split: prod.splits)

lemma write_canonical_Ok:
  "write_canonical fsys p c = (Ok (), fsys') \<longleftrightarrow> fs_write fsys (cpath p) c = (Ok (), fsys')"
  by (cases "fs_write fsys (cpath p) c") (simp add: write_canonical_def)

interpretation std: fs_backend read_canonical write_canonical fs_wf readable_path
proof unfold_locales
  fix s p c r s' assume "fs_wf s" "write_canonical s p c = (r, s')"
  then show "fs_wf s'" using fs_write_wf by (auto simp: write_canonical_eq)
next
  fix s p c e s' assume "fs_wf s" "write_canonical s p c = (Err e, s')"
  then obtain r0 where r0: "fs_write s (cpath p) c = (r0, s')" and err: "Err e = map_err CapIo r0"
    unfolding write_canonical_eq by blast
  obtain e0 where "r0 = Err e0" using err [symmetric] by auto
  with r0 show "s' = s" by (simp add: fs_write_frame)
next
  fix s p c r s' q assume "fs_wf s" "write_canonical s p c = (r, s')"
  then show "readable_path s' q \<longleftrightarrow> readable_path s q"
    using fs_write_same_shape by (fastforce simp: write_canonical_eq same_shape_def readable_path_def)
next
  fix s p c s'
  assume "fs_wf s" "readable_path s p" "valid_utf8 c" "write_canonical s p c = (Ok (), s')"
  then show "read_canonical s' p = Ok c"
    by (simp add: write_canonical_Ok readable_path_def read_canonical_def fs_read_back)
qed

section \<open>Reading back through the facade\<close>

lemma canonicalize_after_write:
  assumes wf: "fs_wf fsys" and canon: "fs_canonicalize fsys p = Ok c"
    and wr: "fs_write fsys c content = (Ok (), fsys')"
  shows "fs_canonicalize fsys' p = Ok c"
proof -
  from canon obtain ns where ns: "c = path_of_names ns" "fs_resolve False fsys p = Ok ns"
    and nf: "io_fault fsys OpCanonicalize p = None"
    by (auto simp: fs_canonicalize_def split: option.splits sum.splits)
  have real: "real_node (nodes fsys) ns" by (rule fs_resolve_real [OF wf ns(2)])
  show ?thesis
    using wf wr
  proof (cases rule: fs_write_cases)
    case (stored place)
    have "place = ns"
      using stored(2) fs_resolve_names [of fsys ns True] wf real ns(1) by (simp add: fs_wf_def)
    moreover have "nodes fsys place \<noteq> Some Directory" "\<forall>t. nodes fsys place \<noteq> Some (Symlink t)"
      using stored(4) by (auto simp: free_place_def)
    ultimately have "fs_resolve False fsys' p = Ok ns"
      using ns(2) stored(3) walk_after_store by (auto simp: fs_resolve_def split: if_splits)
    then show ?thesis using nf ns(1) stored(3) by (simp add: fs_canonicalize_def)
  qed simp
qed

lemma read_file_runs:
  assumes res: "resolve_under_authorization (fs w) (access_workspace_root acc) p = Ok c"
    and a1: "\<exists>n i r. specified_outcome pl (access_policy_context acc) (ActFs (fs_action_new c))
               = OutcomeAllow n i r"
    and a2: "\<exists>n i r. specified_outcome pl (access_policy_context acc) (ActFsRead \<lparr>read_path = c\<rparr>)
               = OutcomeAllow n i r"
  shows "\<exists>w'. fs_access_read_file pl acc p w = (map_err ExecCapability (read_canonical (fs w) c), w')
            \<and> fs w' = fs w"
proof -
  let ?ctx = "access_policy_context acc"
  obtain g1 w1 where g1: "pipeline_grant pl ActFs ?ctx (fs_action_new c) w = (Ok g1, w1)"
    using a1 pipeline_grant_allowed [where dyn = ActFs] by metis
  obtain g2 w2 where g2: "pipeline_grant pl ActFsRead ?ctx \<lparr>read_path = c\<rparr> w1 = (Ok g2, w2)"
    using a2 pipeline_grant_allowed [where dyn = ActFsRead] by metis
  have "fs_read_action_new g1 = \<lparr>read_path = c\<rparr>" and "into_action g2 = \<lparr>read_path = c\<rparr>"
    using pipeline_grant_into_action [OF g1] pipeline_grant_into_action [OF g2]
    by (simp_all add: fs_read_action_new_def fs_action_new_def)
  moreover have "fs w2 = fs w"
    using pipeline_grant_frame [OF g1] pipeline_grant_frame [OF g2] by simp
  ultimately show ?thesis
    using res g1 g2 by (simp add: fs_access_read_file_def std_fs_read_file_def Let_def)
qed

lemma write_file_runs:
  assumes res: "resolve_write_under_authorization (fs w) (access_workspace_root acc) p = Ok c"
    and a1: "\<exists>n i r. specified_outcome pl (access_policy_context acc) (ActFs (fs_action_new c))
               = OutcomeAllow n i r"
    and a2: "\<exists>n i r. specified_outcome pl (access_policy_context acc)
               (ActFsWrite \<lparr>write_path = c, write_content = content\<rparr>) = OutcomeAllow n i r"
    and wr: "fs_write (fs w) (cpath c) content = (Ok (), fsys')"
  shows "\<exists>w'. fs_access_write_file pl acc p content w = (Ok (), w')
            \<and> fs w' = fsys' \<and> sessions w' = sessions w"
proof -
  let ?ctx = "access_policy_context acc" and ?act = "\<lparr>write_path = c, write_content = content\<rparr>"
  obtain g1 w1 where g1: "pipeline_grant pl ActFs ?ctx (fs_action_new c) w = (Ok g1, w1)"
    using a1 pipeline_grant_allowed [where dyn = ActFs] by metis
  obtain g2 w2 where g2: "pipeline_grant pl ActFsWrite ?ctx ?act w1 = (Ok g2, w2)"
    using a2 pipeline_grant_allowed [where dyn = ActFsWrite] by metis
  have act: "fs_write_action_new g1 content = ?act" "into_action g2 = ?act"
    using pipeline_grant_into_action [OF g1] pipeline_grant_into_action [OF g2]
    by (simp_all add: fs_write_action_new_def fs_action_new_def)
  have frame: "fs w2 = fs w" "sessions w2 = sessions w"
    using pipeline_grant_frame [OF g1] pipeline_grant_frame [OF g2] by simp_all
  have "fs_access_write_file pl acc p content w = std_fs_write_file g2 w2"
    using res g1 g2 act(1) by (simp add: fs_access_write_file_def Let_def)
  also have "\<dots> = (Ok (), w2\<lparr>fs := fsys'\<rparr>)"
    using wr by (simp add: std_fs_write_file_def write_canonical_def act(2) frame(1) Let_def)
  finally show ?thesis using frame(2) by simp
qed

text \<open>C12: what the facade wrote to an existing file, whose path resolves to \<open>c\<close>, it reads back under
  the same user path (through links and \<open>..\<close>) without changing a file, when the pipeline grants
  the reading of \<open>c\<close>, the content is UTF-8 and the device does not fail to read \<open>c\<close>.\<close>

theorem fs_access_roundtrip:
  assumes wf: "fs_wf (fs w)"
    and target: "resolve_write_under_authorization (fs w) (access_workspace_root acc) p = Ok c"
    and ex: "fs_exists (fs w) (candidate_path (root_as_path (access_workspace_root acc)) p)"
    and wr: "fs_access_write_file pl acc p content w = (Ok (), w')"
    and "valid_utf8 content" and "io_fault (fs w) OpRead (cpath c) = None"
    and allow: "\<exists>n i r. specified_outcome pl (access_policy_context acc)
                  (ActFsRead \<lparr>read_path = c\<rparr>) = OutcomeAllow n i r"
  shows "\<exists>w''. fs_access_read_file pl acc p w' = (Ok content, w'') \<and> fs w'' = fs w'"
  using wr
proof (cases rule: fs_access_write_file_steps)
  case (written c' g1 w1 g2 w2)
  let ?cand = "candidate_path (root_as_path (access_workspace_root acc)) p"
  from written(1) target have c': "c' = c" by simp
  from target ex have canon: "fs_canonicalize (fs w) ?cand = Ok (cpath c)"
    and under: "root_contains (access_workspace_root acc) c"
    by (auto simp: resolve_write_under_authorization_def canonical_path_existing_or_parent_def
        canonical_path_existing_def from_canonical_def ensure_under_root_def and_then_eq_Ok Let_def
        split: if_splits sum.splits)
  have "fs_canonicalize (fs w') ?cand = Ok (cpath c)"
    using canonicalize_after_write [OF wf canon] written(5) c' by simp
  with under have res: "resolve_under_authorization (fs w') (access_workspace_root acc) p = Ok c"
    by (cases c) (simp add: resolve_under_authorization_def canonical_path_existing_def
        from_canonical_def ensure_under_root_def)
  have "read_canonical (fs w') c = Ok content"
    using written(5) wf assms(5,6) c'
    by (intro std.read_back [of "fs w"]) (auto simp: write_canonical_Ok readable_path_def)
  moreover have "\<exists>n i r. specified_outcome pl (access_policy_context acc) (ActFs (fs_action_new c))
      = OutcomeAllow n i r"
    using written(2) pipeline_grant_Ok c' by metis
  ultimately show ?thesis
    using read_file_runs [OF res _ allow] by simp
qed simp

text \<open>The workspace policies grant what the round trip needs.\<close>

theorem fs_access_roundtrip_witness:
  "\<exists>w' w''. fs_access_write_file workspace_pipeline (ws_access [FsRead, FsWrite]) ''../ws/hello.txt'' ''data''
       (initial_world sample_fs) = (Ok (), w')
     \<and> fs_access_read_file workspace_pipeline (ws_access [FsRead, FsWrite]) ''../ws/hello.txt'' w' = (Ok ''data'', w'')"
proof -
  let ?acc = "ws_access [FsRead, FsWrite]" and ?p = "''../ws/hello.txt''"
  let ?w = "initial_world sample_fs" and ?c = "\<lparr>cpath = ''/ws/hello.txt''\<rparr>"
  have wf: "fs_wf (fs ?w)" by (simp add: sample_fs_wf)
  have "fst (fs_access_write_file workspace_pipeline ?acc ?p ''data'' ?w) = Ok ()" by code_simp
  then obtain w' where w': "fs_access_write_file workspace_pipeline ?acc ?p ''data'' ?w = (Ok (), w')"
    by (metis prod.collapse)
  have target: "resolve_write_under_authorization (fs ?w) (access_workspace_root ?acc) ?p = Ok ?c"
    by code_simp
  have ex: "fs_exists (fs ?w) (candidate_path (root_as_path (access_workspace_root ?acc)) ?p)"
    by code_simp
  have utf: "valid_utf8 ''data''" by code_simp
  have dev: "io_fault (fs ?w) OpRead (cpath ?c) = None" by (simp add: sample_fs_def)
  have "(case specified_outcome workspace_pipeline (access_policy_context ?acc) (ActFsRead \<lparr>read_path = ?c\<rparr>) of
      OutcomeAllow n i r \<Rightarrow> True | _ \<Rightarrow> False)"
    by code_simp
  then have read: "\<exists>n i r. specified_outcome workspace_pipeline (access_policy_context ?acc)
      (ActFsRead \<lparr>read_path = ?c\<rparr>) = OutcomeAllow n i r"
    by (auto split: policy_outcome.splits)
  from fs_access_roundtrip [OF wf target ex w' utf dev read] w' show ?thesis by blast
qed

end
