(* ===== verification/Access_Monty.thy ===== *)
theory Access_Monty
  imports Kernel_Policy_Laws
begin

text \<open>
  \<open>crates/access-monty\<close>: session keys, the in-memory session store behind its mutex
  (\<open>store.rs\<close>), the policy that allows both session actions (\<open>policy.rs\<close>) and the facade
  \<open>MontySessionAccess\<close> (\<open>access.rs\<close>); then the contract of a session store, its
  interpretation on the memory store, and the round trip through the action pipeline.
\<close>

section \<open>Keys and actions\<close>

definition monty_session_key_new :: "string \<Rightarrow> string \<Rightarrow> monty_session_key" where
  "monty_session_key_new workspace_root session_id =
     \<lparr>key_workspace_root = workspace_root, key_session_id = session_id\<rparr>"

text \<open>The derived equality and order of keys: the root compares as a path, by components.\<close>

definition session_key_order :: "monty_session_key \<Rightarrow> path_component list \<times> string" where
  "session_key_order k = (components (key_workspace_root k), key_session_id k)"

definition session_load_action_new :: "monty_session_key \<Rightarrow> monty_session_load_action" where
  "session_load_action_new k = \<lparr>load_key = k\<rparr>"

definition session_save_action_new :: "monty_session_key \<Rightarrow> bytes \<Rightarrow> monty_session_save_action" where
  "session_save_action_new k bs = \<lparr>save_key = k, save_bytes = bs\<rparr>"

section \<open>The policy\<close>

definition AllowMontySessionPolicy_load :: "monty_session_load_action policy" where
  "AllowMontySessionPolicy_load =
     \<lparr>pol_name = ''monty.allow_session_load'',
      pol_grant = (\<lambda>ctx a.
        with_predicate (policy_grant_allow (Some ''Monty session load allowed''))
          ''session load policy present'')\<rparr>"

definition AllowMontySessionPolicy_save :: "monty_session_save_action policy" where
  "AllowMontySessionPolicy_save =
     \<lparr>pol_name = ''monty.allow_session_save'',
      pol_grant = (\<lambda>ctx a.
        with_predicate (policy_grant_allow (Some ''Monty session save allowed''))
          ''session save policy present'')\<rparr>"

section \<open>The memory store\<close>

definition poisoned_error :: execution_error where
  "poisoned_error =
     ExecOther (''Monty session store poisoned: '' @ ''poisoned lock: another task failed inside'')"

definition load_raw :: "session_store \<Rightarrow> monty_session_key \<Rightarrow> execution_error + bytes option" where
  "load_raw st k =
     (if poisoned st then Err poisoned_error else Ok (session_map st (session_key_order k)))"

definition save_raw ::
  "session_store \<Rightarrow> monty_session_key \<Rightarrow> bytes \<Rightarrow> (execution_error + unit) \<times> session_store" where
  "save_raw st k bs =
     (if poisoned st then (Err poisoned_error, st)
      else (Ok (), st\<lparr>session_map := (session_map st)(session_key_order k \<mapsto> bs)\<rparr>))"

definition store_load ::
  "monty_session_load_action granted \<Rightarrow> world \<Rightarrow> (execution_error + bytes option) \<times> world" where
  "store_load granted w =
     (let a = into_action granted in (load_raw (sessions w) (load_key a), w))"

definition store_save ::
  "monty_session_save_action granted \<Rightarrow> world \<Rightarrow> (execution_error + unit) \<times> world" where
  "store_save granted w =
     (let a = into_action granted;
          (r, st') = save_raw (sessions w) (save_key a) (save_bytes a)
      in (r, w\<lparr>sessions := st'\<rparr>))"

section \<open>The facade\<close>

record session_access =
  session_policy_context :: policy_context
  session_workspace_root :: string

definition session_access_new :: "string \<Rightarrow> policy_context \<Rightarrow> session_access" where
  "session_access_new workspace_root ctx =
     \<lparr>session_policy_context = ctx, session_workspace_root = workspace_root\<rparr>"

definition session_access_load ::
  "policy_pipeline \<Rightarrow> session_access \<Rightarrow> string \<Rightarrow> world
   \<Rightarrow> (execution_error + bytes option) \<times> world" where
  "session_access_load pl acc session_id w =
     (let a = session_load_action_new
                (monty_session_key_new (session_workspace_root acc) session_id)
      in case pipeline_grant pl ActSessionLoad (session_policy_context acc) a w of
           (Err e, w1) \<Rightarrow> (Err (ExecAuthorization e), w1)
         | (Ok granted, w1) \<Rightarrow> store_load granted w1)"

definition session_access_save ::
  "policy_pipeline \<Rightarrow> session_access \<Rightarrow> string \<Rightarrow> bytes \<Rightarrow> world
   \<Rightarrow> (execution_error + unit) \<times> world" where
  "session_access_save pl acc session_id bs w =
     (let a = session_save_action_new
                (monty_session_key_new (session_workspace_root acc) session_id) bs
      in case pipeline_grant pl ActSessionSave (session_policy_context acc) a w of
           (Err e, w1) \<Rightarrow> (Err (ExecAuthorization e), w1)
         | (Ok granted, w1) \<Rightarrow> store_save granted w1)"

lemma session_access_load_frame [frame]:
  "session_access_load pl acc sid w = (r, w') \<Longrightarrow> fs w' = fs w \<and> sessions w' = sessions w"
  by (auto simp: session_access_load_def store_load_def Let_def split: prod.splits sum.splits
      dest!: pipeline_grant_frame)

lemma session_access_save_frame [frame]:
  "session_access_save pl acc sid bs w = (r, w') \<Longrightarrow> fs w' = fs w"
  by (auto simp: session_access_save_def store_save_def Let_def split: prod.splits sum.splits
      dest!: pipeline_grant_frame)

section \<open>The contract of a session store\<close>

locale session_backend =
  fixes get :: "'s \<Rightarrow> 'k \<Rightarrow> 'e + 'v option"
    and put :: "'s \<Rightarrow> 'k \<Rightarrow> 'v \<Rightarrow> ('e + unit) \<times> 's"
    and slot_of :: "'k \<Rightarrow> 'c"
  assumes get_after_put: "put s k v = (Ok (), s') \<Longrightarrow> slot_of k' = slot_of k \<Longrightarrow> get s' k' = Ok (Some v)"
    and get_other: "put s k v = (r, s') \<Longrightarrow> slot_of k' \<noteq> slot_of k \<Longrightarrow> get s' k' = get s k'"
    and put_failed: "put s k v = (Err e, s') \<Longrightarrow> s' = s"
begin

lemma last_put_wins:
  assumes "put s k v = (r, s1)" and "put s1 k v' = (Ok (), s2)"
  shows "get s2 k = Ok (Some v')"
  using get_after_put [OF assms(2)] by simp

lemma put_keeps_saved:
  assumes "put s k v = (Ok (), s1)" and "put s1 k' v' = (r, s2)" and "slot_of k' \<noteq> slot_of k"
  shows "get s2 k = Ok (Some v)"
  using get_after_put [OF assms(1)] get_other [OF assms(2)] assms(3) by simp

end

interpretation memory: session_backend load_raw save_raw session_key_order
  by unfold_locales (auto simp: load_raw_def save_raw_def split: if_splits)

text \<open>The key that the facade builds for a session of its workspace.\<close>

abbreviation session_key :: "session_access \<Rightarrow> string \<Rightarrow> monty_session_key" where
  "session_key acc sid \<equiv> monty_session_key_new (session_workspace_root acc) sid"

lemma session_key_slot:
  "session_key_order (session_key acc sid) = session_key_order (session_key acc' sid') \<longleftrightarrow>
     path_eq (session_workspace_root acc) (session_workspace_root acc') \<and> sid = sid'"
  by (simp add: session_key_order_def monty_session_key_new_def path_eq_def)

lemma session_access_save_Ok:
  assumes "session_access_save pl acc sid bs w = (Ok (), w')"
  shows "save_raw (sessions w) (session_key acc sid) bs = (Ok (), sessions w') \<and> fs w' = fs w"
proof -
  let ?key = "session_key acc sid"
  from assms obtain g w1 where
    g: "pipeline_grant pl ActSessionSave (session_policy_context acc) (session_save_action_new ?key bs) w
          = (Ok g, w1)"
    and st: "store_save g w1 = (Ok (), w')"
    by (auto simp: session_access_save_def Let_def split: prod.splits sum.splits)
  have "into_action g = \<lparr>save_key = ?key, save_bytes = bs\<rparr>"
    using pipeline_grant_into_action [OF g] by (simp add: session_save_action_new_def)
  moreover have "sessions w1 = sessions w" "fs w1 = fs w" using pipeline_grant_frame [OF g] by auto
  ultimately show ?thesis
    using st by (auto simp: store_save_def Let_def split: prod.splits)
qed

lemma session_access_save_Err:
  assumes "session_access_save pl acc sid bs w = (Err e, w')"
  shows "sessions w' = sessions w"
proof -
  let ?a = "session_save_action_new (monty_session_key_new (session_workspace_root acc) sid) bs"
  show ?thesis
  proof (cases "pipeline_grant pl ActSessionSave (session_policy_context acc) ?a w")
    case (Pair res w1)
    then show ?thesis
      using assms pipeline_grant_frame [OF Pair] memory.put_failed
      by (cases res) (auto simp: session_access_save_def store_save_def Let_def split: prod.splits)
  qed
qed

lemma session_access_save_result:
  assumes "session_access_save pl acc sid bs w = (r, w')"
  shows "(\<exists>r'. save_raw (sessions w) (session_key acc sid) bs = (r', sessions w')) \<or> sessions w' = sessions w"
  using assms session_access_save_Ok session_access_save_Err by (cases r) auto

lemma session_access_load_Ok:
  assumes "session_access_load pl acc sid w = (Ok v, w')"
  shows "load_raw (sessions w) (session_key acc sid) = Ok v"
proof -
  let ?key = "session_key acc sid"
  from assms obtain g w1 where
    g: "pipeline_grant pl ActSessionLoad (session_policy_context acc) (session_load_action_new ?key) w
          = (Ok g, w1)"
    and st: "store_load g w1 = (Ok v, w')"
    by (auto simp: session_access_load_def Let_def split: prod.splits sum.splits)
  have "into_action g = \<lparr>load_key = ?key\<rparr>"
    using pipeline_grant_into_action [OF g] by (simp add: session_load_action_new_def)
  then show ?thesis
    using st pipeline_grant_frame [OF g] by (auto simp: store_load_def Let_def)
qed

text \<open>C15: what was saved for a session is what a load returns for the same session of the same
  workspace (roots compare by their components), whatever successful or failed saves of
  other sessions or other workspaces came between; a session of another workspace with the
  same name is never returned.\<close>

theorem session_roundtrip:
  assumes save: "session_access_save pl acc sid bs w = (Ok (), w1)"
    and other: "session_access_save pl acc' sid' bs' w1 = (r, w2)"
    and distinct: "path_eq (session_workspace_root acc') (session_workspace_root acc) \<Longrightarrow> sid' \<noteq> sid"
    and load: "session_access_load pl acc'' sid w2 = (Ok v, w3)"
  shows "(path_eq (session_workspace_root acc'') (session_workspace_root acc) \<longrightarrow> v = Some bs)
    \<and> (\<not> path_eq (session_workspace_root acc'') (session_workspace_root acc)
        \<and> \<not> path_eq (session_workspace_root acc'') (session_workspace_root acc')
        \<longrightarrow> load_raw (sessions w) (session_key acc'' sid) = Ok v)"
proof -
  have s1: "save_raw (sessions w) (session_key acc sid) bs = (Ok (), sessions w1)"
    using session_access_save_Ok [OF save] by simp
  obtain r' where s2: "save_raw (sessions w1) (session_key acc' sid') bs' = (r', sessions w2)
      \<or> sessions w2 = sessions w1"
    using session_access_save_result [OF other] by blast
  have l: "load_raw (sessions w2) (session_key acc'' sid) = Ok v"
    using session_access_load_Ok [OF load] by simp
  have slot': "session_key_order (session_key acc' sid') \<noteq> session_key_order (session_key acc sid)"
    using distinct by (auto simp: session_key_slot)
  show ?thesis
  proof (intro conjI impI)
    assume "path_eq (session_workspace_root acc'') (session_workspace_root acc)"
    then have same: "session_key_order (session_key acc'' sid) = session_key_order (session_key acc sid)"
      by (simp add: session_key_slot)
    have "load_raw (sessions w2) (session_key acc'' sid) = load_raw (sessions w1) (session_key acc'' sid)"
      using s2 memory.get_other [of _ "session_key acc' sid'" bs'] slot' same by auto
    with l memory.get_after_put [OF s1 same] show "v = Some bs" by simp
  next
    assume diff: "\<not> path_eq (session_workspace_root acc'') (session_workspace_root acc)
        \<and> \<not> path_eq (session_workspace_root acc'') (session_workspace_root acc')"
    have "load_raw (sessions w2) (session_key acc'' sid) = load_raw (sessions w1) (session_key acc'' sid)"
      using s2 memory.get_other [of _ "session_key acc' sid'" bs'] diff by (auto simp: session_key_slot)
    also have "\<dots> = load_raw (sessions w) (session_key acc'' sid)"
      using memory.get_other [OF s1] diff by (simp add: session_key_slot)
    finally show "load_raw (sessions w) (session_key acc'' sid) = Ok v" using l by simp
  qed
qed

lemma session_save_runs:
  assumes "\<not> poisoned (sessions w)"
    and "specified_outcome pl (session_policy_context acc)
           (ActSessionSave (session_save_action_new (session_key acc sid) bs)) = OutcomeAllow n i r"
  shows "\<exists>w'. session_access_save pl acc sid bs w = (Ok (), w') \<and> \<not> poisoned (sessions w')"
proof -
  let ?a = "session_save_action_new (session_key acc sid) bs"
  from pipeline_grant_allowed [of pl _ ActSessionSave, OF assms(2)] obtain g w1 where
    g: "pipeline_grant pl ActSessionSave (session_policy_context acc) ?a w = (Ok g, w1)" by blast
  from pipeline_grant_frame [OF g] g assms(1) show ?thesis
    by (auto simp: session_access_save_def store_save_def save_raw_def Let_def)
qed

lemma session_load_runs:
  assumes "\<not> poisoned (sessions w)"
    and "specified_outcome pl (session_policy_context acc)
           (ActSessionLoad (session_load_action_new (session_key acc sid))) = OutcomeAllow n i r"
  shows "\<exists>v w'. session_access_load pl acc sid w = (Ok v, w')"
proof -
  let ?a = "session_load_action_new (session_key acc sid)"
  from pipeline_grant_allowed [of pl _ ActSessionLoad, OF assms(2)] obtain g w1 where
    g: "pipeline_grant pl ActSessionLoad (session_policy_context acc) ?a w = (Ok g, w1)" by blast
  from pipeline_grant_frame [OF g] g assms(1) show ?thesis
    by (auto simp: session_access_load_def store_load_def load_raw_def Let_def)
qed

text \<open>The pipeline of the store's own tests.\<close>

definition session_pipeline :: policy_pipeline where
  "session_pipeline = fold apply_registration
     [PrependInbound CapabilityEnvelopePolicy,
      Append TMontySessionLoadAction (box_policy as_session_load AllowMontySessionPolicy_load),
      Append TMontySessionSaveAction (box_policy as_session_save AllowMontySessionPolicy_save)]
     pipeline_new"

lemma session_pipeline_entries:
  "inbound_policies (registry session_pipeline) = [\<lparr>reg_id = 1, reg_inner = CapabilityEnvelopePolicy\<rparr>]"
  "typed_policies session_pipeline (ActSessionLoad l) =
     [\<lparr>reg_id = 2, reg_inner = box_policy as_session_load AllowMontySessionPolicy_load\<rparr>]"
  "typed_policies session_pipeline (ActSessionSave s) =
     [\<lparr>reg_id = 3, reg_inner = box_policy as_session_save AllowMontySessionPolicy_save\<rparr>]"
  by (simp_all add: session_pipeline_def pipeline_op_defs registry_op_defs pipeline_new_def
      registry_new_def inbound_policies_def typed_policies_def Let_def)

lemma session_pipeline_allows:
  "\<exists>n i r. specified_outcome session_pipeline ctx (ActSessionLoad l) = OutcomeAllow n i r"
  "\<exists>n i r. specified_outcome session_pipeline ctx (ActSessionSave s) = OutcomeAllow n i r"
  unfolding specified_outcome_def session_pipeline_entries
  by (simp_all add: answer_def verdict_def CapabilityEnvelopePolicy_def decision_capability_envelope
      session_load_capabilities_def session_save_capabilities_def AllowMontySessionPolicy_load_def
      AllowMontySessionPolicy_save_def)

theorem session_roundtrip_witness:
  "\<exists>w1 w2 w3. (let acc = (\<lambda>r. session_access_new r \<lparr>ctx_capabilities = caps_empty, ctx_workspace_root = r\<rparr>) in
     session_access_save session_pipeline (acc ''/a'') ''s'' [1] (initial_world (plain_fs [])) = (Ok (), w1)
   \<and> session_access_save session_pipeline (acc ''/b'') ''s'' [2] w1 = (Ok (), w2)
   \<and> session_access_load session_pipeline (acc ''/a/'') ''s'' w2 = (Ok (Some [1]), w3))"
proof -
  let ?acc = "\<lambda>r. session_access_new r \<lparr>ctx_capabilities = caps_empty, ctx_workspace_root = r\<rparr>"
  have w0: "\<not> poisoned (sessions (initial_world (plain_fs [])))" by (simp add: session_store_new_def)
  obtain w1 where w1: "session_access_save session_pipeline (?acc ''/a'') ''s'' [1]
      (initial_world (plain_fs [])) = (Ok (), w1)" "\<not> poisoned (sessions w1)"
    using session_save_runs [OF w0] session_pipeline_allows(2) by metis
  obtain w2 where w2: "session_access_save session_pipeline (?acc ''/b'') ''s'' [2] w1 = (Ok (), w2)"
    "\<not> poisoned (sessions w2)"
    using session_save_runs [OF w1(2)] session_pipeline_allows(2) by metis
  obtain v w3 where w3: "session_access_load session_pipeline (?acc ''/a/'') ''s'' w2 = (Ok v, w3)"
    using session_load_runs [OF w2(2)] session_pipeline_allows(1) by metis
  have "\<not> path_eq ''/b'' ''/a''" and same: "path_eq ''/a/'' ''/a''" by code_simp+
  then have diff: "path_eq (session_workspace_root (?acc ''/b'')) (session_workspace_root (?acc ''/a''))
      \<Longrightarrow> ''s'' \<noteq> ''s''"
    by (simp add: session_access_new_def)
  have "v = Some [1]"
    using session_roundtrip [OF w1(1) w2(1) diff w3] same by (simp add: session_access_new_def)
  with w1(1) w2(1) w3 show ?thesis by (auto simp: Let_def)
qed

end
