(* ===== verification/App.thy ===== *)
theory App
  imports Tool_Host Access_Fs_Laws Access_Network Access_Monty
begin

text \<open>
  \<open>crates/kernel/src/runtime\<close> and \<open>crates/app\<close>: the kernel runtime, the tool registry, the
  context of an invocation and the invocation itself. \<open>run_prog\<close> interprets the context
  calls of a tool; \<open>app_invoke\<close> is one invocation, with a bound on the depth of nested
  invocations: a result other than \<open>OutOfFuel\<close> does not depend on the bound (shown below).

  The workspace that a nested call gets is the canonical root of its parent, and its
  capabilities are the parent's effective ones or the override, which must be contained in
  them.
\<close>

section \<open>The kernel runtime\<close>

record kernel_runtime =
  runtime_network :: network_backend
  runtime_policy :: policy_pipeline

definition kernel_runtime_new :: kernel_runtime where
  "kernel_runtime_new =
     \<lparr>runtime_network = DenyNetworkBackend,
      runtime_policy = pipeline_prepend_inbound CapabilityEnvelopePolicy pipeline_new\<rparr>"

section \<open>The application\<close>

record app =
  app_kernel :: kernel_runtime
  app_tools :: "string \<Rightarrow> registered_tool option"

definition app_new :: app where
  "app_new = \<lparr>app_kernel = kernel_runtime_new, app_tools = (\<lambda>_. None)\<rparr>"

definition app_policy :: "app \<Rightarrow> policy_pipeline" where
  "app_policy a = runtime_policy (app_kernel a)"

text \<open>\<open>policy_mut()\<close> followed by a registration.\<close>

definition app_register_policy :: "registration \<Rightarrow> app \<Rightarrow> app" where
  "app_register_policy op a =
     a\<lparr>app_kernel := (app_kernel a)\<lparr>runtime_policy := apply_registration op (app_policy a)\<rparr>\<rparr>"

definition app_spans :: host_spans where
  "app_spans =
     \<lparr>host_parse_input_span = (\<lambda>name. [tool_parse_input_span name]),
      host_execution_span = (\<lambda>name. [tool_execution_span name])\<rparr>"

definition app_register :: "nat \<Rightarrow> string \<Rightarrow> ('i, 'o) tool_impl \<Rightarrow> app \<Rightarrow> (tool_error + unit) \<times> app" where
  "app_register now path tool a =
     (if app_tools a path \<noteq> None then (Err (DuplicateTool (debug_str path)), a)
      else case registered_tool_from_tool app_spans now tool of
             Err e \<Rightarrow> (Err e, a)
           | Ok tool' \<Rightarrow> (Ok (), a\<lparr>app_tools := (app_tools a)(path \<mapsto> tool')\<rparr>))"

definition decode_tool_path :: "json \<Rightarrow> input_error + string" where
  "decode_tool_path v = ok_or (InvalidField ''tool_path'') (as_str v)"

section \<open>The context of an invocation\<close>

definition app_tool_context_new ::
  "file_system \<Rightarrow> string \<Rightarrow> tool_registration \<Rightarrow> invocation_params \<Rightarrow> authorization_error + tool_context" where
  "app_tool_context_new fsys path reg params =
     and_then (canonical_root_existing fsys (params_workspace_root params)) (\<lambda>root.
       let declared = capabilities_of (reg_spec reg);
           effective = (case capabilities_override params of Some caps \<Rightarrow> caps | None \<Rightarrow> declared)
       in Ok \<lparr>cx_tool_path = path, cx_registration = reg, cx_effective_capabilities = effective,
              cx_workspace_root = root\<rparr>)"

definition cx_root :: "tool_context \<Rightarrow> string" where
  "cx_root ctx = root_as_path (cx_workspace_root ctx)"

definition cx_policy_context :: "tool_context \<Rightarrow> policy_context" where
  "cx_policy_context ctx =
     \<lparr>ctx_capabilities = cx_effective_capabilities ctx, ctx_workspace_root = cx_root ctx\<rparr>"

text \<open>\<open>ctx.fs()\<close> canonicalizes the root once more and panics when that fails.\<close>

definition cx_fs :: "tool_context \<Rightarrow> world \<Rightarrow> fs_access exec" where
  "cx_fs ctx w = fs_access_new w (cx_root ctx) (cx_policy_context ctx)"

definition cx_monty_sessions :: "tool_context \<Rightarrow> session_access" where
  "cx_monty_sessions ctx = session_access_new (cx_root ctx) (cx_policy_context ctx)"

section \<open>Nested invocations\<close>

type_synonym invoker =
  "string \<Rightarrow> invocation_params \<Rightarrow> json \<Rightarrow> world \<Rightarrow> (tool_error + tool_outcome) exec \<times> world"

definition nested_scope_event ::
  "tool_context \<Rightarrow> string \<Rightarrow> capabilities option \<Rightarrow> capabilities option \<Rightarrow> bool \<Rightarrow> audit_event list" where
  "nested_scope_event ctx path requested actual expand =
     record_nested_capability_override (cx_tool_path ctx) (tool_name (reg_spec (cx_registration ctx)))
       path (cx_effective_capabilities ctx) requested actual expand"

definition cx_invoke_tool ::
  "invoker \<Rightarrow> tool_context \<Rightarrow> string \<Rightarrow> capabilities option \<Rightarrow> json \<Rightarrow> world
   \<Rightarrow> (tool_error + tool_outcome) exec \<times> world" where
  "cx_invoke_tool nest ctx path caps_override payload w =
     (let parent = cx_effective_capabilities ctx;
          run = (\<lambda>effective.
            nest path (invocation_params_new (cx_root ctx) (Some effective)) payload
              (emit (nested_scope_event ctx path caps_override (Some effective) False) w))
      in case caps_override of
           Some caps \<Rightarrow>
             if \<not> caps_contains parent caps then
               (Done (Err (ToolAuthorization (Denied (authorization_deny_new
                    ''nested invocation attempted to expand capabilities'')))),
                emit (nested_scope_event ctx path (Some caps) None True) w)
             else run caps
         | None \<Rightarrow> run parent)"

section \<open>Running a tool\<close>

text \<open>A call of a method of the context, and the rest of the program on its result.\<close>

definition continue ::
  "'r exec \<times> world \<Rightarrow> ('r \<Rightarrow> world \<Rightarrow> 'a exec \<times> world) \<Rightarrow> 'a exec \<times> world" where
  "continue rw k =
     (case rw of
        (Done r, w) \<Rightarrow> k r w
      | (Panicked m, w) \<Rightarrow> (Panicked m, w)
      | (OutOfFuel, w) \<Rightarrow> (OutOfFuel, w))"

definition returned :: "'r \<times> world \<Rightarrow> 'r exec \<times> world" where
  "returned rw = (Done (fst rw), snd rw)"

definition with_fs ::
  "tool_context \<Rightarrow> (fs_access \<Rightarrow> world \<Rightarrow> 'r \<times> world) \<Rightarrow> world \<Rightarrow> 'r exec \<times> world" where
  "with_fs ctx f w =
     (case cx_fs ctx w of
        Done acc \<Rightarrow> returned (f acc w)
      | Panicked m \<Rightarrow> (Panicked m, w)
      | OutOfFuel \<Rightarrow> (OutOfFuel, w))"

primrec run_prog ::
  "app \<Rightarrow> invoker \<Rightarrow> tool_context \<Rightarrow> 'a tool_prog \<Rightarrow> world \<Rightarrow> (tool_error + 'a) exec \<times> world" where
  "run_prog a nest ctx (Return r) w = (Done r, w)"
| "run_prog a nest ctx (CallReadFile p k) w =
     continue (with_fs ctx (\<lambda>acc. fs_access_read_file (app_policy a) acc p) w)
       (\<lambda>r. run_prog a nest ctx (k r))"
| "run_prog a nest ctx (CallWriteFile p c k) w =
     continue (with_fs ctx (\<lambda>acc. fs_access_write_file (app_policy a) acc p c) w)
       (\<lambda>r. run_prog a nest ctx (k r))"
| "run_prog a nest ctx (CallFetchUrl u k) w =
     continue (returned (network_access_fetch_url (app_policy a) (runtime_network (app_kernel a))
                 (cx_policy_context ctx) u w))
       (\<lambda>r. run_prog a nest ctx (k r))"
| "run_prog a nest ctx (CallSessionLoad s k) w =
     continue (returned (session_access_load (app_policy a) (cx_monty_sessions ctx) s w))
       (\<lambda>r. run_prog a nest ctx (k r))"
| "run_prog a nest ctx (CallSessionSave s bs k) w =
     continue (returned (session_access_save (app_policy a) (cx_monty_sessions ctx) s bs w))
       (\<lambda>r. run_prog a nest ctx (k r))"
| "run_prog a nest ctx (CallInvokeTool p c j k) w =
     continue (cx_invoke_tool nest ctx p c j w) (\<lambda>r. run_prog a nest ctx (k r))"
| "run_prog a nest ctx (EmitAudit evs p) w = run_prog a nest ctx p (emit evs w)"
| "run_prog a nest ctx (ToolPanics m) w = (Panicked m, w)"
| "run_prog a nest ctx StepBound w = (OutOfFuel, w)"

section \<open>Invocation\<close>

definition invocation_result_events :: "(tool_error + tool_outcome) \<Rightarrow> audit_event list" where
  "invocation_result_events result =
     (case result of
        Ok _ \<Rightarrow> record_span_result None
      | Err error \<Rightarrow> record_span_result (Some (debug_tool_error error)))"

definition app_invoke_with :: "app \<Rightarrow> invoker \<Rightarrow> invoker" where
  "app_invoke_with a nest path params payload w =
     (case app_tools a path of
        None \<Rightarrow> (Done (Err (UnknownTool (debug_str path))), w)
      | Some t \<Rightarrow>
          (let reg = tool_registration_of t in
           case app_tool_context_new (fs w) path reg params of
             Err e \<Rightarrow> (Done (Err (ToolAuthorization e)), w)
           | Ok ctx \<Rightarrow>
               (let name = tool_name (reg_spec reg);
                    w1 = emit (record_tool_capabilities_override path name
                                 (capabilities_of (reg_spec reg)) (cx_effective_capabilities ctx)
                               @ [tool_invocation_span path name]) w
                in continue (run_prog a nest ctx (registered_tool_invoke t ctx payload) w1)
                     (\<lambda>result w2.
                        (Done result, emit (invocation_result_events result @ [SpanExit]) w2)))))"

primrec app_invoke :: "nat \<Rightarrow> app \<Rightarrow> invoker" where
  "app_invoke 0 a = (\<lambda>path params payload w. (OutOfFuel, w))"
| "app_invoke (Suc n) a = app_invoke_with a (app_invoke n a)"

lemma continue_simps [simp]:
  "continue (Done r, w) k = k r w"
  "continue (Panicked m, w) k = (Panicked m, w)"
  "continue (OutOfFuel, w) k = (OutOfFuel, w)"
  by (simp_all add: continue_def)

end
