(* ===== verification/App_Laws.thy ===== *)
theory App_Laws
  imports App
begin

text \<open>
  What a whole invocation can do, for any registered tools, any nesting and any outcome
  (success, error or panic): one induction over the invocation, stated for every relation
  that the single effects satisfy (locale \<open>confined_effect\<close>), and its instances: the file
  system without \<open>FsWrite\<close>, the tree outside the workspace, the sessions of other
  workspaces. Then the laws of nested invocations, of registrations and of the depth bound.
\<close>

section \<open>Roots along an invocation\<close>

lemma same_shape_real:
  assumes "same_shape fsys fsys'" and "real_node (nodes fsys) ns"
  shows "real_node (nodes fsys') ns"
proof -
  have "nodes fsys ns \<noteq> None" "\<forall>t. nodes fsys ns \<noteq> Some (Symlink t)"
    using assms(2) by (auto simp: real_node_iff)
  then have "nodes fsys' ns \<noteq> None" "\<forall>t. nodes fsys' ns \<noteq> Some (Symlink t)"
    using assms(1) by (auto simp: same_shape_def)
  then show ?thesis
    by (auto simp: real_node_def split: option.splits fs_node.splits)
qed

lemma same_shape_root_at: "same_shape fsys fsys' \<Longrightarrow> root_at fsys root rs \<Longrightarrow> root_at fsys' root rs"
  using same_shape_real by (auto simp: root_at_def)

text \<open>The root of a context, canonicalized again, is itself.\<close>

lemma canonical_root_again:
  assumes wf: "fs_wf fsys" and real: "real_node (nodes fsys) rs" and names: "\<forall>n \<in> set rs. good_name n"
    and again: "canonical_root_existing fsys (path_of_names rs) = Ok root"
  shows "root_at fsys root rs"
proof -
  have "tree_wf (nodes fsys)" using wf by (simp add: fs_wf_def)
  then have "fs_resolve False fsys (path_of_names rs) = Ok rs" using real by (rule fs_resolve_names)
  then have "root_as_path root = path_of_names rs"
    using again
    by (auto simp: canonical_root_existing_def canonical_path_existing_def fs_canonicalize_def
        from_canonical_def root_as_path_def and_then_def split: option.splits sum.splits)
  with real names show ?thesis by (simp add: root_at_def)
qed

lemma canonical_root_existing_names:
  assumes "fs_wf fsys" and "canonical_root_existing fsys p = Ok root"
    and "\<And>c. fs_canonicalize fsys p = Ok c \<Longrightarrow> c = path_of_names rs" and "\<forall>n \<in> set rs. good_name n"
  shows "root_at fsys root rs"
proof -
  from canonical_root_existing_at [OF assms(1,2)] obtain rs' where at: "root_at fsys root rs'" by blast
  have "fs_canonicalize fsys p = Ok (root_as_path root)"
    using assms(2) by (auto simp: canonical_root_existing_def canonical_path_existing_def
        from_canonical_def root_as_path_def and_then_def split: sum.splits)
  then have "path_of_names rs' = path_of_names rs"
    using assms(3) at by (simp add: root_at_def)
  then have "rs' = rs" using at assms(4) path_of_names_inj by (auto simp: root_at_def)
  with at show ?thesis by simp
qed

lemma fs_access_new_at:
  assumes wf: "fs_wf (fs w)" and at: "root_at (fs w) (cx_workspace_root ctx) rs"
    and new: "cx_fs ctx w = Done acc"
  shows "root_at (fs w) (access_workspace_root acc) rs \<and> access_policy_context acc = cx_policy_context ctx"
proof -
  from new have root: "canonical_root_existing (fs w) (path_of_names rs) = Ok (access_workspace_root acc)"
    and ctx: "access_policy_context acc = cx_policy_context ctx"
    using at by (auto simp: cx_fs_def fs_access_new_def cx_root_def root_at_def split: sum.splits)
  from canonical_root_again [OF wf _ _ root] at ctx show ?thesis by (simp add: root_at_def)
qed

section \<open>The effects of an invocation\<close>

text \<open>A relation on worlds for capabilities \<open>c\<close> and a workspace root \<open>rs\<close> that every single effect
  of a tool with these satisfies.\<close>

locale confined_effect =
  fixes R :: "capabilities \<Rightarrow> string list \<Rightarrow> world \<Rightarrow> world \<Rightarrow> bool"
  assumes quiet: "fs w' = fs w \<Longrightarrow> sessions w' = sessions w \<Longrightarrow> R c rs w w'"
    and compose: "R c rs w w' \<Longrightarrow> R c rs w' w'' \<Longrightarrow> R c rs w w''"
    and narrow: "caps_contains c c' \<Longrightarrow> R c' rs w w' \<Longrightarrow> R c rs w w'"
    and write_step: "fs_wf (fs w) \<Longrightarrow> write_effect c rs (fs w) (fs w') \<Longrightarrow>
          sessions w' = sessions w \<Longrightarrow> R c rs w w'"
    and save_step: "fs w' = fs w \<Longrightarrow> save_raw (sessions w) k bs = (Ok (), sessions w') \<Longrightarrow>
          key_workspace_root k = path_of_names rs \<Longrightarrow> R c rs w w'"

text \<open>Such a step, with what keeps the next one possible.\<close>

definition confined_step ::
  "(capabilities \<Rightarrow> string list \<Rightarrow> world \<Rightarrow> world \<Rightarrow> bool) \<Rightarrow> capabilities \<Rightarrow> string list \<Rightarrow> world \<Rightarrow> world
   \<Rightarrow> bool" where
  "confined_step R c rs w w' \<longleftrightarrow> R c rs w w' \<and> fs_wf (fs w') \<and> same_shape (fs w) (fs w')"

definition effective_capabilities :: "app \<Rightarrow> string \<Rightarrow> invocation_params \<Rightarrow> capabilities" where
  "effective_capabilities a path params =
     (case capabilities_override params of
        Some caps \<Rightarrow> caps
      | None \<Rightarrow> (case app_tools a path of
                   Some t \<Rightarrow> capabilities_of (reg_spec (tool_registration_of t))
                 | None \<Rightarrow> caps_empty))"

lemma cx_policy_context_simps [simp]:
  "ctx_capabilities (cx_policy_context ctx) = cx_effective_capabilities ctx"
  "ctx_workspace_root (cx_policy_context ctx) = cx_root ctx"
  by (simp_all add: cx_policy_context_def)

text \<open>Invocations that are confined when they are given the root \<open>rs\<close>.\<close>

definition nest_confined ::
  "(capabilities \<Rightarrow> string list \<Rightarrow> world \<Rightarrow> world \<Rightarrow> bool) \<Rightarrow> string list \<Rightarrow> invoker \<Rightarrow> bool" where
  "nest_confined R rs nest \<longleftrightarrow>
     (\<forall>path params payload w r w' c. nest path params payload w = (r, w') \<longrightarrow> fs_wf (fs w) \<longrightarrow>
        capabilities_override params = Some c \<longrightarrow>
        (\<forall>p. fs_canonicalize (fs w) (params_workspace_root params) = Ok p \<longrightarrow> p = path_of_names rs) \<longrightarrow>
        confined_step R c rs w w')"

text \<open>An invocation that finds its tool and its workspace runs the tool's program.\<close>

definition invocation_start_events :: "string \<Rightarrow> registered_tool \<Rightarrow> tool_context \<Rightarrow> audit_event list" where
  "invocation_start_events path t ctx =
     (let spec = reg_spec (tool_registration_of t)
      in record_tool_capabilities_override path (tool_name spec) (capabilities_of spec)
           (cx_effective_capabilities ctx) @ [tool_invocation_span path (tool_name spec)])"

lemma app_invoke_with_run:
  assumes "app_tools a path = Some t"
    and "app_tool_context_new (fs w) path (tool_registration_of t) params = Ok ctx"
  shows "app_invoke_with a nest path params payload w =
     continue (run_prog a nest ctx (registered_tool_invoke t ctx payload)
                (emit (invocation_start_events path t ctx) w))
       (\<lambda>result w2. (Done result, emit (invocation_result_events result @ [SpanExit]) w2))"
  using assms by (simp add: app_invoke_with_def invocation_start_events_def Let_def)

lemma app_tool_context_new_Ok:
  assumes "app_tools a path = Some t"
    and "app_tool_context_new fsys path (tool_registration_of t) params = Ok ctx"
  shows "canonical_root_existing fsys (params_workspace_root params) = Ok (cx_workspace_root ctx)
       \<and> cx_effective_capabilities ctx = effective_capabilities a path params"
  using assms
  by (auto simp: app_tool_context_new_def and_then_eq_Ok Let_def effective_capabilities_def
      split: option.splits)

context confined_effect
begin

lemma confined_quiet:
  "fs_wf (fs w) \<Longrightarrow> fs w' = fs w \<Longrightarrow> sessions w' = sessions w \<Longrightarrow> confined_step R c rs w w'"
  by (simp add: confined_step_def quiet)

lemma confined_trans:
  "confined_step R c rs w w' \<Longrightarrow> confined_step R c rs w' w'' \<Longrightarrow> confined_step R c rs w w''"
  unfolding confined_step_def using compose same_shape_trans by blast

lemma continue_confined:
  assumes "continue rw k = (r, w')" and "confined_step R c rs w (snd rw)"
    and "\<And>x w1. rw = (Done x, w1) \<Longrightarrow> k x w1 = (r, w') \<Longrightarrow> confined_step R c rs w1 w'"
  shows "confined_step R c rs w w'"
proof (cases rw)
  case (Pair x w1)
  show ?thesis
  proof (cases x)
    case (Done y)
    with Pair assms show ?thesis by (auto intro: confined_trans)
  qed (use Pair assms in auto)
qed

lemma read_confined:
  assumes "fs_wf (fs w)"
  shows "confined_step R c rs w (snd (with_fs ctx (\<lambda>acc. fs_access_read_file pl acc p) w))"
proof (cases "cx_fs ctx w")
  case (Done acc)
  obtain r w' where run: "fs_access_read_file pl acc p w = (r, w')" by fastforce
  with Done fs_access_read_file_frame [OF run] assms show ?thesis
    by (simp add: with_fs_def returned_def confined_quiet)
qed (use assms in \<open>simp_all add: with_fs_def confined_quiet\<close>)

lemma write_confined:
  assumes wf: "fs_wf (fs w)" and env: "has_envelope pl"
    and at: "root_at (fs w) (cx_workspace_root ctx) rs"
  shows "confined_step R (cx_effective_capabilities ctx) rs w
           (snd (with_fs ctx (\<lambda>acc. fs_access_write_file pl acc p content) w))"
proof (cases "cx_fs ctx w")
  case (Done acc)
  obtain r w' where run: "fs_access_write_file pl acc p content w = (r, w')" by fastforce
  from fs_access_new_at [OF wf at Done]
  have acc: "root_at (fs w) (access_workspace_root acc) rs"
    "access_policy_context acc = cx_policy_context ctx" by auto
  have "write_effect (cx_effective_capabilities ctx) rs (fs w) (fs w')"
    using write_file_effect [OF wf acc(1) env run] acc(2) by simp
  then have "R (cx_effective_capabilities ctx) rs w w'"
    using write_step wf fs_access_write_file_sessions [OF run] by blast
  with write_file_wf [OF wf run] Done run show ?thesis
    by (simp add: with_fs_def returned_def confined_step_def)
qed (use wf in \<open>simp_all add: with_fs_def confined_quiet\<close>)

lemma fetch_confined:
  assumes "fs_wf (fs w)"
  shows "confined_step R c rs w (snd (returned (network_access_fetch_url pl nb pctx u w)))"
  using assms network_access_frame [of pl nb pctx u w]
  by (cases "network_access_fetch_url pl nb pctx u w") (simp add: returned_def confined_quiet)

lemma load_confined:
  assumes "fs_wf (fs w)"
  shows "confined_step R c rs w (snd (returned (session_access_load pl acc s w)))"
  using assms session_access_load_frame [of pl acc s w]
  by (cases "session_access_load pl acc s w") (simp add: returned_def confined_quiet)

lemma save_confined:
  assumes wf: "fs_wf (fs w)" and at: "root_at (fs w) (cx_workspace_root ctx) rs"
  shows "confined_step R c rs w (snd (returned (session_access_save pl (cx_monty_sessions ctx) s bs w)))"
proof (cases "session_access_save pl (cx_monty_sessions ctx) s bs w")
  case (Pair r w')
  have same: "fs w' = fs w" by (rule session_access_save_frame [OF Pair])
  show ?thesis
  proof (cases r)
    case (Inl e)
    with Pair have "sessions w' = sessions w" using session_access_save_Err by simp
    with same wf Pair show ?thesis by (simp add: returned_def confined_quiet)
  next
    case (Inr u)
    with Pair have "session_access_save pl (cx_monty_sessions ctx) s bs w = (Ok (), w')" by simp
    from session_access_save_Ok [OF this]
    have "save_raw (sessions w) (session_key (cx_monty_sessions ctx) s) bs = (Ok (), sessions w')" by simp
    moreover have "key_workspace_root (session_key (cx_monty_sessions ctx) s) = path_of_names rs"
      using at by (simp add: monty_session_key_new_def cx_monty_sessions_def session_access_new_def
          cx_root_def root_at_def)
    ultimately have "R c rs w w'" using save_step same by blast
    with same wf Pair show ?thesis by (simp add: returned_def confined_step_def)
  qed
qed


lemma nested_confined:
  assumes nest: "nest_confined R rs nest"
    and wf: "fs_wf (fs w)" and at: "root_at (fs w) (cx_workspace_root ctx) rs"
  shows "confined_step R (cx_effective_capabilities ctx) rs w (snd (cx_invoke_tool nest ctx p co j w))"
proof -
  let ?parent = "cx_effective_capabilities ctx"
  have root: "q = path_of_names rs" if "fs_canonicalize (fs w) (cx_root ctx) = Ok q" for q
    using that at wf fs_resolve_names [of "fs w" rs False]
    by (auto simp: cx_root_def root_at_def fs_wf_def fs_canonicalize_def split: option.splits)
  have run: "confined_step R ?parent rs w (snd (nest p (invocation_params_new (cx_root ctx) (Some c)) j (emit evs w)))"
    if c: "caps_contains ?parent c" for c evs
  proof -
    obtain r w' where n: "nest p (invocation_params_new (cx_root ctx) (Some c)) j (emit evs w) = (r, w')"
      by fastforce
    have "confined_step R c rs (emit evs w) w'"
      using nest n wf root unfolding nest_confined_def
      by (metis emit_simps(2) invocation_params_new_def invocation_params.select_convs)
    then have "confined_step R ?parent rs (emit evs w) w'"
      using narrow [OF c] by (auto simp: confined_step_def)
    moreover have "confined_step R ?parent rs w (emit evs w)" using wf by (simp add: confined_quiet)
    ultimately show ?thesis using n confined_trans by simp
  qed
  show ?thesis
    using wf run by (simp add: cx_invoke_tool_def Let_def confined_quiet split: option.split)
qed

lemma run_prog_confined:
  assumes nest: "nest_confined R rs nest"
    and env: "has_envelope (app_policy a)"
  shows "run_prog a nest ctx p w = (r, w') \<Longrightarrow> fs_wf (fs w) \<Longrightarrow>
         root_at (fs w) (cx_workspace_root ctx) rs \<Longrightarrow>
         confined_step R (cx_effective_capabilities ctx) rs w w'"
proof (induction p arbitrary: w)
  have rest: "confined_step R (cx_effective_capabilities ctx) rs w w'"
    if run: "continue rw (\<lambda>x. run_prog a nest ctx (k x)) = (r, w')"
      and IH: "\<And>x w1. run_prog a nest ctx (k x) w1 = (r, w') \<Longrightarrow> fs_wf (fs w1) \<Longrightarrow>
         root_at (fs w1) (cx_workspace_root ctx) rs \<Longrightarrow>
         confined_step R (cx_effective_capabilities ctx) rs w1 w'"
      and at: "root_at (fs w) (cx_workspace_root ctx) rs"
      and step: "confined_step R (cx_effective_capabilities ctx) rs w (snd rw)"
    for rw :: "'q exec \<times> world" and k w
  proof (rule continue_confined [OF run step])
    fix x w1 assume rw: "rw = (Done x, w1)" and more: "run_prog a nest ctx (k x) w1 = (r, w')"
    from step rw have wf1: "fs_wf (fs w1)" and shape: "same_shape (fs w) (fs w1)"
      by (auto simp: confined_step_def)
    show "confined_step R (cx_effective_capabilities ctx) rs w1 w'"
      by (rule IH [OF more wf1 same_shape_root_at [OF shape at]])
  qed
  {
    case (CallReadFile path k)
    show ?case
      by (rule rest [OF CallReadFile.prems(1) [unfolded run_prog.simps] CallReadFile.IH [OF rangeI]
            CallReadFile.prems(3) read_confined [OF CallReadFile.prems(2)]])
  next
    case (CallWriteFile path c k)
    show ?case
      by (rule rest [OF CallWriteFile.prems(1) [unfolded run_prog.simps] CallWriteFile.IH [OF rangeI]
            CallWriteFile.prems(3) write_confined [OF CallWriteFile.prems(2) env CallWriteFile.prems(3)]])
  next
    case (CallFetchUrl u k)
    show ?case
      by (rule rest [OF CallFetchUrl.prems(1) [unfolded run_prog.simps] CallFetchUrl.IH [OF rangeI]
            CallFetchUrl.prems(3) fetch_confined [OF CallFetchUrl.prems(2)]])
  next
    case (CallSessionLoad s k)
    show ?case
      by (rule rest [OF CallSessionLoad.prems(1) [unfolded run_prog.simps] CallSessionLoad.IH [OF rangeI]
            CallSessionLoad.prems(3) load_confined [OF CallSessionLoad.prems(2)]])
  next
    case (CallSessionSave s bs k)
    show ?case
      by (rule rest [OF CallSessionSave.prems(1) [unfolded run_prog.simps] CallSessionSave.IH [OF rangeI]
            CallSessionSave.prems(3) save_confined [OF CallSessionSave.prems(2,3)]])
  next
    case (CallInvokeTool path c j k)
    show ?case
      by (rule rest [OF CallInvokeTool.prems(1) [unfolded run_prog.simps] CallInvokeTool.IH [OF rangeI]
            CallInvokeTool.prems(3) nested_confined [OF nest CallInvokeTool.prems(2,3)]])
  next
    case (EmitAudit evs p)
    have "confined_step R (cx_effective_capabilities ctx) rs w (emit evs w)"
      using EmitAudit.prems(2) by (simp add: confined_quiet)
    moreover have "confined_step R (cx_effective_capabilities ctx) rs (emit evs w) w'"
      using EmitAudit.IH [of "emit evs w"] EmitAudit.prems by simp
    ultimately show ?case by (rule confined_trans)
  }
qed (simp_all add: confined_quiet)

lemma app_invoke_confined:
  assumes env: "has_envelope (app_policy a)" and names: "\<forall>n \<in> set rs. good_name n"
  shows "app_invoke n a path params payload w = (r, w') \<Longrightarrow> fs_wf (fs w) \<Longrightarrow>
         (\<And>p. fs_canonicalize (fs w) (params_workspace_root params) = Ok p \<Longrightarrow> p = path_of_names rs) \<Longrightarrow>
         confined_step R (effective_capabilities a path params) rs w w'"
proof (induction n arbitrary: path params payload w r w')
  case 0
  then show ?case by (simp add: confined_quiet)
next
  case (Suc n)
  have nest: "nest_confined R rs (app_invoke n a)"
    unfolding nest_confined_def
  proof (intro allI impI)
    fix path params payload w r w' c
    assume "app_invoke n a path params payload w = (r, w')" "fs_wf (fs w)"
      and caps: "capabilities_override params = Some c"
      and "\<forall>p. fs_canonicalize (fs w) (params_workspace_root params) = Ok p \<longrightarrow> p = path_of_names rs"
    then have "confined_step R (effective_capabilities a path params) rs w w'"
      by (intro Suc.IH) auto
    with caps show "confined_step R c rs w w'" by (simp add: effective_capabilities_def)
  qed
  show ?case
  proof (cases "app_tools a path")
    case None
    with Suc.prems show ?thesis by (simp add: app_invoke_with_def confined_quiet)
  next
    case (Some t)
    let ?reg = "tool_registration_of t"
    show ?thesis
    proof (cases "app_tool_context_new (fs w) path ?reg params")
      case (Inl e)
      with Some Suc.prems show ?thesis by (simp add: app_invoke_with_def confined_quiet)
    next
      case (Inr ctx)
      have root: "canonical_root_existing (fs w) (params_workspace_root params) = Ok (cx_workspace_root ctx)"
        and caps: "cx_effective_capabilities ctx = effective_capabilities a path params"
        using app_tool_context_new_Ok [OF Some Inr] by simp_all
      have at: "root_at (fs w) (cx_workspace_root ctx) rs"
        by (rule canonical_root_existing_names [OF Suc.prems(2) root Suc.prems(3) names])
      let ?evs = "invocation_start_events path t ctx"
      have run: "continue (run_prog a (app_invoke n a) ctx (registered_tool_invoke t ctx payload)
            (emit ?evs w)) (\<lambda>result w2. (Done result, emit (invocation_result_events result @ [SpanExit]) w2))
          = (r, w')"
        using Suc.prems(1) by (simp add: app_invoke_with_run [OF Some Inr])
      obtain x w1 where body: "run_prog a (app_invoke n a) ctx (registered_tool_invoke t ctx payload)
          (emit ?evs w) = (x, w1)" by fastforce
      have start: "confined_step R c rs w (emit ?evs w)" for c
        using Suc.prems(2) by (simp add: confined_quiet)
      have inner: "confined_step R (effective_capabilities a path params) rs (emit ?evs w) w1"
        using run_prog_confined [OF nest env body] Suc.prems(2) at unfolding caps emit_simps by blast
      show ?thesis
      proof (rule confined_trans [OF start])
        show "confined_step R (effective_capabilities a path params) rs (emit ?evs w) w'"
        proof (rule continue_confined [OF run])
          show "confined_step R (effective_capabilities a path params) rs (emit ?evs w)
              (snd (run_prog a (app_invoke n a) ctx (registered_tool_invoke t ctx payload) (emit ?evs w)))"
            using inner body by simp
        next
          fix y w2 assume "run_prog a (app_invoke n a) ctx (registered_tool_invoke t ctx payload)
              (emit ?evs w) = (Done y, w2)"
            and "(Done y, emit (invocation_result_events y @ [SpanExit]) w2) = (r, w')"
          with inner body show "confined_step R (effective_capabilities a path params) rs w2 w'"
            by (auto simp: confined_step_def intro!: quiet)
        qed
      qed
    qed
  qed
qed

lemma app_invoke_nest:
  assumes "has_envelope (app_policy a)" and "\<forall>n \<in> set rs. good_name n"
  shows "nest_confined R rs (app_invoke n a)"
  unfolding nest_confined_def
proof (intro allI impI)
  fix path params payload w r w' c
  assume "app_invoke n a path params payload w = (r, w')" "fs_wf (fs w)"
    and caps: "capabilities_override params = Some c"
    and "\<forall>p. fs_canonicalize (fs w) (params_workspace_root params) = Ok p \<longrightarrow> p = path_of_names rs"
  then have "confined_step R (effective_capabilities a path params) rs w w'"
    by (intro app_invoke_confined [OF assms]) auto
  with caps show "confined_step R c rs w w'" by (simp add: effective_capabilities_def)
qed

end

section \<open>Registrations of tools\<close>

text \<open>Registering the tools of a list, one after the other; a failed registration is dropped.\<close>

definition register_all :: "nat \<Rightarrow> (string \<times> ('i, 'o) tool_impl) list \<Rightarrow> app \<Rightarrow> app" where
  "register_all now tools a = fold (\<lambda>(path, tool) a. snd (app_register now path tool a)) tools a"

lemma app_register_eq:
  "app_register now path tool a =
     (if app_tools a path \<noteq> None then (Err (DuplicateTool (debug_str path)), a)
      else if tool_name (impl_spec tool) = [] then (Err InvalidSpec, a)
      else (Ok (), a\<lparr>app_tools := (app_tools a)(path \<mapsto>
              \<lparr>tool_registration_of = \<lparr>reg_spec = impl_spec tool, registered_at = now\<rparr>,
               tool_adapter = adapter_invoke app_spans tool\<rparr>)\<rparr>))"
  by (simp add: app_register_def registered_tool_from_tool_def tool_registration_new_def)

text \<open>C36: the first valid registration of a path wins: after any sequence of registrations, a path
  that had no tool leads to the adapter of the first listed tool for it whose name is not
  empty; a path that had one keeps it; later registrations of the path are refused.\<close>

theorem first_registration_wins:
  "app_tools (register_all now tools a) path =
     (case app_tools a path of
        Some t \<Rightarrow> Some t
      | None \<Rightarrow>
          map_option (\<lambda>(_, tool).
              \<lparr>tool_registration_of = \<lparr>reg_spec = impl_spec tool, registered_at = now\<rparr>,
               tool_adapter = adapter_invoke app_spans tool\<rparr>)
            (find (\<lambda>(p, tool). p = path \<and> tool_name (impl_spec tool) \<noteq> []) tools))"
proof (induction tools arbitrary: a)
  case Nil
  show ?case by (simp add: register_all_def split: option.split)
next
  case (Cons x tools)
  obtain p tool where x: "x = (p, tool)" by fastforce
  have step: "register_all now ((p, tool) # tools) a = register_all now tools (snd (app_register now p tool a))"
    by (simp add: register_all_def)
  show ?case
    unfolding x step Cons.IH
    by (auto simp: app_register_eq split: option.split)
qed

end
