(* ===== verification/Tool_Builtin.thy ===== *)
theory Tool_Builtin
  imports App
begin

text \<open>
  \<open>crates/tool-builtin\<close>: the tools \<open>read_file\<close>, \<open>write_file\<close> and \<open>double\<close>, as programs over
  the context of an invocation.
\<close>

section \<open>Reading a file\<close>

record read_file_input =
  rf_path :: string

record read_file_output =
  rf_content :: string

definition read_file_into_outcome :: "read_file_output \<Rightarrow> tool_outcome" where
  "read_file_into_outcome out =
     \<lparr>out_payload = json_object [(''content'', JString (rf_content out))],
      out_classification = WorkspaceLocal\<rparr>"

definition read_file_spec :: tool_spec where
  "read_file_spec =
     \<lparr>tool_name = ''read_file'', description = ''Read a file'',
      capabilities_of = caps_from_slice [FsRead]\<rparr>"

text \<open>\<open>payload.get(key).and_then(Value::as_str)\<close>, or a missing field.\<close>

definition required_str :: "string \<Rightarrow> json \<Rightarrow> input_error + string" where
  "required_str k payload =
     ok_or (MissingField k) (case json_get k payload of None \<Rightarrow> None | Some v \<Rightarrow> as_str v)"

definition read_file_parse_input :: "json \<Rightarrow> input_error + read_file_input" where
  "read_file_parse_input payload =
     and_then (required_str ''path'' payload) (\<lambda>p. Ok \<lparr>rf_path = p\<rparr>)"

definition read_file_execute :: "tool_context \<Rightarrow> read_file_input \<Rightarrow> read_file_output tool_prog" where
  "read_file_execute ctx input =
     CallReadFile (rf_path input) (\<lambda>r. case map_err ToolExecution r of
         Err e \<Rightarrow> Return (Err e)
       | Ok content \<Rightarrow> Return (Ok \<lparr>rf_content = content\<rparr>))"

definition ReadFileTool :: "(read_file_input, read_file_output) tool_impl" where
  "ReadFileTool =
     \<lparr>impl_spec = read_file_spec, impl_parse_input = read_file_parse_input,
      impl_execute = read_file_execute, impl_into_outcome = read_file_into_outcome\<rparr>"

section \<open>Writing a file\<close>

record write_file_input =
  wf_path :: string
  wf_content :: string

definition write_file_into_outcome :: "unit \<Rightarrow> tool_outcome" where
  "write_file_into_outcome out =
     \<lparr>out_payload = json_object [(''ok'', JBool True)], out_classification = Public\<rparr>"

definition write_file_spec :: tool_spec where
  "write_file_spec =
     \<lparr>tool_name = ''write_file'', description = ''Write a file'',
      capabilities_of = caps_from_slice [FsWrite]\<rparr>"

definition write_file_parse_input :: "json \<Rightarrow> input_error + write_file_input" where
  "write_file_parse_input payload =
     and_then (required_str ''path'' payload) (\<lambda>p.
     and_then (required_str ''content'' payload) (\<lambda>c.
     Ok \<lparr>wf_path = p, wf_content = c\<rparr>))"

definition write_file_execute :: "tool_context \<Rightarrow> write_file_input \<Rightarrow> unit tool_prog" where
  "write_file_execute ctx input =
     CallWriteFile (wf_path input) (wf_content input) (\<lambda>r. case map_err ToolExecution r of
         Err e \<Rightarrow> Return (Err e)
       | Ok _ \<Rightarrow> Return (Ok ()))"

definition WriteFileTool :: "(write_file_input, unit) tool_impl" where
  "WriteFileTool =
     \<lparr>impl_spec = write_file_spec, impl_parse_input = write_file_parse_input,
      impl_execute = write_file_execute, impl_into_outcome = write_file_into_outcome\<rparr>"

section \<open>Invoking a tool twice\<close>

definition double_spec :: tool_spec where
  "double_spec =
     \<lparr>tool_name = ''double'', description = ''Invoke a tool twice, picking the latter outcome.'',
      capabilities_of = caps_from_slice []\<rparr>"

definition double_parse_input :: "json \<Rightarrow> input_error + string \<times> json" where
  "double_parse_input payload =
     and_then (ok_or (MissingField ''path'') (json_get ''path'' payload)) (\<lambda>path_value.
     and_then (decode_tool_path path_value) (\<lambda>path.
     and_then (ok_or (MissingField ''payload'') (json_get ''payload'' payload)) (\<lambda>inner.
     Ok (path, inner))))"

definition double_execute :: "tool_context \<Rightarrow> string \<times> json \<Rightarrow> tool_outcome tool_prog" where
  "double_execute ctx input =
     CallInvokeTool (fst input) None (snd input) (\<lambda>first. case first of
         Err e \<Rightarrow> Return (Err e)
       | Ok _ \<Rightarrow>
           CallInvokeTool (fst input) None (snd input) (\<lambda>second. case second of
               Err e \<Rightarrow> Return (Err e)
             | Ok outcome \<Rightarrow> Return (Ok outcome)))"

definition Double :: "(string \<times> json, tool_outcome) tool_impl" where
  "Double =
     \<lparr>impl_spec = double_spec, impl_parse_input = double_parse_input,
      impl_execute = double_execute, impl_into_outcome = (\<lambda>out. out)\<rparr>"

lemmas tool_builtin_defs =
  ReadFileTool_def read_file_spec_def read_file_parse_input_def read_file_execute_def
  WriteFileTool_def write_file_spec_def write_file_parse_input_def write_file_execute_def
  Double_def double_spec_def double_parse_input_def double_execute_def

section \<open>An application with the three tools\<close>

text \<open>The registrations of the demo, without the Monty tools.\<close>

definition builtin_app :: "registration list \<Rightarrow> app" where
  "builtin_app ops =
     fold app_register_policy ops
       (snd (app_register 0 ''double'' Double
         (snd (app_register 0 ''read_file'' ReadFileTool
           (snd (app_register 0 ''write_file'' WriteFileTool app_new))))))"

definition builtin_tool :: "string \<Rightarrow> registered_tool option" where
  "builtin_tool path =
     (if path = ''write_file'' then
        Some \<lparr>tool_registration_of = \<lparr>reg_spec = write_file_spec, registered_at = 0\<rparr>,
              tool_adapter = adapter_invoke app_spans WriteFileTool\<rparr>
      else if path = ''read_file'' then
        Some \<lparr>tool_registration_of = \<lparr>reg_spec = read_file_spec, registered_at = 0\<rparr>,
              tool_adapter = adapter_invoke app_spans ReadFileTool\<rparr>
      else if path = ''double'' then
        Some \<lparr>tool_registration_of = \<lparr>reg_spec = double_spec, registered_at = 0\<rparr>,
              tool_adapter = adapter_invoke app_spans Double\<rparr>
      else None)"

lemma app_register_policy_tools [simp]: "app_tools (fold app_register_policy ops a) = app_tools a"
  by (induction ops arbitrary: a) (simp_all add: app_register_policy_def)

lemma builtin_app_tools [simp]: "app_tools (builtin_app ops) = builtin_tool"
  by (rule ext)
    (simp add: builtin_app_def builtin_tool_def app_register_def registered_tool_from_tool_def
      tool_registration_new_def app_new_def tool_builtin_defs)

lemma app_register_policy_policy:
  "app_policy (fold app_register_policy ops a) = fold apply_registration ops (app_policy a)"
  by (induction ops arbitrary: a) (simp_all add: app_register_policy_def app_policy_def)

lemma app_register_policy_kept [simp]: "app_policy (snd (app_register now path tool a)) = app_policy a"
  by (simp add: app_register_def app_policy_def split: sum.split)

lemma app_new_policy: "app_policy app_new = apply_registration (PrependInbound CapabilityEnvelopePolicy) pipeline_new"
  by (simp add: app_new_def app_policy_def kernel_runtime_new_def)

lemma app_new_envelope: "has_envelope (app_policy app_new)"
  by (simp add: app_new_policy has_envelope_def pipeline_op_defs registry_op_defs Let_def
      inbound_policies_def CapabilityEnvelopePolicy_def)

lemma builtin_app_envelope: "has_envelope (app_policy (builtin_app ops))"
  unfolding builtin_app_def app_register_policy_policy
  by (intro has_envelope_fold) (simp add: app_new_envelope)

end
