(* ===== verification/Invocation_Safety.thy ===== *)
theory Invocation_Safety
  imports App_Laws Tool_Builtin
begin

text \<open>
  The instances of the effect induction of \<open>App_Laws\<close> that the design promises: no change of
  the file system without \<open>FsWrite\<close>, no change of the tree outside the workspace, no change
  of another workspace's sessions; the scope of nested invocations; no panics; all for
  arbitrary registered tools.
\<close>

section \<open>The instances\<close>

definition unwritten :: "capabilities \<Rightarrow> string list \<Rightarrow> world \<Rightarrow> world \<Rightarrow> bool" where
  "unwritten c rs w w' \<longleftrightarrow> (\<not> allows c FsWrite \<longrightarrow> fs w' = fs w)"

interpretation unwritten: confined_effect unwritten
  by unfold_locales
    (auto simp: unwritten_def dest: allows_mono write_effect_needs_FsWrite)

definition outside_kept :: "capabilities \<Rightarrow> string list \<Rightarrow> world \<Rightarrow> world \<Rightarrow> bool" where
  "outside_kept c rs w w' \<longleftrightarrow>
     (fs_wf (fs w) \<longrightarrow> links_contained (fs w) rs \<longrightarrow>
        fs_wf (fs w') \<and> links_contained (fs w') rs
        \<and> (\<forall>ms. \<not> prefix rs ms \<longrightarrow> nodes (fs w') ms = nodes (fs w) ms))"

lemma write_effect_wf: "fs_wf fsys \<Longrightarrow> write_effect caps rs fsys fsys' \<Longrightarrow> fs_wf fsys'"
  by (auto simp: write_effect_def intro: fs_write_wf)

interpretation outside: confined_effect outside_kept
proof unfold_locales
  fix w w' :: world and c rs
  assume "fs_wf (fs w)" "write_effect c rs (fs w) (fs w')"
  then show "outside_kept c rs w w'"
    unfolding outside_kept_def using write_effect_wf write_effect_links write_effect_outside by blast
qed (auto simp: outside_kept_def)

definition other_sessions_kept :: "capabilities \<Rightarrow> string list \<Rightarrow> world \<Rightarrow> world \<Rightarrow> bool" where
  "other_sessions_kept c rs w w' \<longleftrightarrow>
     poisoned (sessions w') = poisoned (sessions w)
   \<and> (\<forall>root sid. \<not> path_eq root (path_of_names rs) \<longrightarrow>
        session_map (sessions w') (components root, sid) = session_map (sessions w) (components root, sid))"

interpretation other_sessions: confined_effect other_sessions_kept
proof unfold_locales
  fix w w' :: world and k bs c rs
  assume "save_raw (sessions w) k bs = (Ok (), sessions w')" "key_workspace_root k = path_of_names rs"
  then have "sessions w' = (sessions w)
      \<lparr>session_map := (session_map (sessions w))
         ((components (path_of_names rs), key_session_id k) \<mapsto> bs)\<rparr>"
    by (auto simp: save_raw_def session_key_order_def split: if_splits)
  then show "other_sessions_kept c rs w w'"
    by (simp add: other_sessions_kept_def path_eq_def)
qed (auto simp: other_sessions_kept_def)

section \<open>What an invocation changes\<close>

lemma canonical_names:
  assumes "fs_wf fsys"
  obtains rs where "\<forall>n \<in> set rs. good_name n"
    and "\<And>p. fs_canonicalize fsys q = Ok p \<Longrightarrow> p = path_of_names rs"
proof (cases "fs_canonicalize fsys q")
  case (Inl e)
  then show ?thesis using that [of "[]"] by simp
next
  case (Inr c)
  from fs_canonicalize_Ok [OF assms Inr] show ?thesis using that Inr by (metis Inr_inject)
qed

text \<open>C1: an invocation whose effective capabilities lack \<open>FsWrite\<close> leaves the whole file system as
  it was, whatever tools are registered, whatever they call (nested invocations with any
  overrides, Monty scripts) and whether it returns, fails or panics.\<close>

theorem invocation_without_FsWrite:
  assumes "has_envelope (app_policy a)" and "fs_wf (fs w)"
    and "\<not> allows (effective_capabilities a path params) FsWrite"
    and "app_invoke n a path params payload w = (r, w')"
  shows "fs w' = fs w"
proof (rule canonical_names [OF assms(2)])
  fix rs assume rs: "\<forall>n \<in> set rs. good_name n"
    "\<And>p. fs_canonicalize (fs w) (params_workspace_root params) = Ok p \<Longrightarrow> p = path_of_names rs"
  from unwritten.app_invoke_confined [OF assms(1) rs(1) assms(4,2) rs(2)] assms(3)
  show ?thesis by (simp add: confined_step_def unwritten_def)
qed

text \<open>C2: an invocation changes no node outside its canonical workspace root, whatever tools are
  registered and however they nest, as long as the links under the root lead nowhere else
  when it starts; they still do not when it ends.\<close>

theorem invocation_stays_in_workspace:
  assumes "has_envelope (app_policy a)" and "fs_wf (fs w)"
    and "fs_canonicalize (fs w) (params_workspace_root params) = Ok (path_of_names rs)"
    and "\<forall>n \<in> set rs. good_name n" and "links_contained (fs w) rs"
    and "app_invoke n a path params payload w = (r, w')"
  shows "(\<forall>ms. \<not> prefix rs ms \<longrightarrow> nodes (fs w') ms = nodes (fs w) ms)
       \<and> fs_wf (fs w') \<and> links_contained (fs w') rs"
proof -
  have "confined_step outside_kept (effective_capabilities a path params) rs w w'"
    by (rule outside.app_invoke_confined [OF assms(1,4,6,2)]) (use assms(3) in simp)
  with assms(2,5) show ?thesis by (simp add: confined_step_def outside_kept_def)
qed

text \<open>An invocation changes no Monty session of another workspace, and never poisons the
  session store.\<close>

theorem invocation_keeps_other_sessions:
  assumes "has_envelope (app_policy a)" and "fs_wf (fs w)"
    and "fs_canonicalize (fs w) (params_workspace_root params) = Ok root"
    and "\<not> path_eq other root"
    and "app_invoke n a path params payload w = (r, w')"
  shows "load_raw (sessions w') (monty_session_key_new other sid)
       = load_raw (sessions w) (monty_session_key_new other sid)"
proof -
  from fs_canonicalize_Ok [OF assms(2,3)] obtain rs where
    rs: "root = path_of_names rs" "\<forall>n \<in> set rs. good_name n" by metis
  have "confined_step other_sessions_kept (effective_capabilities a path params) rs w w'"
    by (rule other_sessions.app_invoke_confined [OF assms(1) rs(2) assms(5,2)]) (use assms(3) rs in simp)
  with assms(4) rs(1) show ?thesis
    by (simp add: confined_step_def other_sessions_kept_def load_raw_def session_key_order_def
        monty_session_key_new_def)
qed

section \<open>Nested scopes\<close>

text \<open>C3: a nested invocation never gets more than its parent has. An override outside the parent's
  effective capabilities is refused before the child is looked up: the only effect is one
  WARN record of the attempt. Every other nested invocation runs the child in the parent's
  canonical workspace with effective capabilities contained in the parent's.\<close>

theorem nested_scope:
  "(\<exists>caps. caps_override = Some caps
      \<and> \<not> caps_contains (cx_effective_capabilities ctx) caps
      \<and> cx_invoke_tool (app_invoke n a) ctx path caps_override payload w =
          (Done (Err (ToolAuthorization (Denied (authorization_deny_new
              ''nested invocation attempted to expand capabilities'')))),
           emit (nested_scope_event ctx path caps_override None True) w))
   \<or> (\<exists>child. caps_contains (cx_effective_capabilities ctx) (effective_capabilities a path child)
      \<and> params_workspace_root child = cx_root ctx
      \<and> cx_invoke_tool (app_invoke n a) ctx path caps_override payload w =
          app_invoke n a path child payload
            (emit (nested_scope_event ctx path caps_override
               (Some (effective_capabilities a path child)) False) w))"
proof (cases "\<exists>caps. caps_override = Some caps \<and> \<not> caps_contains (cx_effective_capabilities ctx) caps")
  case True
  then show ?thesis by (auto simp: cx_invoke_tool_def Let_def)
next
  case False
  define eff where "eff = (case caps_override of Some c \<Rightarrow> c | None \<Rightarrow> cx_effective_capabilities ctx)"
  let ?child = "invocation_params_new (cx_root ctx) (Some eff)"
  have "caps_contains (cx_effective_capabilities ctx) eff"
    using False by (auto simp: eff_def split: option.splits)
  moreover have "effective_capabilities a path ?child = eff"
    by (simp add: effective_capabilities_def invocation_params_new_def)
  moreover have "cx_invoke_tool (app_invoke n a) ctx path caps_override payload w =
      app_invoke n a path ?child payload
        (emit (nested_scope_event ctx path caps_override (Some eff) False) w)"
    using False by (auto simp: cx_invoke_tool_def eff_def Let_def split: option.splits)
  moreover have "params_workspace_root ?child = cx_root ctx"
    by (simp add: invocation_params_new_def)
  ultimately show ?thesis by metis
qed

section \<open>Panics\<close>

text \<open>The only panics of the host are those of \<open>FsAccess::new\<close>, which canonicalizes the root once
  more; a tool can also panic by itself.\<close>

definition panicked :: "'r exec \<Rightarrow> bool" where
  "panicked x = (case x of Panicked m \<Rightarrow> True | _ \<Rightarrow> False)"

lemma panicked_simps [simp]:
  "panicked (Panicked m)" "\<not> panicked (Done r)" "\<not> panicked OutOfFuel"
  by (simp_all add: panicked_def)

definition canonicalize_stable :: "file_system \<Rightarrow> bool" where
  "canonicalize_stable fsys \<longleftrightarrow> (\<forall>p. io_fault fsys OpCanonicalize p = None)"

lemma stable_same_shape: "same_shape fsys fsys' \<Longrightarrow> canonicalize_stable fsys \<Longrightarrow> canonicalize_stable fsys'"
  by (simp add: canonicalize_stable_def same_shape_def)

lemma cx_fs_runs:
  assumes "fs_wf (fs w)" and "canonicalize_stable (fs w)" and "root_at (fs w) (cx_workspace_root ctx) rs"
  shows "\<exists>acc. cx_fs ctx w = Done acc"
  using assms fs_resolve_names [of "fs w" rs False]
  by (simp add: cx_fs_def fs_access_new_def canonical_root_existing_def canonical_path_existing_def
      fs_canonicalize_def canonicalize_stable_def cx_root_def root_at_def fs_wf_def)

lemma with_fs_no_panic:
  assumes "fs_wf (fs w)" and "canonicalize_stable (fs w)" and "root_at (fs w) (cx_workspace_root ctx) rs"
  shows "\<not> panicked (fst (with_fs ctx f w))"
  using cx_fs_runs [OF assms] by (auto simp: with_fs_def returned_def)

definition nest_no_panic :: "invoker \<Rightarrow> bool" where
  "nest_no_panic nest \<longleftrightarrow>
     (\<forall>path params payload w. fs_wf (fs w) \<longrightarrow> canonicalize_stable (fs w) \<longrightarrow>
        \<not> panicked (fst (nest path params payload w)))"

lemma cx_invoke_tool_no_panic:
  "nest_no_panic nest \<Longrightarrow> fs_wf (fs w) \<Longrightarrow> canonicalize_stable (fs w) \<Longrightarrow>
   \<not> panicked (fst (cx_invoke_tool nest ctx p c j w))"
  by (simp add: nest_no_panic_def cx_invoke_tool_def Let_def split: option.split)

lemma continue_no_panic:
  assumes "continue rw k = (r, w')" and "\<not> panicked (fst rw)"
    and "\<And>x w1. rw = (Done x, w1) \<Longrightarrow> k x w1 = (r, w') \<Longrightarrow> \<not> panicked r"
  shows "\<not> panicked r"
proof (cases rw)
  case (Pair x w1)
  with assms show ?thesis by (cases x) auto
qed

lemma returned_no_panic: "\<not> panicked (fst (returned x))"
  by (simp add: returned_def)

lemma run_prog_no_panic:
  assumes nest: "nest_confined unwritten rs nest" and nest': "nest_no_panic nest"
    and env: "has_envelope (app_policy a)"
  shows "run_prog a nest ctx p w = (r, w') \<Longrightarrow> panic_free p \<Longrightarrow> fs_wf (fs w) \<Longrightarrow>
         canonicalize_stable (fs w) \<Longrightarrow> root_at (fs w) (cx_workspace_root ctx) rs \<Longrightarrow> \<not> panicked r"
proof (induction p arbitrary: w)
  have rest: "\<not> panicked r"
    if run: "continue rw (\<lambda>x. run_prog a nest ctx (k x)) = (r, w')"
      and IH: "\<And>x w1. run_prog a nest ctx (k x) w1 = (r, w') \<Longrightarrow> panic_free (k x) \<Longrightarrow> fs_wf (fs w1) \<Longrightarrow>
         canonicalize_stable (fs w1) \<Longrightarrow> root_at (fs w1) (cx_workspace_root ctx) rs \<Longrightarrow> \<not> panicked r"
      and free: "\<forall>x. panic_free (k x)"
      and stable: "canonicalize_stable (fs w)"
      and at: "root_at (fs w) (cx_workspace_root ctx) rs"
      and step: "confined_step unwritten (cx_effective_capabilities ctx) rs w (snd rw)"
      and first: "\<not> panicked (fst rw)"
    for rw :: "'q exec \<times> world" and k w
  proof (rule continue_no_panic [OF run first])
    fix x w1 assume rw: "rw = (Done x, w1)" and more: "run_prog a nest ctx (k x) w1 = (r, w')"
    from step rw have wf1: "fs_wf (fs w1)" and shape: "same_shape (fs w) (fs w1)"
      by (auto simp: confined_step_def)
    show "\<not> panicked r"
      by (rule IH [OF more free [rule_format] wf1 stable_same_shape [OF shape stable]
            same_shape_root_at [OF shape at]])
  qed
  {
    case (CallReadFile path k)
    show ?case
      by (rule rest [OF CallReadFile.prems(1) [unfolded run_prog.simps] CallReadFile.IH [OF rangeI]
            CallReadFile.prems(2) [unfolded panic_free.simps] CallReadFile.prems(4,5)
            unwritten.read_confined [OF CallReadFile.prems(3)]
            with_fs_no_panic [OF CallReadFile.prems(3-5)]])
  next
    case (CallWriteFile path c k)
    show ?case
      by (rule rest [OF CallWriteFile.prems(1) [unfolded run_prog.simps] CallWriteFile.IH [OF rangeI]
            CallWriteFile.prems(2) [unfolded panic_free.simps] CallWriteFile.prems(4,5)
            unwritten.write_confined [OF CallWriteFile.prems(3) env CallWriteFile.prems(5)]
            with_fs_no_panic [OF CallWriteFile.prems(3-5)]])
  next
    case (CallFetchUrl u k)
    show ?case
      by (rule rest [OF CallFetchUrl.prems(1) [unfolded run_prog.simps] CallFetchUrl.IH [OF rangeI]
            CallFetchUrl.prems(2) [unfolded panic_free.simps] CallFetchUrl.prems(4,5)
            unwritten.fetch_confined [OF CallFetchUrl.prems(3)]
            returned_no_panic])
  next
    case (CallSessionLoad s k)
    show ?case
      by (rule rest [OF CallSessionLoad.prems(1) [unfolded run_prog.simps] CallSessionLoad.IH [OF rangeI]
            CallSessionLoad.prems(2) [unfolded panic_free.simps] CallSessionLoad.prems(4,5)
            unwritten.load_confined [OF CallSessionLoad.prems(3)]
            returned_no_panic])
  next
    case (CallSessionSave s bs k)
    show ?case
      by (rule rest [OF CallSessionSave.prems(1) [unfolded run_prog.simps] CallSessionSave.IH [OF rangeI]
            CallSessionSave.prems(2) [unfolded panic_free.simps] CallSessionSave.prems(4,5)
            unwritten.save_confined [OF CallSessionSave.prems(3,5)]
            returned_no_panic])
  next
    case (CallInvokeTool path c j k)
    show ?case
      by (rule rest [OF CallInvokeTool.prems(1) [unfolded run_prog.simps] CallInvokeTool.IH [OF rangeI]
            CallInvokeTool.prems(2) [unfolded panic_free.simps] CallInvokeTool.prems(4,5)
            unwritten.nested_confined [OF nest CallInvokeTool.prems(3,5)]
            cx_invoke_tool_no_panic [OF nest' CallInvokeTool.prems(3,4)]])
  }
qed auto

lemma invocation_panic_safe:
  assumes env: "has_envelope (app_policy a)"
    and tools: "\<forall>path t ctx payload. app_tools a path = Some t \<longrightarrow> panic_free (tool_adapter t ctx payload)"
    and "fs_wf (fs w)" and "canonicalize_stable (fs w)"
  shows "\<not> panicked (fst (app_invoke n a path params payload w))"
  using assms(3,4)
proof (induction n arbitrary: path params payload w)
  case 0
  then show ?case by simp
next
  case (Suc n)
  have nest': "nest_no_panic (app_invoke n a)"
    using Suc.IH by (simp add: nest_no_panic_def)
  show ?case
  proof (cases "app_tools a path")
    case None
    then show ?thesis by (simp add: app_invoke_with_def)
  next
    case (Some t)
    show ?thesis
    proof (cases "app_tool_context_new (fs w) path (tool_registration_of t) params")
      case (Inl e)
      with Some show ?thesis by (simp add: app_invoke_with_def)
    next
      case (Inr ctx)
      from app_tool_context_new_Ok [OF Some Inr] canonical_root_existing_at [OF Suc.prems(1)]
      obtain rs where at: "root_at (fs w) (cx_workspace_root ctx) rs" by metis
      have nest: "nest_confined unwritten rs (app_invoke n a)"
        using at unwritten.app_invoke_nest [OF env] by (simp add: root_at_def)
      let ?w = "emit (invocation_start_events path t ctx) w"
      have "panic_free (registered_tool_invoke t ctx payload)"
        using tools Some by (simp add: registered_tool_invoke_def)
      then have "\<not> panicked (fst (run_prog a (app_invoke n a) ctx (registered_tool_invoke t ctx payload) ?w))"
        using run_prog_no_panic [OF nest nest' env, where w = ?w] Suc.prems at
        by (metis emit_simps(2) prod.collapse)
      then show ?thesis
        by (auto simp: app_invoke_with_run [OF Some Inr] continue_def split: prod.splits exec.splits)
    qed
  qed
qed

text \<open>C7: when the tools' own code does not panic and canonicalization does not fail for reasons
  outside the tree, no invocation panics: the root that \<open>FsAccess::new\<close> expects to exist still
  does, because no tool can remove it.\<close>

theorem invocation_never_panics:
  assumes "has_envelope (app_policy a)"
    and "\<forall>path t ctx payload. app_tools a path = Some t \<longrightarrow> panic_free (tool_adapter t ctx payload)"
    and "fs_wf (fs w)" and "canonicalize_stable (fs w)"
  shows "\<not> panicked (fst (app_invoke n a path params payload w))"
  using assms by (rule invocation_panic_safe)

section \<open>Runs of a concrete application\<close>

text \<open>The built-in tools under the workspace policies, on the sample tree.\<close>

definition workspace_app :: app where
  "workspace_app = builtin_app
     [Append TFsAction (box_policy as_fs_action AllowWorkspaceFsPolicy),
      Append TFsReadAction (box_policy as_fs_read AllowWorkspaceReadPolicy),
      Append TFsWriteAction (box_policy as_fs_write AllowWorkspaceWritePolicy)]"

definition write_payload :: json where
  "write_payload = JObject [(''content'', JString ''data''), (''path'', JString ''hello.txt'')]"

lemma builtin_tools_panic_free:
  "builtin_tool path = Some t \<Longrightarrow> panic_free (tool_adapter t ctx payload)"
  by (auto simp: builtin_tool_def ReadFileTool_def WriteFileTool_def Double_def read_file_execute_def
      write_file_execute_def double_execute_def intro!: panic_free_adapter split: if_splits sum.splits)

lemma workspace_app_envelope: "has_envelope (app_policy workspace_app)"
  by (simp add: workspace_app_def builtin_app_envelope)

lemma sample_world_wf: "fs_wf (fs (initial_world sample_fs))"
  by (simp add: sample_fs_wf)

lemma sample_fs_stable: "canonicalize_stable sample_fs"
  by (simp add: canonicalize_stable_def sample_fs_def)

lemma sample_world_root: "fs_canonicalize (fs (initial_world sample_fs)) ''/ws'' = Ok (path_of_names [''ws''])"
  by code_simp

lemma denied_write_run:
  "(case fst (app_invoke 1 workspace_app ''write_file'' (invocation_params_new ''/ws'' (Some (caps_from_slice [FsRead])))
       write_payload (initial_world sample_fs)) of
      Done (Err (ToolExecution (ExecAuthorization e))) \<Rightarrow>
        denied_reason e = Some ''action exceeds declared capability envelope''
    | _ \<Rightarrow> False)"
  by code_simp

lemma allowed_write_run:
  "fst (app_invoke 1 workspace_app ''write_file'' (invocation_params_new ''/ws'' None)
       write_payload (initial_world sample_fs))
   = Done (Ok \<lparr>out_payload = JObject [(''ok'', JBool True)], out_classification = Public\<rparr>)"
  by code_simp

theorem invocation_without_FsWrite_witness:
  "\<exists>e w'. app_invoke 1 workspace_app ''write_file'' (invocation_params_new ''/ws'' (Some (caps_from_slice [FsRead])))
       write_payload (initial_world sample_fs) = (Done (Err (ToolExecution (ExecAuthorization e))), w')
     \<and> denied_reason e = Some ''action exceeds declared capability envelope''
     \<and> fs w' = sample_fs"
proof -
  let ?params = "invocation_params_new ''/ws'' (Some (caps_from_slice [FsRead]))"
  obtain e w' where run: "app_invoke 1 workspace_app ''write_file'' ?params write_payload
      (initial_world sample_fs) = (Done (Err (ToolExecution (ExecAuthorization e))), w')"
    and why: "denied_reason e = Some ''action exceeds declared capability envelope''"
    using denied_write_run
    by (cases "app_invoke 1 workspace_app ''write_file'' ?params write_payload (initial_world sample_fs)")
      (auto split: exec.splits sum.splits tool_error.splits execution_error.splits)
  have "\<not> allows (effective_capabilities workspace_app ''write_file'' ?params) FsWrite"
    by (simp add: effective_capabilities_def invocation_params_new_def caps_from_slice_allows)
  from invocation_without_FsWrite [OF workspace_app_envelope sample_world_wf this run] run why
  show ?thesis by simp
qed

theorem invocation_stays_in_workspace_witness:
  "\<exists>w'. app_invoke 1 workspace_app ''write_file'' (invocation_params_new ''/ws'' None)
         write_payload (initial_world sample_fs)
       = (Done (Ok \<lparr>out_payload = JObject [(''ok'', JBool True)], out_classification = Public\<rparr>), w')
     \<and> nodes (fs w') [''etc'', ''passwd''] = Some (RegularFile ''root'')"
proof -
  let ?params = "invocation_params_new ''/ws'' None"
  obtain w' where run: "app_invoke 1 workspace_app ''write_file'' ?params write_payload (initial_world sample_fs)
      = (Done (Ok \<lparr>out_payload = JObject [(''ok'', JBool True)], out_classification = Public\<rparr>), w')"
    using allowed_write_run by (metis prod.collapse)
  have root: "fs_canonicalize (fs (initial_world sample_fs)) (params_workspace_root ?params)
      = Ok (path_of_names [''ws''])"
    using sample_world_root by (simp add: invocation_params_new_def)
  have "nodes (fs w') [''etc'', ''passwd''] = nodes sample_fs [''etc'', ''passwd'']"
    using invocation_stays_in_workspace [OF workspace_app_envelope sample_world_wf root _ _ run]
    by (simp add: sample_fs_links good_name_def)
  also have "\<dots> = Some (RegularFile ''root'')" by code_simp
  finally show ?thesis using run by blast
qed

theorem invocation_keeps_other_sessions_witness:
  "load_raw (sessions (snd (app_invoke 1 workspace_app ''write_file'' (invocation_params_new ''/ws'' None)
       write_payload (initial_world sample_fs
         \<lparr>sessions := \<lparr>session_map = [(components ''/etc'', ''s'') \<mapsto> [7]], poisoned = False\<rparr>\<rparr>))))
     (monty_session_key_new ''/etc'' ''s'') = Ok (Some [7])"
proof -
  let ?w = "initial_world sample_fs
      \<lparr>sessions := \<lparr>session_map = [(components ''/etc'', ''s'') \<mapsto> [7]], poisoned = False\<rparr>\<rparr>"
  let ?params = "invocation_params_new ''/ws'' None"
  obtain r w' where run: "app_invoke 1 workspace_app ''write_file'' ?params write_payload ?w = (r, w')"
    by fastforce
  have root: "fs_canonicalize (fs ?w) (params_workspace_root ?params) = Ok (path_of_names [''ws''])"
    using sample_world_root by (simp add: invocation_params_new_def)
  have other: "\<not> path_eq ''/etc'' (path_of_names [''ws''])" by code_simp
  have "fs_wf (fs ?w)" by (simp add: sample_fs_wf)
  from invocation_keeps_other_sessions [OF workspace_app_envelope this root other run, of "''s''"] run
  show ?thesis
    by (simp add: load_raw_def monty_session_key_new_def session_key_order_def)
qed

theorem invocation_never_panics_witness:
  "\<not> panicked (fst (app_invoke 3 workspace_app ''double'' (invocation_params_new ''/ws'' None)
       write_payload (initial_world sample_fs)))"
proof (rule invocation_never_panics [OF workspace_app_envelope _ sample_world_wf])
  show "\<forall>path t ctx payload. app_tools workspace_app path = Some t \<longrightarrow> panic_free (tool_adapter t ctx payload)"
    by (simp add: workspace_app_def builtin_tools_panic_free)
  show "canonicalize_stable (fs (initial_world sample_fs))"
    by (simp add: sample_fs_stable)
qed

end
