(* ===== verification/Invocation_Depth.thy ===== *)
theory Invocation_Depth
  imports Invocation_Safety
begin

text \<open>
  The bound on the depth of nested invocations: a run that ends within one bound is the same
  run under every larger bound, and with the built-in tools the size of the payload bounds
  the depth, so an invocation of them always returns.
\<close>

section \<open>Larger bounds\<close>

definition finished :: "'r exec \<times> world \<Rightarrow> bool" where
  "finished rw \<longleftrightarrow> fst rw \<noteq> OutOfFuel"

definition extends :: "invoker \<Rightarrow> invoker \<Rightarrow> bool" where
  "extends nest nest' \<longleftrightarrow>
     (\<forall>path params payload w. finished (nest path params payload w) \<longrightarrow>
        nest' path params payload w = nest path params payload w)"

lemma continue_more:
  assumes "finished (continue rw k)"
    and "finished rw \<Longrightarrow> rw' = rw"
    and "\<And>x w1. rw = (Done x, w1) \<Longrightarrow> finished (k x w1) \<Longrightarrow> k' x w1 = k x w1"
  shows "continue rw' k' = continue rw k"
proof (cases rw)
  case (Pair x w1)
  with assms show ?thesis by (cases x) (auto simp: finished_def)
qed

lemma cx_invoke_tool_more:
  assumes "extends nest nest'" and "finished (cx_invoke_tool nest ctx p c j w)"
  shows "cx_invoke_tool nest' ctx p c j w = cx_invoke_tool nest ctx p c j w"
  using assms by (auto simp: cx_invoke_tool_def extends_def Let_def split: option.splits)

lemma run_prog_more:
  assumes ext: "extends nest nest'"
  shows "finished (run_prog a nest ctx p w) \<Longrightarrow> run_prog a nest' ctx p w = run_prog a nest ctx p w"
proof (induction p arbitrary: w)
  case (CallInvokeTool path c j k)
  from CallInvokeTool.prems show ?case
    by (auto intro!: continue_more cx_invoke_tool_more [OF ext] CallInvokeTool.IH)
qed (auto intro!: continue_more)

lemma app_invoke_extends: "extends (app_invoke n a) (app_invoke (Suc n) a)"
proof (induction n)
  case 0
  show ?case by (simp add: extends_def finished_def)
next
  case (Suc n)
  show ?case
    unfolding extends_def
  proof (intro allI impI)
    fix path params payload w
    assume fin: "finished (app_invoke (Suc n) a path params payload w)"
    show "app_invoke (Suc (Suc n)) a path params payload w = app_invoke (Suc n) a path params payload w"
    proof (cases "app_tools a path")
      case None
      then show ?thesis by (simp add: app_invoke_with_def)
    next
      case (Some t)
      show ?thesis
      proof (cases "app_tool_context_new (fs w) path (tool_registration_of t) params")
        case (Inl e)
        with Some show ?thesis by (simp add: app_invoke_with_def)
      next
        case (Inr ctx)
        show ?thesis
          using fin unfolding app_invoke.simps(2) [of "Suc n"] app_invoke.simps(2) [of n]
            app_invoke_with_run [OF Some Inr]
          by (intro continue_more run_prog_more [OF Suc.IH [unfolded app_invoke.simps(2) [of n]]])
            (auto simp: app_invoke.simps)
      qed
    qed
  qed
qed

text \<open>The depth bound only says when the model gives up: an invocation that returned or
  panicked within one bound has the same result and the same effects under every larger
  bound.\<close>

theorem invocation_depth_irrelevant:
  assumes "fst (app_invoke n a path params payload w) \<noteq> OutOfFuel" and "n \<le> m"
  shows "app_invoke m a path params payload w = app_invoke n a path params payload w"
  using assms(2,1)
proof (induction m rule: dec_induct)
  case (step m)
  then show ?case using app_invoke_extends [of m a] by (simp add: extends_def finished_def)
qed simp

section \<open>The built-in tools return\<close>

lemma json_get_size: "json_get k j = Some v \<Longrightarrow> size v < size j"
proof (cases j)
  case (JObject kvs)
  assume "json_get k j = Some v"
  then have "(k, v) \<in> set kvs" using JObject by (simp add: map_of_SomeD)
  then have "size v \<le> size_list (size_prod (\<lambda>_. 0) size) kvs"
    by (intro size_list_estimation') auto
  then show ?thesis using JObject by simp
qed auto

lemma continue_assoc: "continue (continue rw k) k' = continue rw (\<lambda>x w. continue (k x w) k')"
proof (cases rw)
  case (Pair x w)
  then show ?thesis by (cases x) simp_all
qed

lemma run_prog_bind_fun:
  "run_prog a nest ctx (bind_prog p f) =
     (\<lambda>w. continue (run_prog a nest ctx p w) (\<lambda>r. run_prog a nest ctx (f r)))"
  by (induction p) (rule ext, simp add: continue_assoc rangeI)+

lemma run_prog_bind:
  "run_prog a nest ctx (bind_prog p f) w = continue (run_prog a nest ctx p w) (\<lambda>r. run_prog a nest ctx (f r))"
  by (simp add: run_prog_bind_fun)

lemma finished_continue:
  assumes "finished rw" and "\<And>x w1. finished (k x w1)"
  shows "finished (continue rw k)"
proof (cases rw)
  case (Pair x w1)
  with assms show ?thesis by (cases x) (auto simp: finished_def)
qed

lemma finished_simps [simp]:
  "finished (Done r, w)" "finished (Panicked m, w)" "\<not> finished (OutOfFuel, w)" "finished (returned rw)"
  by (simp_all add: finished_def returned_def)

lemma finished_with_fs: "finished (with_fs ctx f w)"
  by (simp add: with_fs_def cx_fs_def fs_access_new_def split: sum.split)

lemma finished_cx_invoke_tool:
  "(\<And>params w. finished (nest p params j w)) \<Longrightarrow> finished (cx_invoke_tool nest ctx p c j w)"
  by (simp add: cx_invoke_tool_def Let_def split: option.split)

text \<open>An adapter finishes when the execution of the parsed input does.\<close>

lemma finished_adapter:
  assumes "\<And>input w. impl_parse_input inner payload = Ok input \<Longrightarrow>
      finished (run_prog a nest ctx (impl_execute inner ctx input) w)"
  shows "finished (run_prog a nest ctx (adapter_invoke spans inner ctx payload) w)"
proof (cases "impl_parse_input inner payload")
  case (Inl e)
  then show ?thesis by (simp add: adapter_invoke_def Let_def)
next
  case (Inr input)
  then show ?thesis
    by (auto simp: adapter_invoke_def Let_def run_prog_bind split: sum.split
        intro!: finished_continue assms)
qed

lemma double_parse_smaller:
  "double_parse_input payload = Ok (p, inner) \<Longrightarrow> size inner < size payload"
  by (auto simp: double_parse_input_def and_then_eq_Ok json_get_size)

lemma builtin_tool_finished:
  assumes t: "builtin_tool path = Some t"
    and nest: "\<And>p params j w. size j < size payload \<Longrightarrow> finished (nest p params j w)"
  shows "finished (run_prog a nest ctx (registered_tool_invoke t ctx payload) w)"
proof -
  have "finished (run_prog a nest ctx (read_file_execute ctx rin) w)" for rin w
    by (auto simp: read_file_execute_def intro!: finished_continue finished_with_fs split: sum.split)
  moreover have "finished (run_prog a nest ctx (write_file_execute ctx win) w)" for win w
    by (auto simp: write_file_execute_def intro!: finished_continue finished_with_fs split: sum.split)
  moreover have "finished (run_prog a nest ctx (double_execute ctx (p, inner)) w)"
    if "double_parse_input payload = Ok (p, inner)" for p inner w
    using nest [OF double_parse_smaller [OF that]]
    by (auto simp: double_execute_def intro!: finished_continue finished_cx_invoke_tool split: sum.split)
  ultimately show ?thesis
    using t by (auto simp: builtin_tool_def registered_tool_invoke_def ReadFileTool_def
        WriteFileTool_def Double_def intro!: finished_adapter split: if_splits)
qed

lemma builtin_invocation_finished:
  "size payload < n \<Longrightarrow> finished (app_invoke n (builtin_app ops) path params payload w)"
proof (induction n arbitrary: path params payload w)
  case (Suc n)
  show ?case
  proof (cases "builtin_tool path")
    case None
    then show ?thesis by (simp add: app_invoke_with_def)
  next
    case (Some t)
    show ?thesis
    proof (cases "app_tool_context_new (fs w) path (tool_registration_of t) params")
      case (Inl e)
      with Some show ?thesis by (simp add: app_invoke_with_def)
    next
      case (Inr ctx)
      have "finished (run_prog (builtin_app ops) (app_invoke n (builtin_app ops)) ctx
          (registered_tool_invoke t ctx payload) (emit (invocation_start_events path t ctx) w))"
        by (rule builtin_tool_finished [OF Some]) (use Suc in auto)
      with Some Inr show ?thesis
        by (simp add: app_invoke_with_run finished_continue)
    qed
  qed
qed simp

text \<open>C10: with the built-in tools and any policies, every invocation ends: \<open>double\<close> may invoke
  itself, but each nested payload is a part of its own, so the size of the payload bounds the
  depth. It returns a result or an error and does not panic, if the device refuses no
  canonicalization (\<open>canonicalize_stable\<close>; \<open>FsAccess::new\<close> panics on such a refusal).\<close>

theorem builtin_invocation_returns:
  assumes "fs_wf (fs w)"
  shows "fst (app_invoke (Suc (size payload)) (builtin_app ops) path params payload w) \<noteq> OutOfFuel
    \<and> (canonicalize_stable (fs w) \<longrightarrow>
        (\<exists>result. fst (app_invoke (Suc (size payload)) (builtin_app ops) path params payload w) = Done result))"
proof -
  let ?run = "app_invoke (Suc (size payload)) (builtin_app ops) path params payload w"
  have fin: "fst ?run \<noteq> OutOfFuel"
    using builtin_invocation_finished [of payload "Suc (size payload)" ops path params w]
    by (cases ?run) (auto simp: finished_def)
  have "\<not> panicked (fst ?run)" if "canonicalize_stable (fs w)"
    using builtin_tools_panic_free builtin_app_envelope assms that
    by (intro invocation_panic_safe) auto
  with fin show ?thesis by (cases "fst ?run") auto
qed

theorem builtin_invocation_returns_witness:
  "\<exists>result. fst (app_invoke (Suc (size write_payload)) workspace_app ''write_file''
     (invocation_params_new ''/ws'' None) write_payload (initial_world sample_fs)) = Done result"
  unfolding workspace_app_def
  using builtin_invocation_returns [OF sample_world_wf] sample_fs_stable by simp

theorem invocation_depth_irrelevant_witness:
  "fst (app_invoke 9 workspace_app ''write_file'' (invocation_params_new ''/ws'' None)
       write_payload (initial_world sample_fs))
   = Done (Ok \<lparr>out_payload = JObject [(''ok'', JBool True)], out_classification = Public\<rparr>)"
  using invocation_depth_irrelevant [of 1 workspace_app "''write_file''" "invocation_params_new ''/ws'' None"
      write_payload "initial_world sample_fs" 9] allowed_write_run
  by simp

end
