(* ===== verification/Tool_Monty.thy ===== *)
theory Tool_Monty
  imports App
begin

text \<open>
  \<open>crates/tool-monty\<close>: the tool that runs Monty snippets and the tool that serves their OS
  calls. The interpreter is the crate \<open>monty\<close>, which is not part of the repository: its REPL
  and its suspended states are type variables, and what the code calls of it is the record
  \<open>monty_api\<close>, an argument of every definition that uses it. A Monty value of one of the
  constructors the code names is a \<open>monty_object\<close>; any other is \<open>MOther\<close>.

  The loop of \<open>drive\<close> may run for as long as the script does, so it has a step bound; a
  script that takes fewer steps never meets it (\<open>Tool_Monty_Laws\<close>).
\<close>

section \<open>Monty values and the interpreter\<close>

datatype 'x monty_object =
    MNone
  | MEllipsis
  | MBool bool
  | MInt u64
  | MBigInt int
  | MFloat u64
  | MString string
  | MPath string
  | MRepr string
  | MBytes bytes
  | MList "'x monty_object list"
  | MTuple "'x monty_object list"
  | MSet "'x monty_object list"
  | MFrozenSet "'x monty_object list"
  | MDict "('x monty_object \<times> 'x monty_object) list"
  | MException string "string option"
  | MFunction string "string option"
  | MOther 'x

text \<open>An \<open>i64\<close> is its 64-bit word, read as a signed number; a float is its 64 bits.\<close>

datatype 'x name_lookup_result = LookupValue "'x monty_object" | LookupUndefined

text \<open>\<open>ExtError\<close> carries the message of the \<open>RuntimeError\<close> that the script sees.\<close>

datatype 'x ext_function_result = ExtReturn "'x monty_object" | ExtError string | ExtNotFound string

type_synonym 'x kwargs = "('x monty_object \<times> 'x monty_object) list"

datatype ('x, 'r, 's) repl_progress =
    Complete 'r "'x monty_object"
  | NameLookup string 's
  | FunctionCall bool string "'x monty_object list" "'x kwargs" 's
  | OsCall string "'x monty_object list" "'x kwargs" 's
  | ResolveFutures string

text \<open>Errors of the interpreter are the texts that the code takes from them.\<close>

record ('x, 'r, 's, 'l) monty_api =
  api_display :: "'x monty_object \<Rightarrow> string"
  api_encode_other :: "'x \<Rightarrow> string + json"
  api_new :: "string \<Rightarrow> 'l \<Rightarrow> 'r"
  api_load :: "bytes \<Rightarrow> string + 'r"
  api_dump :: "'r \<Rightarrow> string + bytes"
  api_feed_start :: "'r \<Rightarrow> string \<Rightarrow> string + ('x, 'r, 's) repl_progress"
  api_resume_lookup :: "'s \<Rightarrow> 'x name_lookup_result \<Rightarrow> string + ('x, 'r, 's) repl_progress"
  api_resume_call :: "'s \<Rightarrow> 'x ext_function_result \<Rightarrow> string + ('x, 'r, 's) repl_progress"

section \<open>Errors\<close>

definition monty_execution_error :: "string \<Rightarrow> tool_error" where
  "monty_execution_error message = ToolExecution (ExecOther message)"

definition tool_error_to_monty :: "tool_error \<Rightarrow> string" where
  "tool_error_to_monty error = debug_tool_error error"

section \<open>Numbers\<close>

text \<open>\<open>Number::from(i64)\<close>, \<open>Number::from_f64\<close>, \<open>as_i64\<close> and \<open>as_f64\<close> of \<open>serde_json\<close>.\<close>

definition number_from_i64 :: "u64 \<Rightarrow> json_number" where
  "number_from_i64 v = (if sint v < 0 then NegInt v else PosInt v)"

definition f64_is_finite :: "u64 \<Rightarrow> bool" where
  "f64_is_finite bits \<longleftrightarrow> (unat bits div 2 ^ 52) mod 2 ^ 11 \<noteq> 2047"

definition number_from_f64 :: "u64 \<Rightarrow> json_number option" where
  "number_from_f64 bits = (if f64_is_finite bits then Some (FloatBits bits) else None)"

fun number_as_i64 :: "json_number \<Rightarrow> u64 option" where
  "number_as_i64 (PosInt n) = (if unat n < 2 ^ 63 then Some n else None)"
| "number_as_i64 (NegInt n) = Some n"
| "number_as_i64 (FloatBits b) = None"

text \<open>The cast of an unsigned integer to \<open>f64\<close>: to nearest, ties to even. With \<open>2^e\<close> the
  highest power of two in \<open>n\<close>, the 53 significant bits are \<open>n\<close> shifted to \<open>[2^52, 2^53]\<close>.\<close>

fun highest_bit :: "nat \<Rightarrow> nat" where
  "highest_bit n = (if n < 2 then 0 else Suc (highest_bit (n div 2)))"

declare highest_bit.simps [simp del]

definition round_half_even :: "nat \<Rightarrow> nat \<Rightarrow> nat" where
  "round_half_even n d =
     (let q = n div d; r = n mod d
      in if 2 * r < d then q
         else if 2 * r > d then q + 1
         else if even q then q else q + 1)"

definition u64_to_f64_bits :: "u64 \<Rightarrow> u64" where
  "u64_to_f64_bits w =
     (let n = unat w; e = highest_bit n;
          m = (if e \<le> 52 then n * 2 ^ (52 - e) else round_half_even n (2 ^ (e - 52)))
      in if n = 0 then 0 else of_nat ((1022 + e) * 2 ^ 52 + m))"

definition i64_to_f64_bits :: "u64 \<Rightarrow> u64" where
  "i64_to_f64_bits w =
     (if sint w < 0 then of_nat (2 ^ 63) + u64_to_f64_bits (- w) else u64_to_f64_bits w)"

fun number_as_f64 :: "json_number \<Rightarrow> u64 option" where
  "number_as_f64 (PosInt n) = Some (u64_to_f64_bits n)"
| "number_as_f64 (NegInt n) = Some (i64_to_f64_bits n)"
| "number_as_f64 (FloatBits b) = Some b"

definition dec_int :: "int \<Rightarrow> string" where
  "dec_int i = (if i < 0 then ''-'' @ dec_nat (nat (- i)) else dec_nat (nat i))"

section \<open>Monty values to JSON\<close>

text \<open>\<open>collect\<close> into a \<open>Result\<close>: the values, or the first error.\<close>

fun collect_results :: "('e + 'a) list \<Rightarrow> 'e + 'a list" where
  "collect_results [] = Ok []"
| "collect_results (r # rs) =
     (case r of
        Err e \<Rightarrow> Err e
      | Ok x \<Rightarrow> (case collect_results rs of Err e \<Rightarrow> Err e | Ok xs \<Rightarrow> Ok (x # xs)))"

definition optional_string :: "string option \<Rightarrow> json" where
  "optional_string s = (case s of Some t \<Rightarrow> JString t | None \<Rightarrow> JNull)"

text \<open>One entry of a dictionary or of the keyword arguments; \<open>what\<close> names it in the error.\<close>

definition object_entry ::
  "('x monty_object \<Rightarrow> string) \<Rightarrow> string \<Rightarrow> 'x monty_object \<Rightarrow> (tool_error + json)
   \<Rightarrow> tool_error + (string \<times> json)" where
  "object_entry display what key value =
     (case key of
        MString k \<Rightarrow> and_then value (\<lambda>v. Ok (k, v))
      | other \<Rightarrow>
          Err (monty_execution_error
            (''Monty '' @ what @ '' key must be str, got '' @ display other)))"

fun monty_to_json :: "('x, 'r, 's, 'l) monty_api \<Rightarrow> 'x monty_object \<Rightarrow> tool_error + json" where
  "monty_to_json api MNone = Ok JNull"
| "monty_to_json api MEllipsis = Ok JNull"
| "monty_to_json api (MBool b) = Ok (JBool b)"
| "monty_to_json api (MInt v) = Ok (JNumber (number_from_i64 v))"
| "monty_to_json api (MBigInt i) = Ok (JString (dec_int i))"
| "monty_to_json api (MFloat bits) =
     ok_or (monty_execution_error ''Monty float cannot be represented as JSON'')
       (map_option JNumber (number_from_f64 bits))"
| "monty_to_json api (MString s) = Ok (JString s)"
| "monty_to_json api (MPath s) = Ok (JString s)"
| "monty_to_json api (MRepr s) = Ok (JString s)"
| "monty_to_json api (MBytes bs) = Ok (JArray (map (\<lambda>b. JNumber (PosInt (ucast b))) bs))"
| "monty_to_json api (MList vs) = and_then (collect_results (map (monty_to_json api) vs)) (\<lambda>js. Ok (JArray js))"
| "monty_to_json api (MTuple vs) = and_then (collect_results (map (monty_to_json api) vs)) (\<lambda>js. Ok (JArray js))"
| "monty_to_json api (MSet vs) = and_then (collect_results (map (monty_to_json api) vs)) (\<lambda>js. Ok (JArray js))"
| "monty_to_json api (MFrozenSet vs) =
     and_then (collect_results (map (monty_to_json api) vs)) (\<lambda>js. Ok (JArray js))"
| "monty_to_json api (MDict pairs) =
     and_then
       (collect_results
         (map (\<lambda>kv. object_entry (api_display api) ''dict'' (fst kv) (monty_to_json api (snd kv))) pairs))
       (\<lambda>kvs. Ok (json_object kvs))"
| "monty_to_json api (MException exc_type arg) =
     Ok (json_object [(''type'', JString exc_type), (''message'', optional_string arg)])"
| "monty_to_json api (MFunction name docstring) =
     Ok (json_object [(''name'', JString name), (''docstring'', optional_string docstring)])"
| "monty_to_json api (MOther x) =
     map_err (\<lambda>err. monty_execution_error (''failed to encode Monty value as JSON: '' @ err))
       (api_encode_other api x)"

definition monty_list_to_json ::
  "('x, 'r, 's, 'l) monty_api \<Rightarrow> 'x monty_object list \<Rightarrow> tool_error + json" where
  "monty_list_to_json api vs =
     and_then (collect_results (map (monty_to_json api) vs)) (\<lambda>js. Ok (JArray js))"

definition monty_kwargs_to_json ::
  "('x, 'r, 's, 'l) monty_api \<Rightarrow> 'x kwargs \<Rightarrow> tool_error + json" where
  "monty_kwargs_to_json api kwargs =
     and_then
       (collect_results
         (map (\<lambda>kv. object_entry (api_display api) ''keyword'' (fst kv) (monty_to_json api (snd kv))) kwargs))
       (\<lambda>kvs. Ok (json_object kvs))"

definition monty_tool_payload ::
  "('x, 'r, 's, 'l) monty_api \<Rightarrow> 'x monty_object list \<Rightarrow> 'x kwargs \<Rightarrow> tool_error + json" where
  "monty_tool_payload api args kwargs =
     (let general =
        and_then (monty_list_to_json api args) (\<lambda>a.
        and_then (monty_kwargs_to_json api kwargs) (\<lambda>k.
        Ok (json_object [(''args'', a), (''kwargs'', k)])))
      in if kwargs = [] \<and> length args = 1 then
           (case monty_to_json api (args ! 0) of
              Err e \<Rightarrow> Err e
            | Ok (JObject m) \<Rightarrow> Ok (JObject m)
            | Ok _ \<Rightarrow> general)
         else general)"

section \<open>JSON to Monty values\<close>

fun json_to_monty :: "json \<Rightarrow> tool_error + 'x monty_object" where
  "json_to_monty JNull = Ok MNone"
| "json_to_monty (JBool b) = Ok (MBool b)"
| "json_to_monty (JNumber n) =
     (case number_as_i64 n of
        Some v \<Rightarrow> Ok (MInt v)
      | None \<Rightarrow>
          (case number_as_f64 n of
             Some f \<Rightarrow> Ok (MFloat f)
           | None \<Rightarrow> Err (monty_execution_error ''JSON number cannot be represented by Monty'')))"
| "json_to_monty (JString s) = Ok (MString s)"
| "json_to_monty (JArray vs) = and_then (collect_results (map json_to_monty vs)) (\<lambda>ms. Ok (MList ms))"
| "json_to_monty (JObject kvs) =
     and_then
       (collect_results
         (map (\<lambda>kv. and_then (json_to_monty (snd kv)) (\<lambda>m. Ok (MString (fst kv), m))) kvs))
       (\<lambda>ps. Ok (MDict ps))"

section \<open>Classifications\<close>

fun classification_rank :: "output_classification \<Rightarrow> nat" where
  "classification_rank Public = 0"
| "classification_rank WorkspaceLocal = 1"
| "classification_rank Sensitive = 2"

definition merge_classification ::
  "output_classification \<Rightarrow> output_classification \<Rightarrow> output_classification" where
  "merge_classification current new =
     (if classification_rank new > classification_rank current then new else current)"

section \<open>The tool\<close>

record 'l monty_tool =
  monty_name :: string
  exposed_tools :: "string \<Rightarrow> json option"
  os_tool_path :: json
  monty_limits :: 'l

definition DEFAULT_TOOL_NAME :: string where "DEFAULT_TOOL_NAME = ''monty''"
definition DEFAULT_OS_TOOL_NAME :: string where "DEFAULT_OS_TOOL_NAME = ''monty_os''"

definition monty_tool_new :: "'l \<Rightarrow> 'l monty_tool" where
  "monty_tool_new limits_new =
     \<lparr>monty_name = DEFAULT_TOOL_NAME, exposed_tools = (\<lambda>_. None),
      os_tool_path = JString DEFAULT_OS_TOOL_NAME, monty_limits = limits_new\<rparr>"

definition monty_named :: "string \<Rightarrow> 'l monty_tool \<Rightarrow> 'l monty_tool" where
  "monty_named name t = t\<lparr>monty_name := name\<rparr>"

definition monty_expose :: "string \<Rightarrow> json \<Rightarrow> 'l monty_tool \<Rightarrow> 'l monty_tool" where
  "monty_expose name tool_path t = t\<lparr>exposed_tools := (exposed_tools t)(name \<mapsto> tool_path)\<rparr>"

definition monty_os_tool :: "json \<Rightarrow> 'l monty_tool \<Rightarrow> 'l monty_tool" where
  "monty_os_tool tool_path t = t\<lparr>os_tool_path := tool_path\<rparr>"

definition monty_with_limits :: "'l \<Rightarrow> 'l monty_tool \<Rightarrow> 'l monty_tool" where
  "monty_with_limits l t = t\<lparr>monty_limits := l\<rparr>"

record ('x, 'r) monty_step_output =
  step_repl :: 'r
  step_value :: "'x monty_object"
  step_classification :: output_classification

text \<open>The next progress, or the error that ends the run.\<close>

definition advance ::
  "string + ('x, 'r, 's) repl_progress
   \<Rightarrow> (('x, 'r, 's) repl_progress \<Rightarrow> ('x, 'r) monty_step_output tool_prog)
   \<Rightarrow> ('x, 'r) monty_step_output tool_prog" where
  "advance res go =
     (case res of
        Err summary \<Rightarrow> Return (Err (monty_execution_error summary))
      | Ok progress \<Rightarrow> go progress)"

text \<open>A call of a tool on behalf of the script: decode the path, invoke, convert the outcome.
  \<open>resume\<close> takes the merged classification and the result for the script.\<close>

definition call_tool ::
  "json \<Rightarrow> json \<Rightarrow> output_classification
   \<Rightarrow> (output_classification \<Rightarrow> 'x ext_function_result \<Rightarrow> 'a tool_prog) \<Rightarrow> 'a tool_prog" where
  "call_tool tool_path payload classification resume =
     (case map_err InvalidInput (decode_tool_path tool_path) of
        Err error \<Rightarrow> resume classification (ExtError (tool_error_to_monty error))
      | Ok path \<Rightarrow>
          CallInvokeTool path None payload (\<lambda>r. case r of
              Err error \<Rightarrow> resume classification (ExtError (tool_error_to_monty error))
            | Ok outcome \<Rightarrow>
                (let merged = merge_classification classification (out_classification outcome)
                 in case json_to_monty (out_payload outcome) of
                      Ok v \<Rightarrow> resume merged (ExtReturn v)
                    | Err error \<Rightarrow> resume merged (ExtError (tool_error_to_monty error)))))"

fun drive_loop ::
  "nat \<Rightarrow> ('x, 'r, 's, 'l) monty_api \<Rightarrow> 'l monty_tool \<Rightarrow> output_classification
   \<Rightarrow> ('x, 'r, 's) repl_progress \<Rightarrow> ('x, 'r) monty_step_output tool_prog" where
  "drive_loop 0 api t classification progress = StepBound"
| "drive_loop (Suc n) api t classification progress =
     (case progress of
        Complete repl v \<Rightarrow>
          Return (Ok \<lparr>step_repl = repl, step_value = v, step_classification = classification\<rparr>)
      | NameLookup name s \<Rightarrow>
          advance
            (api_resume_lookup api s
              (if exposed_tools t name \<noteq> None then LookupValue (MFunction name None)
               else LookupUndefined))
            (drive_loop n api t classification)
      | FunctionCall method_call name args kwargs s \<Rightarrow>
          (let resume = (\<lambda>cls res. advance (api_resume_call api s res) (drive_loop n api t cls))
           in if method_call then resume classification (ExtNotFound name)
              else case exposed_tools t name of
                None \<Rightarrow> resume classification (ExtNotFound name)
              | Some tool_path \<Rightarrow>
                  (case monty_tool_payload api args kwargs of
                     Err error \<Rightarrow> resume classification (ExtError (tool_error_to_monty error))
                   | Ok payload \<Rightarrow> call_tool tool_path payload classification resume))
      | OsCall name args kwargs s \<Rightarrow>
          (let resume = (\<lambda>cls res. advance (api_resume_call api s res) (drive_loop n api t cls))
           in case monty_list_to_json api args of
                Err e \<Rightarrow> Return (Err e)
              | Ok a \<Rightarrow>
                  (case monty_kwargs_to_json api kwargs of
                     Err e \<Rightarrow> Return (Err e)
                   | Ok k \<Rightarrow>
                       call_tool (os_tool_path t)
                         (json_object [(''function'', JString name), (''args'', a), (''kwargs'', k)])
                         classification resume))
      | ResolveFutures ids \<Rightarrow>
          Return (Err (monty_execution_error
            (''async Monty futures are not wired yet; pending call ids: '' @ ids))))"

definition drive ::
  "nat \<Rightarrow> ('x, 'r, 's, 'l) monty_api \<Rightarrow> 'l monty_tool \<Rightarrow> 'r \<Rightarrow> string
   \<Rightarrow> ('x, 'r) monty_step_output tool_prog" where
  "drive bound api t repl code = advance (api_feed_start api repl code) (drive_loop bound api t Public)"

record monty_input =
  input_code :: string
  input_session_id :: string

definition monty_spec :: "'l monty_tool \<Rightarrow> tool_spec" where
  "monty_spec t =
     \<lparr>tool_name = monty_name t, description = ''Run Monty code as an agent automation tool.'',
      capabilities_of = caps_empty\<rparr>"

text \<open>\<open>payload.get(key).and_then(Value::as_str)\<close>.\<close>

definition get_str :: "string \<Rightarrow> json \<Rightarrow> string option" where
  "get_str k payload = (case json_get k payload of None \<Rightarrow> None | Some v \<Rightarrow> as_str v)"

definition monty_parse_input :: "json \<Rightarrow> input_error + monty_input" where
  "monty_parse_input payload =
     and_then (ok_or (MissingField ''code'') (get_str ''code'' payload)) (\<lambda>code.
       let session_id = (case get_str ''session_id'' payload of Some s \<Rightarrow> s | None \<Rightarrow> ''default'')
       in Ok \<lparr>input_code = code, input_session_id = session_id\<rparr>)"

definition monty_open_session ::
  "('x, 'r, 's, 'l) monty_api \<Rightarrow> 'l monty_tool \<Rightarrow> bytes option \<Rightarrow> tool_error + 'r" where
  "monty_open_session api t stored =
     (case stored of
        Some bs \<Rightarrow>
          map_err (\<lambda>err. monty_execution_error (''invalid Monty session: '' @ err)) (api_load api bs)
      | None \<Rightarrow> Ok (api_new api ''<agent-monty>'' (monty_limits t)))"

text \<open>After the run: serialize and save the session, then convert the value. The session is
  saved even when the value has no JSON form.\<close>

definition monty_finish ::
  "('x, 'r, 's, 'l) monty_api \<Rightarrow> monty_input \<Rightarrow> ('x, 'r) monty_step_output \<Rightarrow> tool_outcome tool_prog" where
  "monty_finish api input out =
     (case map_err (\<lambda>err. monty_execution_error (''failed to serialize Monty session: '' @ err))
             (api_dump api (step_repl out)) of
        Err e \<Rightarrow> Return (Err e)
      | Ok session \<Rightarrow>
          CallSessionSave (input_session_id input) session (\<lambda>saved.
            case map_err ToolExecution saved of
              Err e \<Rightarrow> Return (Err e)
            | Ok _ \<Rightarrow>
                Return (and_then (monty_to_json api (step_value out)) (\<lambda>v.
                  Ok \<lparr>out_payload = json_object [(''value'', v),
                        (''session_id'', JString (input_session_id input))],
                      out_classification = step_classification out\<rparr>))))"

definition monty_execute ::
  "nat \<Rightarrow> ('x, 'r, 's, 'l) monty_api \<Rightarrow> 'l monty_tool \<Rightarrow> tool_context \<Rightarrow> monty_input
   \<Rightarrow> tool_outcome tool_prog" where
  "monty_execute bound api t ctx input =
     CallSessionLoad (input_session_id input) (\<lambda>loaded.
       case and_then (map_err ToolExecution loaded) (monty_open_session api t) of
         Err e \<Rightarrow> Return (Err e)
       | Ok repl \<Rightarrow>
           try_prog (drive bound api t repl (input_code input)) (monty_finish api input))"

definition MontyTool ::
  "nat \<Rightarrow> ('x, 'r, 's, 'l) monty_api \<Rightarrow> 'l monty_tool \<Rightarrow> (monty_input, tool_outcome) tool_impl" where
  "MontyTool bound api t =
     \<lparr>impl_spec = monty_spec t, impl_parse_input = monty_parse_input,
      impl_execute = monty_execute bound api t, impl_into_outcome = (\<lambda>out. out)\<rparr>"

section \<open>The OS tool\<close>

record monty_os_input =
  os_function :: string
  os_args :: "json list"
  os_kwargs :: "(string \<times> json) list"

definition monty_os_spec :: tool_spec where
  "monty_os_spec =
     \<lparr>tool_name = DEFAULT_OS_TOOL_NAME,
      description = ''Handle Monty OS calls through access facades.'',
      capabilities_of = caps_empty\<rparr>"

definition monty_os_parse_input :: "json \<Rightarrow> input_error + monty_os_input" where
  "monty_os_parse_input payload =
     and_then (ok_or (MissingField ''function'') (get_str ''function'' payload)) (\<lambda>f.
     and_then (ok_or (MissingField ''args'')
       (case json_get ''args'' payload of None \<Rightarrow> None | Some v \<Rightarrow> as_array v)) (\<lambda>a.
     and_then (ok_or (MissingField ''kwargs'')
       (case json_get ''kwargs'' payload of None \<Rightarrow> None | Some v \<Rightarrow> as_object v)) (\<lambda>k.
     Ok \<lparr>os_function = f, os_args = a, os_kwargs = k\<rparr>)))"

definition os_arg :: "monty_os_input \<Rightarrow> nat \<Rightarrow> json option" where
  "os_arg input index = (if index < length (os_args input) then Some (os_args input ! index) else None)"

definition os_arg_path :: "monty_os_input \<Rightarrow> nat \<Rightarrow> tool_error + string" where
  "os_arg_path input index =
     (case os_arg input index of
        Some (JString path) \<Rightarrow> Ok path
      | _ \<Rightarrow> Err (monty_execution_error
               (os_function input @ '' argument '' @ dec_nat index @ '' must be a path string'')))"

definition ensure_no_os_kwargs :: "monty_os_input \<Rightarrow> tool_error + unit" where
  "ensure_no_os_kwargs input =
     (if os_kwargs input = [] then Ok ()
      else Err (monty_execution_error
             (os_function input @ '' does not support keyword arguments in '' @ DEFAULT_OS_TOOL_NAME)))"

definition os_arg_str :: "monty_os_input \<Rightarrow> nat \<Rightarrow> tool_error + string" where
  "os_arg_str input index =
     (case os_arg input index of
        Some (JString v) \<Rightarrow> Ok v
      | _ \<Rightarrow> Err (monty_execution_error
               (os_function input @ '' argument '' @ dec_nat index @ '' must be a string'')))"

definition monty_os_execute :: "tool_context \<Rightarrow> monty_os_input \<Rightarrow> tool_outcome tool_prog" where
  "monty_os_execute ctx input =
     (if os_function input = ''Path.read_text'' then
        (case and_then (ensure_no_os_kwargs input) (\<lambda>_. os_arg_path input 0) of
           Err e \<Rightarrow> Return (Err e)
         | Ok path \<Rightarrow>
             CallReadFile path (\<lambda>r. case map_err ToolExecution r of
                 Err e \<Rightarrow> Return (Err e)
               | Ok content \<Rightarrow>
                   Return (Ok \<lparr>out_payload = JString content, out_classification = WorkspaceLocal\<rparr>)))
      else if os_function input = ''Path.write_text'' then
        (case and_then (ensure_no_os_kwargs input) (\<lambda>_.
                and_then (os_arg_path input 0) (\<lambda>path.
                and_then (os_arg_str input 1) (\<lambda>data. Ok (path, data)))) of
           Err e \<Rightarrow> Return (Err e)
         | Ok (path, data) \<Rightarrow>
             CallWriteFile path data (\<lambda>r. case map_err ToolExecution r of
                 Err e \<Rightarrow> Return (Err e)
               | Ok _ \<Rightarrow>
                   Return (Ok \<lparr>out_payload = JNumber (PosInt (of_nat (chars_count data))),
                               out_classification = Public\<rparr>)))
      else
        Return (Err (monty_execution_error
          (''Monty OS call '' @ debug_str (os_function input) @ '' is not supported by ''
           @ DEFAULT_OS_TOOL_NAME))))"

definition MontyOsTool :: "(monty_os_input, tool_outcome) tool_impl" where
  "MontyOsTool =
     \<lparr>impl_spec = monty_os_spec, impl_parse_input = monty_os_parse_input,
      impl_execute = monty_os_execute, impl_into_outcome = (\<lambda>out. out)\<rparr>"

end
