(* ===== verification/Tool_Programs.thy ===== *)
theory Tool_Programs
  imports App_Laws
begin

text \<open>
  Laws of the programs of tools that hold for every host: the runs of a program (which nested
  outcomes it saw and what it returned), the calls it can make, and that it stays within the
  bound of its model.
\<close>

section \<open>Runs of a program\<close>

inductive tool_run :: "'a tool_prog \<Rightarrow> (tool_error + tool_outcome) list \<Rightarrow> tool_error + 'a \<Rightarrow> bool" where
  run_return: "tool_run (Return r) [] r"
| run_read: "tool_run (k x) os r \<Longrightarrow> tool_run (CallReadFile p k) os r"
| run_write: "tool_run (k x) os r \<Longrightarrow> tool_run (CallWriteFile p c k) os r"
| run_fetch: "tool_run (k x) os r \<Longrightarrow> tool_run (CallFetchUrl u k) os r"
| run_load: "tool_run (k x) os r \<Longrightarrow> tool_run (CallSessionLoad s k) os r"
| run_save: "tool_run (k x) os r \<Longrightarrow> tool_run (CallSessionSave s bs k) os r"
| run_invoke: "tool_run (k x) os r \<Longrightarrow> tool_run (CallInvokeTool p c j k) (x # os) r"
| run_emit: "tool_run p os r \<Longrightarrow> tool_run (EmitAudit evs p) os r"

inductive_simps tool_run_simps [simp]:
  "tool_run (Return r) os r'"
  "tool_run (CallReadFile p k) os r"
  "tool_run (CallWriteFile p c k) os r"
  "tool_run (CallFetchUrl u k) os r"
  "tool_run (CallSessionLoad s k) os r"
  "tool_run (CallSessionSave s bs k) os r"
  "tool_run (CallInvokeTool p c j k) os r"
  "tool_run (EmitAudit evs p) os r"
  "tool_run (ToolPanics m) os r"
  "tool_run StepBound os r"

lemma tool_run_bind:
  "tool_run (bind_prog p f) os r \<Longrightarrow>
   \<exists>os1 os2 x. tool_run p os1 x \<and> tool_run (f x) os2 r \<and> os = os1 @ os2"
proof (induction p arbitrary: os)
  case (CallInvokeTool p c j k)
  from CallInvokeTool.prems obtain x os' where os: "os = x # os'" and
    "tool_run (bind_prog (k x) f) os' r" by auto
  with CallInvokeTool.IH [OF rangeI] obtain os1 os2 y where
    "tool_run (k x) os1 y" "tool_run (f y) os2 r" "os' = os1 @ os2" by blast
  then show ?case using os by (intro exI [of _ "x # os1"] exI [of _ os2] exI [of _ y]) auto
qed (auto; blast)+

lemma tool_run_case_Ok [simp]:
  "tool_run (case x of Err e \<Rightarrow> Return (Err e) | Ok z \<Rightarrow> f z) os (Ok y) \<longleftrightarrow>
   (\<exists>z. x = Ok z \<and> tool_run (f z) os (Ok y))"
  by (cases x) auto

lemma tool_run_try:
  assumes "tool_run (try_prog p f) os (Ok y)"
  obtains os1 os2 x where "tool_run p os1 (Ok x)" "tool_run (f x) os2 (Ok y)" "os = os1 @ os2"
  using tool_run_bind [OF assms [unfolded try_prog_def]] by auto

text \<open>What the application executes is a run of the program.\<close>

lemma continue_DoneE:
  assumes "continue rw k = (Done r, w')"
  obtains x w1 where "rw = (Done x, w1)" "k x w1 = (Done r, w')"
  using assms by (cases rw; cases "fst rw") auto

lemma run_prog_tool_run:
  "run_prog a nest ctx p w = (Done r, w') \<Longrightarrow> \<exists>os. tool_run p os r"
proof (induction p arbitrary: w)
  case (CallInvokeTool p c j k)
  then show ?case by (fastforce elim!: continue_DoneE)
qed (auto elim!: continue_DoneE, blast+)

section \<open>Reach\<close>

text \<open>A program reaches only nested tools of a set, without an override of the capabilities, and
  only sessions of a set; it does not touch files or the network itself.\<close>

primrec reaches :: "string set \<Rightarrow> string set \<Rightarrow> 'a tool_prog \<Rightarrow> bool" where
  "reaches paths sids (Return r) = True"
| "reaches paths sids (CallReadFile p k) = False"
| "reaches paths sids (CallWriteFile p c k) = False"
| "reaches paths sids (CallFetchUrl u k) = False"
| "reaches paths sids (CallSessionLoad s k) = (s \<in> sids \<and> (\<forall>r. reaches paths sids (k r)))"
| "reaches paths sids (CallSessionSave s bs k) = (s \<in> sids \<and> (\<forall>r. reaches paths sids (k r)))"
| "reaches paths sids (CallInvokeTool p c j k) =
     (p \<in> paths \<and> c = None \<and> (\<forall>r. reaches paths sids (k r)))"
| "reaches paths sids (EmitAudit evs p) = reaches paths sids p"
| "reaches paths sids (ToolPanics m) = True"
| "reaches paths sids StepBound = True"

lemma reaches_bind:
  "reaches paths sids p \<Longrightarrow> (\<And>r. reaches paths sids (f r)) \<Longrightarrow> reaches paths sids (bind_prog p f)"
  by (induction p) auto

lemma reaches_try:
  "reaches paths sids p \<Longrightarrow> (\<And>x. reaches paths sids (f x)) \<Longrightarrow> reaches paths sids (try_prog p f)"
  unfolding try_prog_def by (rule reaches_bind) (auto split: sum.splits)

section \<open>The bound\<close>

text \<open>Whatever its calls return, the program ends within the bound of its model.\<close>

primrec within_bound :: "'a tool_prog \<Rightarrow> bool" where
  "within_bound (Return r) = True"
| "within_bound (CallReadFile p k) = (\<forall>r. within_bound (k r))"
| "within_bound (CallWriteFile p c k) = (\<forall>r. within_bound (k r))"
| "within_bound (CallFetchUrl u k) = (\<forall>r. within_bound (k r))"
| "within_bound (CallSessionLoad s k) = (\<forall>r. within_bound (k r))"
| "within_bound (CallSessionSave s bs k) = (\<forall>r. within_bound (k r))"
| "within_bound (CallInvokeTool p c j k) = (\<forall>r. within_bound (k r))"
| "within_bound (EmitAudit evs p) = within_bound p"
| "within_bound (ToolPanics m) = True"
| "within_bound StepBound = False"

lemma within_bound_bind:
  "within_bound p \<Longrightarrow> (\<And>r. within_bound (f r)) \<Longrightarrow> within_bound (bind_prog p f)"
  by (induction p) auto

lemma within_bound_try:
  "within_bound p \<Longrightarrow> (\<And>x. within_bound (f x)) \<Longrightarrow> within_bound (try_prog p f)"
  unfolding try_prog_def by (rule within_bound_bind) (auto split: sum.splits)

text \<open>A program within its bound, without panics, under nested calls that return, returns.\<close>

end
