(* ===== verification/Tool_Monty_Laws.thy ===== *)
theory Tool_Monty_Laws
  imports Tool_Monty Tool_Programs
begin

text \<open>
  Laws of the Monty tools: JSON values survive the trip through the interpreter, a script can
  reach only the exposed tools and the OS tool, and only with the capabilities of its
  invocation, the classification of its output is the highest of what it read, the drive
  loop ends when the script does, and OS calls arrive at the OS tool as they were made.
\<close>

section \<open>Collected results\<close>

lemma collect_results_total:
  "(\<forall>x \<in> set xs. \<exists>y. f x = Ok y) \<Longrightarrow> \<exists>ys. collect_results (map f xs) = Ok ys"
  by (induction xs) auto

lemma collect_results_inverse:
  "(\<forall>x \<in> set xs. \<exists>y. f x = Ok y \<and> g y = Ok x) \<Longrightarrow>
   \<exists>ys. collect_results (map f xs) = Ok ys \<and> collect_results (map g ys) = Ok xs"
proof (induction xs)
  case (Cons x xs)
  then obtain y ys where "f x = Ok y" "g y = Ok x" "collect_results (map f xs) = Ok ys"
    "collect_results (map g ys) = Ok xs" by auto
  then show ?case by (intro exI [of _ "y # ys"]) simp
qed simp

section \<open>JSON through Monty\<close>

text \<open>Every JSON value becomes a Monty value: the error branch for numbers is never taken.\<close>

lemma json_to_monty_total: "\<exists>m :: 'x monty_object. json_to_monty j = Ok m"
proof (induction j rule: json_to_monty.induct)
  case (3 n)
  then show ?case by (cases n) (auto split: option.split)
next
  case (5 vs)
  then have "\<exists>ms :: 'x monty_object list. collect_results (map json_to_monty vs) = Ok ms"
    by (intro collect_results_total) blast
  then show ?case by auto
next
  case (6 kvs)
  then have "\<exists>ps :: ('x monty_object \<times> 'x monty_object) list.
      collect_results (map (\<lambda>kv. and_then (json_to_monty (snd kv)) (\<lambda>m. Ok (MString (fst kv), m))) kvs) = Ok ps"
    by (intro collect_results_total) (fastforce simp: and_then_eq_Ok)
  then show ?case by auto
qed auto

text \<open>The JSON values that Monty represents without loss: integers of the signed 64-bit range,
  finite floats, objects in key order (as the JSON library keeps them).\<close>

fun number_lossless :: "json_number \<Rightarrow> bool" where
  "number_lossless (PosInt n) = (unat n < 2 ^ 63)"
| "number_lossless (NegInt n) = (sint n < 0)"
| "number_lossless (FloatBits b) = f64_is_finite b"

fun json_lossless :: "json \<Rightarrow> bool" where
  "json_lossless (JNumber n) = number_lossless n"
| "json_lossless (JArray vs) = list_all json_lossless vs"
| "json_lossless (JObject kvs) = (ordered_keys kvs \<and> list_all (\<lambda>kv. json_lossless (snd kv)) kvs)"
| "json_lossless _ = True"

lemma ordered_insert_last:
  "(\<forall>k' \<in> set (map fst m). string_less k' k) \<Longrightarrow> ordered_insert k v m = m @ [(k, v)]"
proof (induction m)
  case (Cons x m)
  obtain k' v' where x: "x = (k', v')" by fastforce
  with Cons.prems have less: "string_less k' k" by simp
  then have "k \<noteq> k'" by auto
  moreover have "\<not> string_less k k'" using less string_less_trans string_less_irrefl by blast
  ultimately show ?case using Cons x by simp
qed simp

lemma fold_ordered_insert:
  "ordered_keys (m @ kvs) \<Longrightarrow> fold (\<lambda>(k, v) m. ordered_insert k v m) kvs m = m @ kvs"
proof (induction kvs arbitrary: m)
  case (Cons x kvs)
  obtain k v where x: "x = (k, v)" by fastforce
  have "ordered_insert k v m = m @ [(k, v)]"
    using Cons.prems x by (intro ordered_insert_last) (auto simp: ordered_keys_def sorted_wrt_append)
  then show ?case using Cons x by simp
qed simp

lemma json_object_ordered: "ordered_keys kvs \<Longrightarrow> json_object kvs = JObject kvs"
  by (simp add: json_object_def fold_ordered_insert)

lemma sint_nonneg: "\<not> sint n < 0" if less: "unat (n :: u64) < 2 ^ 63"
proof -
  have "int (unat n) < int (2 ^ 63)" using less by (simp only: of_nat_less_iff)
  then have "uint n < 2 ^ 63" by simp
  then have "signed_take_bit 63 (uint n) = uint n"
    by (intro signed_take_bit_int_eq_self) (auto intro: order_trans [OF _ uint_nonnegative])
  then show ?thesis by (simp add: sint_uint)
qed

text \<open>C33: a JSON value whose integers fit a signed 64-bit integer, whose floats are finite and
  whose objects are in key order is unchanged by the trip into the interpreter and back.\<close>

theorem json_monty_roundtrip:
  "json_lossless j \<Longrightarrow> \<exists>m. json_to_monty j = Ok m \<and> monty_to_json api m = Ok j"
proof (induction j rule: json_to_monty.induct)
  case (3 n)
  then show ?case
    by (cases n) (auto simp: number_from_i64_def number_from_f64_def sint_nonneg split: option.split)
next
  case (5 vs)
  then have "\<forall>v \<in> set vs. \<exists>m. json_to_monty v = Ok m \<and> monty_to_json api m = Ok v"
    by (auto simp: list_all_iff)
  from collect_results_inverse [OF this] show ?case by (auto simp: and_then_eq_Ok)
next
  case (6 kvs)
  let ?f = "\<lambda>kv. and_then (json_to_monty (snd kv)) (\<lambda>m. Ok (MString (fst kv), m))"
  let ?g = "\<lambda>kv. object_entry (api_display api) ''dict'' (fst kv) (monty_to_json api (snd kv))"
  have "\<forall>kv \<in> set kvs. \<exists>p. ?f kv = Ok p \<and> ?g p = Ok kv"
  proof
    fix kv assume kv: "kv \<in> set kvs"
    with "6.prems" have "json_lossless (snd kv)" by (auto simp: list_all_iff)
    with "6.IH" kv obtain m where "json_to_monty (snd kv) = Ok m" "monty_to_json api m = Ok (snd kv)"
      by blast
    then show "\<exists>p. ?f kv = Ok p \<and> ?g p = Ok kv"
      by (intro exI [of _ "(MString (fst kv), m)"]) (simp add: object_entry_def)
  qed
  from collect_results_inverse [OF this] "6.prems" show ?case
    by (auto simp: and_then_eq_Ok json_object_ordered)
qed auto

section \<open>Large integers\<close>

lemma round_half_even_bounds:
  assumes "0 < d"
  shows "2 * n \<le> 2 * d * round_half_even n d + d" and "2 * d * round_half_even n d \<le> 2 * n + d"
proof -
  have n: "n = d * (n div d) + n mod d" by simp
  have r: "n mod d < d" using assms by simp
  define q where "q = n div d"
  define r where "r = n mod d"
  have *: "n = d * q + r" "r < d" using n r by (simp_all add: q_def r_def)
  have round: "round_half_even n d = (if 2 * r < d then q else if 2 * r > d then q + 1 else if even q then q else q + 1)"
    by (simp add: round_half_even_def Let_def q_def r_def)
  show "2 * n \<le> 2 * d * round_half_even n d + d" "2 * d * round_half_even n d \<le> 2 * n + d"
    unfolding round using * by (auto simp: algebra_simps)
qed

lemma highest_bit_eq: "2 ^ e \<le> n \<Longrightarrow> n < 2 ^ Suc e \<Longrightarrow> highest_bit n = e"
proof (induction e arbitrary: n)
  case 0
  then show ?case by (simp add: highest_bit.simps)
next
  case (Suc e)
  then have "2 ^ e \<le> n div 2" "n div 2 < 2 ^ Suc e" by auto
  with Suc.IH have "highest_bit (n div 2) = e" by blast
  moreover have "\<not> n < 2" using Suc.prems(1) by (simp add: not_less) (metis (no_types) le_trans mult_le_mono2 nat_mult_1_right one_le_numeral one_le_power)
  ultimately show ?case by (subst highest_bit.simps) simp
qed

text \<open>The value of the bits of a positive float that is an integer.\<close>

definition f64_integer_value :: "u64 \<Rightarrow> nat" where
  "f64_integer_value bits = (2 ^ 52 + unat bits mod 2 ^ 52) * 2 ^ (unat bits div 2 ^ 52 - 1075)"

lemma u64_to_f64_bits_big:
  assumes "2 ^ 63 \<le> unat n"
  obtains m where "u64_to_f64_bits n = of_nat (1085 * 2 ^ 52 + m)" "2 ^ 52 \<le> m" "m \<le> 2 ^ 53"
    "2 * unat n \<le> 4096 * m + 2048" "4096 * m \<le> 2 * unat n + 2048"
proof
  have lt: "unat n < 2 ^ 64" using unsigned_less [of n] by simp
  have e: "highest_bit (unat n) = 63" using assms lt by (intro highest_bit_eq) simp_all
  let ?m = "round_half_even (unat n) (2 ^ 11)"
  show "u64_to_f64_bits n = of_nat (1085 * 2 ^ 52 + ?m)"
    using assms by (simp add: u64_to_f64_bits_def Let_def e)
  show lower: "2 * unat n \<le> 4096 * ?m + 2048" and upper: "4096 * ?m \<le> 2 * unat n + 2048"
    using round_half_even_bounds [of "2 ^ 11" "unat n"] by simp_all
  show "2 ^ 52 \<le> ?m" using assms lower by simp
  show "?m \<le> 2 ^ 53" using lt upper by simp
qed

lemma f64_integer_value_big:
  assumes "2 ^ 52 \<le> m" "m \<le> 2 ^ 53"
  shows "f64_integer_value (of_nat (1085 * 2 ^ 52 + m)) = m * 2048"
    and "f64_is_finite (of_nat (1085 * 2 ^ 52 + m))"
proof -
  have unat: "unat (of_nat (1085 * 2 ^ 52 + m) :: u64) = 1085 * 2 ^ 52 + m"
    using assms by (subst unat_of_nat) simp
  consider "m < 2 ^ 53" | "m = 2 ^ 53" using assms(2) by fastforce
  then have "f64_integer_value (of_nat (1085 * 2 ^ 52 + m)) = m * 2048 \<and> f64_is_finite (of_nat (1085 * 2 ^ 52 + m))"
  proof cases
    case 1
    define f where "f = m - 2 ^ 52"
    have m: "m = 2 ^ 52 + f" and f: "f < 2 ^ 52" using 1 assms(1) by (simp_all add: f_def)
    have eq: "1085 * 2 ^ 52 + m = f + 1086 * 2 ^ 52" by (simp add: m)
    have "(1085 * 2 ^ 52 + m) div 2 ^ 52 = 1086"
      unfolding eq using f by (subst div_mult_self1) (simp_all only: div_less add_0_right power_eq_0_iff, simp_all)
    moreover have "(1085 * 2 ^ 52 + m) mod 2 ^ 52 = f"
      unfolding eq mod_mult_self1 using f by (rule mod_less)
    ultimately show ?thesis unfolding f64_integer_value_def f64_is_finite_def unat by (simp add: m)
  next
    case 2
    then show ?thesis unfolding f64_integer_value_def f64_is_finite_def unat by simp
  qed
  then show "f64_integer_value (of_nat (1085 * 2 ^ 52 + m)) = m * 2048"
    and "f64_is_finite (of_nat (1085 * 2 ^ 52 + m))" by simp_all
qed

text \<open>C39: an unsigned 64-bit integer of a JSON payload reaches the script as the integer itself
  when it is below \<open>2^63\<close>, and otherwise as a finite float at most 1024 away: integers above the
  signed range lose their low bits, without an error.\<close>

theorem json_integer_bounds:
  "(unat n < 2 ^ 63 \<and> json_to_monty (JNumber (PosInt n)) = Ok (MInt n) \<and> 0 \<le> sint n)
   \<or> (\<exists>bits. 2 ^ 63 \<le> unat n \<and> json_to_monty (JNumber (PosInt n)) = Ok (MFloat bits)
        \<and> f64_is_finite bits
        \<and> f64_integer_value bits \<le> unat n + 1024 \<and> unat n \<le> f64_integer_value bits + 1024)"
proof (cases "unat n < 2 ^ 63")
  case True
  then show ?thesis using sint_nonneg [of n] by simp
next
  case False
  then have big: "2 ^ 63 \<le> unat n" by simp
  then obtain m where m: "u64_to_f64_bits n = of_nat (1085 * 2 ^ 52 + m)" "2 ^ 52 \<le> m" "m \<le> 2 ^ 53"
    "2 * unat n \<le> 4096 * m + 2048" "4096 * m \<le> 2 * unat n + 2048"
    by (rule u64_to_f64_bits_big)
  have "f64_integer_value (u64_to_f64_bits n) = m * 2048" "f64_is_finite (u64_to_f64_bits n)"
    unfolding m(1) by (rule f64_integer_value_big [OF m(2,3)])+
  then show ?thesis using big m(4,5) False by (intro disjI2 exI [of _ "u64_to_f64_bits n"]) simp
qed

section \<open>Classification\<close>

fun nested_rank :: "tool_error + tool_outcome \<Rightarrow> nat" where
  "nested_rank (Ok out) = classification_rank (out_classification out)"
| "nested_rank (Err e) = 0"

definition highest_rank :: "(tool_error + tool_outcome) list \<Rightarrow> nat" where
  "highest_rank os = fold max (map nested_rank os) 0"

lemma highest_rank_eq: "highest_rank os = Max (insert 0 (set (map nested_rank os)))"
  by (simp add: highest_rank_def Max.set_eq_fold [symmetric] del: set_map)

lemma highest_rank_simps [simp]:
  "highest_rank [] = 0"
  "highest_rank (x # os) = max (nested_rank x) (highest_rank os)"
  "highest_rank (os1 @ os2) = max (highest_rank os1) (highest_rank os2)"
proof -
  show nil: "highest_rank [] = 0" by (simp add: highest_rank_def)
  show cons: "highest_rank (x # os) = max (nested_rank x) (highest_rank os)" for x os
    unfolding highest_rank_eq by (cases "os = []") (auto simp: insert_commute [of 0])
  show "highest_rank (os1 @ os2) = max (highest_rank os1) (highest_rank os2)"
    by (induction os1) (auto simp: nil cons)
qed

lemma classification_rank_inject: "classification_rank c = classification_rank d \<longleftrightarrow> c = d"
  by (cases c; cases d) auto

text \<open>Classifications are ordered by their rank, and merging is the maximum of this order.\<close>

instantiation output_classification :: linorder
begin

definition less_eq_output_classification :: "output_classification \<Rightarrow> output_classification \<Rightarrow> bool" where
  "c \<le> d \<longleftrightarrow> classification_rank c \<le> classification_rank d"

definition less_output_classification :: "output_classification \<Rightarrow> output_classification \<Rightarrow> bool" where
  "c < d \<longleftrightarrow> classification_rank c < classification_rank d"

instance
  by standard (auto simp: less_eq_output_classification_def less_output_classification_def classification_rank_inject)

end

lemma merge_classification_max: "merge_classification c d = max c d"
  using classification_rank_inject [of c d]
  by (auto simp: merge_classification_def max_def less_eq_output_classification_def)

lemma classification_rank_mono: "mono classification_rank"
  by (simp add: mono_def less_eq_output_classification_def)

lemma merge_classification_rank [simp]:
  "classification_rank (merge_classification c d) = max (classification_rank c) (classification_rank d)"
  by (simp add: merge_classification_max max_of_mono [OF classification_rank_mono])

text \<open>Calls resume with the classification raised by the outcome of the call, if any.\<close>

lemma tool_run_call_tool:
  assumes "tool_run (call_tool tool_path payload c resume) os r"
  obtains c' res os1 os2 where "os = os1 @ os2" "tool_run (resume c' res) os2 r"
    "classification_rank c' = max (classification_rank c) (highest_rank os1)"
proof -
  show ?thesis
  proof (cases "decode_tool_path tool_path")
    case (Inl e)
    with assms show ?thesis by (intro that [of "[]" os c]) (auto simp: call_tool_def)
  next
    case (Inr path)
    with assms obtain x os' where os: "os = x # os'" and
      rest: "tool_run (case x of
          Err error \<Rightarrow> resume c (ExtError (tool_error_to_monty error))
        | Ok outcome \<Rightarrow>
            (let merged = merge_classification c (out_classification outcome)
             in case json_to_monty (out_payload outcome) of
                  Ok v \<Rightarrow> resume merged (ExtReturn v)
                | Err error \<Rightarrow> resume merged (ExtError (tool_error_to_monty error)))) os' r"
      by (auto simp: call_tool_def)
    show ?thesis
    proof (cases x)
      case (Inl e)
      with os rest show ?thesis by (intro that [of "[x]" os' c]) auto
    next
      case (Inr out)
      with rest obtain res where
        "tool_run (resume (merge_classification c (out_classification out)) res) os' r"
        by (auto simp: Let_def split: sum.splits)
      with os Inr show ?thesis by (intro that [of "[x]" os']) auto
    qed
  qed
qed

lemma tool_run_advance:
  "tool_run (advance res go) os (Ok out) \<Longrightarrow> \<exists>p. res = Ok p \<and> tool_run (go p) os (Ok out)"
  by (cases res) (auto simp: advance_def)

lemma drive_loop_classification:
  "tool_run (drive_loop n api t c progress) os (Ok out) \<Longrightarrow>
   classification_rank (step_classification out) = max (classification_rank c) (highest_rank os)"
proof (induction n arbitrary: c progress os)
  case (Suc n)
  have call: "classification_rank (step_classification out) = max (classification_rank c) (highest_rank os)"
    if "tool_run (call_tool tp pl c (\<lambda>cls res. advance (api_resume_call api s res) (drive_loop n api t cls))) os (Ok out)"
    for tp pl s
    using that by (rule tool_run_call_tool) (auto dest!: tool_run_advance Suc.IH)
  from Suc.prems show ?case
    by (auto simp: Let_def split: repl_progress.splits if_splits option.splits sum.splits
        dest!: tool_run_advance call dest: Suc.IH)
qed simp


text \<open>C29: the classification of the outcome of a Monty run is the highest among Public and the
  classifications of the outcomes of its nested invocations, whatever these return.\<close>

theorem monty_outcome_classification:
  assumes "tool_run (monty_execute bound api t ctx input) os (Ok out)"
  shows "classification_rank (out_classification out) = Max (insert 0 (set (map nested_rank os)))"
proof -
  from assms obtain loaded where
    "tool_run (case and_then (map_err ToolExecution loaded) (monty_open_session api t) of
         Err e \<Rightarrow> Return (Err e)
       | Ok repl \<Rightarrow> try_prog (drive bound api t repl (input_code input)) (monty_finish api input)) os (Ok out)"
    by (auto simp: monty_execute_def)
  then obtain repl where
    "tool_run (try_prog (drive bound api t repl (input_code input)) (monty_finish api input)) os (Ok out)"
    by auto
  then obtain os1 os2 step where
    run: "tool_run (drive bound api t repl (input_code input)) os1 (Ok step)"
    and finish: "tool_run (monty_finish api input step) os2 (Ok out)" and os: "os = os1 @ os2"
    by (rule tool_run_try)
  from finish have out: "os2 = []" "out_classification out = step_classification step"
    by (auto simp: monty_finish_def and_then_eq_Ok dest!: sym [of "Ok out"])
  from run have "classification_rank (step_classification step) = highest_rank os1"
    by (auto simp: drive_def dest!: tool_run_advance drive_loop_classification)
  then show ?thesis using os out by (simp flip: highest_rank_eq del: set_map)
qed

section \<open>Reach of a script\<close>

definition script_paths :: "'l monty_tool \<Rightarrow> string set" where
  "script_paths t = {p. \<exists>j. (j = os_tool_path t \<or> j \<in> ran (exposed_tools t)) \<and> decode_tool_path j = Ok p}"

lemma reaches_advance:
  "(\<And>p. reaches paths sids (go p)) \<Longrightarrow> reaches paths sids (advance res go)"
  by (cases res) (auto simp: advance_def)

lemma reaches_call_tool:
  assumes "\<And>path. decode_tool_path tool_path = Ok path \<Longrightarrow> path \<in> paths"
    and "\<And>c res. reaches paths sids (resume c res)"
  shows "reaches paths sids (call_tool tool_path payload classification resume)"
  using assms by (auto simp: call_tool_def Let_def split: sum.splits)

lemma reaches_drive_loop: "reaches (script_paths t) sids (drive_loop n api t c progress)"
proof (induction n arbitrary: c progress)
  case (Suc n)
  have call: "reaches (script_paths t) sids
      (call_tool tp pl c (\<lambda>cls res. advance (api_resume_call api s res) (drive_loop n api t cls)))"
    if "tp = os_tool_path t \<or> tp \<in> ran (exposed_tools t)" for tp pl s
    using that Suc.IH by (intro reaches_call_tool reaches_advance) (auto simp: script_paths_def)
  show ?case
    by (auto simp: Let_def ranI split: repl_progress.splits option.splits sum.splits
        intro!: reaches_advance Suc.IH call)
qed simp

text \<open>C27: whatever the interpreter does, a Monty run makes no call but: load and save of the
  session of its input, and nested invocations, under its own capabilities, of the exposed
  tools and of the OS tool.\<close>

theorem script_reaches_exposed_tools:
  "reaches (script_paths t) {input_session_id input} (monty_execute bound api t ctx input)"
  by (auto simp: monty_execute_def monty_finish_def drive_def Let_def split: sum.splits
      intro!: reaches_try reaches_advance reaches_drive_loop)

section \<open>Termination\<close>

text \<open>The answers that a script can get from a tool call: the error of a path that does not decode, or
  any error and any JSON value that the nested invocation comes back with.\<close>

definition call_answer :: "json \<Rightarrow> 'x ext_function_result \<Rightarrow> bool" where
  "call_answer tool_path res \<longleftrightarrow>
     (case decode_tool_path tool_path of
        Err e \<Rightarrow> res = ExtError (tool_error_to_monty (InvalidInput e))
      | Ok path \<Rightarrow> (\<exists>error. res = ExtError (tool_error_to_monty error))
                  \<or> (\<exists>j v. json_to_monty j = Ok v \<and> res = ExtReturn v))"

text \<open>One resumption of a script that waits, with an answer that the tool can give it.\<close>

inductive resumes ::
  "('x, 'r, 's, 'l) monty_api \<Rightarrow> 'l monty_tool \<Rightarrow> ('x, 'r, 's) repl_progress \<Rightarrow> ('x, 'r, 's) repl_progress \<Rightarrow> bool"
  for api t where
  resume_name: "api_resume_lookup api s (if exposed_tools t name \<noteq> None then LookupValue (MFunction name None)
      else LookupUndefined) = Ok p \<Longrightarrow> resumes api t (NameLookup name s) p"
| resume_unknown: "m \<or> exposed_tools t name = None \<Longrightarrow> api_resume_call api s (ExtNotFound name) = Ok p \<Longrightarrow>
    resumes api t (FunctionCall m name args kwargs s) p"
| resume_payload: "\<not> m \<Longrightarrow> exposed_tools t name = Some path \<Longrightarrow> monty_tool_payload api args kwargs = Err e \<Longrightarrow>
    api_resume_call api s (ExtError (tool_error_to_monty e)) = Ok p \<Longrightarrow>
    resumes api t (FunctionCall m name args kwargs s) p"
| resume_function: "\<not> m \<Longrightarrow> exposed_tools t name = Some path \<Longrightarrow> monty_tool_payload api args kwargs = Ok payload \<Longrightarrow>
    call_answer path res \<Longrightarrow> api_resume_call api s res = Ok p \<Longrightarrow>
    resumes api t (FunctionCall m name args kwargs s) p"
| resume_os: "monty_list_to_json api args = Ok a \<Longrightarrow> monty_kwargs_to_json api kwargs = Ok k \<Longrightarrow>
    call_answer (os_tool_path t) res \<Longrightarrow> api_resume_call api s res = Ok p \<Longrightarrow>
    resumes api t (OsCall name args kwargs s) p"

inductive_simps resumes_simps:
  "resumes api t (Complete repl v) p"
  "resumes api t (NameLookup name s) p"
  "resumes api t (FunctionCall m name args kwargs s) p"
  "resumes api t (OsCall name args kwargs s) p"
  "resumes api t (ResolveFutures ids) p"

lemma within_bound_advance:
  "within_bound (advance res go) \<longleftrightarrow> (\<forall>p. res = Ok p \<longrightarrow> within_bound (go p))"
  by (cases res) (auto simp: advance_def)

lemma all_outcomes: "(\<forall>x. P (out_payload (x :: tool_outcome))) \<longleftrightarrow> (\<forall>j. P j)"
  by (metis tool_outcome.select_convs(1))

lemma within_bound_call_tool:
  fixes W :: "'x ext_function_result \<Rightarrow> bool"
  assumes "\<And>c res. within_bound (resume c res) \<longleftrightarrow> W res"
  shows "within_bound (call_tool tool_path payload c resume) \<longleftrightarrow> (\<forall>res. call_answer tool_path res \<longrightarrow> W res)"
proof (cases "decode_tool_path tool_path")
  case (Inl e)
  then show ?thesis by (simp add: call_tool_def call_answer_def assms)
next
  case (Inr path)
  have "(case json_to_monty j of Inl e \<Rightarrow> W (ExtError (tool_error_to_monty e)) | Inr v \<Rightarrow> W (ExtReturn v))
      \<longleftrightarrow> (\<forall>v. json_to_monty j = Ok v \<longrightarrow> W (ExtReturn v))" for j
    using json_to_monty_total [of j] by auto
  then have payloads: "(\<forall>x :: tool_outcome. case json_to_monty (out_payload x) of
        Inl e \<Rightarrow> W (ExtError (tool_error_to_monty e)) | Inr v \<Rightarrow> W (ExtReturn v))
      \<longleftrightarrow> (\<forall>j v. json_to_monty j = Ok v \<longrightarrow> W (ExtReturn v))"
    unfolding all_outcomes [where P = "\<lambda>j. case json_to_monty j of Inl e \<Rightarrow> _ e | Inr v \<Rightarrow> _ v"] by simp
  have inner: "within_bound (case json_to_monty j of Inl e \<Rightarrow> resume m (ExtError (tool_error_to_monty e))
        | Inr v \<Rightarrow> resume m (ExtReturn v))
      \<longleftrightarrow> (case json_to_monty j of Inl e \<Rightarrow> W (ExtError (tool_error_to_monty e)) | Inr v \<Rightarrow> W (ExtReturn v))" for j m
    by (cases "json_to_monty j :: tool_error + 'x monty_object") (simp_all add: assms)
  have "within_bound (call_tool tool_path payload c resume) \<longleftrightarrow>
      (\<forall>error. W (ExtError (tool_error_to_monty error)))
      \<and> (\<forall>x :: tool_outcome. case json_to_monty (out_payload x) of Inl e \<Rightarrow> W (ExtError (tool_error_to_monty e)) | Inr v \<Rightarrow> W (ExtReturn v))"
    using Inr by (simp add: call_tool_def Let_def assms split_sum_all inner)
  with Inr show ?thesis by (auto simp: call_answer_def payloads)
qed

text \<open>The loop is within \<open>n\<close> steps exactly when the script cannot be resumed \<open>n\<close> times.\<close>

lemma within_bound_drive_loop:
  "within_bound (drive_loop n api t c progress) \<longleftrightarrow> \<not> (\<exists>p. (resumes api t ^^ n) progress p)"
proof (induction n arbitrary: c progress)
  case (Suc n)
  have more: "(\<exists>p. (resumes api t ^^ Suc n) progress p) \<longleftrightarrow>
      (\<exists>q. resumes api t progress q \<and> (\<exists>p. (resumes api t ^^ n) q p))"
    by (metis relpowp_Suc_D2 relpowp_Suc_I2)
  have called: "within_bound (call_tool path payload c (\<lambda>cls res. advance (api_resume_call api s res) (drive_loop n api t cls)))
      \<longleftrightarrow> (\<forall>res. call_answer path res \<longrightarrow>
            (\<forall>q. api_resume_call api s res = Ok q \<longrightarrow> \<not> (\<exists>p. (resumes api t ^^ n) q p)))"
    for path payload s
    by (rule within_bound_call_tool) (simp add: within_bound_advance Suc.IH)
  show ?case
    unfolding more
    by (cases progress)
      (auto simp: Let_def within_bound_advance Suc.IH called resumes_simps split: option.splits sum.splits)
qed simp

lemma call_tool_cong:
  assumes "\<And>c res. call_answer tool_path res \<Longrightarrow> resume c res = resume' c res"
  shows "call_tool tool_path payload c resume = call_tool tool_path payload c resume'"
  by (auto simp: call_tool_def Let_def call_answer_def intro!: ext assms split: sum.splits) blast+

lemma advance_cong: "(\<And>p. res = Ok p \<Longrightarrow> go p = go' p) \<Longrightarrow> advance res go = advance res go'"
  by (cases res) (simp_all add: advance_def)

lemma drive_loop_bound_irrelevant:
  "\<not> (\<exists>p. (resumes api t ^^ n) progress p) \<Longrightarrow> n \<le> m \<Longrightarrow>
   drive_loop m api t c progress = drive_loop n api t c progress"
proof (induction n arbitrary: m c progress)
  case (Suc n)
  then obtain m' where m: "m = Suc m'" "n \<le> m'" by (cases m) auto
  have step: "drive_loop m' api t c' q = drive_loop n api t c' q" if "resumes api t progress q" for c' q
    using Suc.IH [OF _ m(2)] Suc.prems(1) that by (metis relpowp_Suc_I2)
  show ?case unfolding m(1)
    by (cases progress)
      (auto simp: Let_def intro!: advance_cong step call_tool_cong intro: resumes.intros split: option.splits sum.splits)
qed (simp add: )

text \<open>C28: the drive loop goes on exactly as long as the script does, for every interpreter: its run
  of \<open>n\<close> steps meets the bound exactly when the interpreter, with answers that the tool can give,
  can be resumed \<open>n\<close> times in a row; and once the bound is not met, larger bounds make no
  difference. In particular the loop never ends a run early and never resumes a script that has
  ended.\<close>

theorem drive_terminates:
  "(within_bound (drive n api t repl code) \<longleftrightarrow>
      \<not> (\<exists>p p'. api_feed_start api repl code = Ok p \<and> (resumes api t ^^ n) p p'))
   \<and> (\<forall>m \<ge> n. within_bound (drive n api t repl code) \<longrightarrow> drive m api t repl code = drive n api t repl code)"
proof (intro conjI allI impI)
  show bound: "within_bound (drive n api t repl code) \<longleftrightarrow>
      \<not> (\<exists>p p'. api_feed_start api repl code = Ok p \<and> (resumes api t ^^ n) p p')"
    by (auto simp: drive_def within_bound_advance within_bound_drive_loop)
  fix m assume "n \<le> m" and "within_bound (drive n api t repl code)"
  then show "drive m api t repl code = drive n api t repl code"
    unfolding bound by (auto simp: drive_def intro!: advance_cong drive_loop_bound_irrelevant)
qed

section \<open>Panics\<close>

lemma panic_free_advance: "(\<And>p. panic_free (go p)) \<Longrightarrow> panic_free (advance res go)"
  by (cases res) (auto simp: advance_def)

lemma panic_free_call_tool:
  "(\<And>c res. panic_free (resume c res)) \<Longrightarrow> panic_free (call_tool tool_path payload c resume)"
  by (auto simp: call_tool_def Let_def split: sum.splits)

lemma panic_free_drive_loop: "panic_free (drive_loop n api t c progress)"
  by (induction n arbitrary: c progress)
     (auto simp: Let_def split: repl_progress.splits option.splits sum.splits
       intro!: panic_free_advance panic_free_call_tool)

lemma panic_free_monty: "panic_free (monty_execute bound api t ctx input)"
  by (auto simp: monty_execute_def monty_finish_def drive_def split: sum.splits
      intro!: panic_free_try panic_free_advance panic_free_drive_loop)

lemma panic_free_monty_os: "panic_free (monty_os_execute ctx input)"
  by (auto simp: monty_os_execute_def split: sum.splits prod.splits)

text \<open>The Monty tools do not panic themselves, whatever the interpreter and their calls do:
  every failure is an error value.\<close>

lemma monty_tools_panic_free:
  "panic_free (adapter_invoke spans (MontyTool bound api t) ctx payload)
   \<and> panic_free (adapter_invoke spans MontyOsTool ctx payload)"
  using panic_free_monty panic_free_monty_os
  by (auto simp: MontyTool_def MontyOsTool_def intro!: panic_free_adapter)

section \<open>OS calls\<close>

lemma collect_results_nth:
  "collect_results rs = Ok xs \<Longrightarrow> length xs = length rs \<and> (\<forall>i < length rs. rs ! i = Ok (xs ! i))"
proof (induction rs arbitrary: xs)
  case (Cons r rs)
  then obtain x ys where "r = Ok x" "collect_results rs = Ok ys" "xs = x # ys"
    by (auto split: sum.splits)
  with Cons.IH [of ys] show ?case by (auto simp: less_Suc_eq_0_disj)
qed simp

text \<open>C34: an OS call of a script arrives as it was made: the payload that the loop builds is
  accepted by the OS tool, with the same function and, position by position, the arguments of
  the call.\<close>

theorem os_call_arrives:
  assumes "monty_list_to_json api args = Ok a" and "monty_kwargs_to_json api kwargs = Ok k"
  shows "\<exists>input. monty_os_parse_input
             (json_object [(''function'', JString name), (''args'', a), (''kwargs'', k)]) = Ok input
           \<and> os_function input = name
           \<and> length (os_args input) = length args
           \<and> (\<forall>i < length args. os_arg input i = Some (os_args input ! i)
                \<and> monty_to_json api (args ! i) = Ok (os_args input ! i))
           \<and> k = JObject (os_kwargs input)
           \<and> (kwargs = [] \<longrightarrow> ensure_no_os_kwargs input = Ok ())"
proof -
  from assms(1) obtain js where a: "a = JArray js" "collect_results (map (monty_to_json api) args) = Ok js"
    by (auto simp: monty_list_to_json_def and_then_eq_Ok)
  from assms(2) obtain kvs where k: "k = json_object kvs" and
    "collect_results (map (\<lambda>kv. object_entry (api_display api) ''keyword'' (fst kv)
       (monty_to_json api (snd kv))) kwargs) = Ok kvs"
    by (auto simp: monty_kwargs_to_json_def and_then_eq_Ok)
  then have "kwargs = [] \<longrightarrow> kvs = []" by auto
  with k obtain m where m: "k = JObject m" "kwargs = [] \<longrightarrow> m = []" by (auto simp: json_object_def)
  let ?input = "\<lparr>os_function = name, os_args = js, os_kwargs = m\<rparr>"
  have "monty_os_parse_input
      (json_object [(''function'', JString name), (''args'', a), (''kwargs'', k)]) = Ok ?input"
    by (simp add: monty_os_parse_input_def json_object_def get_str_def a m ok_or_def)
  with collect_results_nth [OF a(2)] m show ?thesis
    by (intro exI [of _ ?input]) (auto simp: os_arg_def ensure_no_os_kwargs_def)
qed

section \<open>A sample interpreter\<close>

text \<open>An interpreter whose programs are paths: it reads the file at the path, then the file that
  this one names, through two OS calls, and returns what it got the second time; its session is
  the text of its last program. Suspended states count the calls to come.\<close>

definition sample_api :: "(unit, string, nat, unit) monty_api" where
  "sample_api =
     \<lparr>api_display = (\<lambda>_. ''object''), api_encode_other = (\<lambda>_. Ok JNull),
      api_new = (\<lambda>_ _. ''''), api_load = (\<lambda>bs. Ok (map (\<lambda>b. char_of (unat b)) bs)),
      api_dump = (\<lambda>r. Ok (map (\<lambda>c. of_nat (of_char c)) r)),
      api_feed_start = (\<lambda>r code. Ok (OsCall ''Path.read_text'' [MPath code] [] 1)),
      api_resume_lookup = (\<lambda>s x. Err ''NameError''),
      api_resume_call = (\<lambda>s x. case x of
          ExtReturn v \<Rightarrow>
            Ok (if s = 0 then Complete ''done'' v else OsCall ''Path.read_text'' [v] [] (s - 1))
        | ExtError e \<Rightarrow> Err (''RuntimeError: '' @ e)
        | ExtNotFound n \<Rightarrow> Err (''NameError: '' @ n))\<rparr>"

fun calls_left :: "(unit, string, nat) repl_progress \<Rightarrow> nat" where
  "calls_left (Complete r v) = 0"
| "calls_left (NameLookup n s) = s + 1"
| "calls_left (FunctionCall m f args kwargs s) = s + 1"
| "calls_left (OsCall f args kwargs s) = s + 1"
| "calls_left (ResolveFutures ids) = 0"

lemma sample_next: "api_resume_call sample_api s x = Ok p \<Longrightarrow> calls_left p \<le> s"
  by (cases x) (auto simp: sample_api_def split: if_splits)

lemma sample_resumes: "resumes sample_api t p q \<Longrightarrow> calls_left q < calls_left p"
  by (erule resumes.cases) (simp_all add: less_Suc_eq_le sample_next, simp add: sample_api_def)

lemma sample_chain: "(resumes sample_api t ^^ n) p q \<Longrightarrow> calls_left q + n \<le> calls_left p"
proof (induction n arbitrary: q)
  case (Suc n)
  then obtain r where "(resumes sample_api t ^^ n) p r" "resumes sample_api t r q" by auto
  with Suc.IH [of r] sample_resumes [of t r q] show ?case by simp
qed simp

text \<open>The script that makes two OS calls is resumed twice, and no more.\<close>

theorem drive_terminates_witness:
  "within_bound (drive 3 sample_api (monty_tool_new ()) '''' ''a'')
   \<and> drive 7 sample_api (monty_tool_new ()) '''' ''a'' = drive 3 sample_api (monty_tool_new ()) '''' ''a''
   \<and> \<not> within_bound (drive 2 sample_api (monty_tool_new ()) '''' ''a'')"
proof -
  let ?t = "monty_tool_new ()"
  have start: "api_feed_start sample_api '''' ''a'' = Ok p \<longleftrightarrow> p = OsCall ''Path.read_text'' [MPath ''a''] [] 1" for p
    by (auto simp: sample_api_def)
  note ends = drive_terminates [of _ sample_api ?t "[]" "''a''", THEN conjunct1]
    and more = drive_terminates [of _ sample_api ?t "[]" "''a''", THEN conjunct2]
  have "\<not> (resumes sample_api ?t ^^ 3) (OsCall ''Path.read_text'' [MPath ''a''] [] 1) p'" for p'
  proof
    assume "(resumes sample_api ?t ^^ 3) (OsCall ''Path.read_text'' [MPath ''a''] [] 1) p'"
    from sample_chain [OF this] show False by simp
  qed
  then have bound: "within_bound (drive 3 sample_api ?t '''' ''a'')"
    unfolding ends start by blast
  moreover have "drive 7 sample_api ?t '''' ''a'' = drive 3 sample_api ?t '''' ''a''"
    by (rule more [rule_format, OF _ bound]) simp
  moreover have "(resumes sample_api ?t ^^ 2) (OsCall ''Path.read_text'' [MPath ''a''] [] 1) (Complete ''done'' MNone)"
  proof -
    have answer: "call_answer (os_tool_path ?t) (ExtReturn MNone)"
      by (auto simp: call_answer_def monty_tool_new_def decode_tool_path_def intro!: exI [of _ JNull])
    have "resumes sample_api ?t (OsCall ''Path.read_text'' [MPath ''a''] [] 1) (OsCall ''Path.read_text'' [MNone] [] 0)"
      by (rule resume_os [OF _ _ answer])
        (auto simp: monty_list_to_json_def monty_kwargs_to_json_def sample_api_def)
    moreover have "resumes sample_api ?t (OsCall ''Path.read_text'' [MNone] [] 0) (Complete ''done'' MNone)"
      by (rule resume_os [OF _ _ answer])
        (auto simp: monty_list_to_json_def monty_kwargs_to_json_def sample_api_def)
    ultimately show ?thesis by (auto simp: numeral_2_eq_2)
  qed
  then have "\<not> within_bound (drive 2 sample_api ?t '''' ''a'')"
    unfolding ends start by blast
  ultimately show ?thesis by blast
qed

lemma os_call_arrives_witness:
  "\<exists>input. monty_os_parse_input
       (json_object [(''function'', JString ''Path.read_text''), (''args'', JArray [JString ''a'']),
          (''kwargs'', JObject [])]) = Ok input
     \<and> os_function input = ''Path.read_text'' \<and> os_arg input 0 = Some (JString ''a'')"
  using os_call_arrives [of sample_api "[MPath ''a'']" "JArray [JString ''a'']" "[]" "JObject []" "''Path.read_text''"]
  by (auto simp: monty_list_to_json_def monty_kwargs_to_json_def json_object_def)

lemma json_monty_roundtrip_witness:
  "\<exists>m. json_to_monty (JArray [JNumber (PosInt 7), JNull]) = Ok m
     \<and> monty_to_json sample_api m = Ok (JArray [JNumber (PosInt 7), JNull])"
  by (rule json_monty_roundtrip) simp

lemma monty_outcome_classification_witness:
  "classification_rank WorkspaceLocal = Max (insert 0 (set (map nested_rank
      [Ok \<lparr>out_payload = JString ''b'', out_classification = Public\<rparr>,
       Ok \<lparr>out_payload = JString ''c'', out_classification = WorkspaceLocal\<rparr>])))"
proof -
  let ?os = "[Ok \<lparr>out_payload = JString ''b'', out_classification = Public\<rparr>,
       Ok \<lparr>out_payload = JString ''c'', out_classification = WorkspaceLocal\<rparr>] :: (tool_error + tool_outcome) list"
  let ?out = "\<lparr>out_payload = json_object [(''value'', JString ''c''), (''session_id'', JString ''s'')],
       out_classification = WorkspaceLocal\<rparr>"
  have "tool_run (monty_execute 3 sample_api (monty_tool_new ()) undefined
      \<lparr>input_code = ''a'', input_session_id = ''s''\<rparr>) ?os (Ok ?out)"
    by (simp add: monty_execute_def, intro exI [of _ "Ok None"])
       (simp add: sample_api_def monty_tool_new_def monty_open_session_def drive_def try_prog_def
         advance_def numeral_3_eq_3 Let_def monty_list_to_json_def monty_kwargs_to_json_def
         call_tool_def decode_tool_path_def merge_classification_def monty_finish_def)
  from monty_outcome_classification [OF this] show ?thesis by simp
qed

section \<open>Values without a JSON form\<close>

text \<open>C35: a run whose value has no JSON form (a float that is not finite, a dict with a key that is
  not a string) reports the encoding error only after its session is stored: the error does not
  undo the save, and the next run of the session starts from the state that the caller was told
  nothing about.\<close>

theorem unencodable_value_keeps_session:
  assumes "monty_to_json api (step_value out) = Err e" and "api_dump api (step_repl out) = Ok bs"
    and "session_access_save (app_policy a) (cx_monty_sessions ctx) (input_session_id input) bs w = (Ok (), w')"
  shows "run_prog a nest ctx (monty_finish api input out) w = (Done (Err e), w')
    \<and> fs w' = fs w
    \<and> load_raw (sessions w') (session_key (cx_monty_sessions ctx) (input_session_id input)) = Ok (Some bs)"
proof -
  from session_access_save_Ok [OF assms(3)]
  have save: "save_raw (sessions w) (session_key (cx_monty_sessions ctx) (input_session_id input)) bs
      = (Ok (), sessions w')" "fs w' = fs w" by simp_all
  from memory.get_after_put [OF this(1) refl] save(2) assms show ?thesis
    by (simp add: monty_finish_def returned_def)
qed

text \<open>A script that ends in a NaN.\<close>

theorem unencodable_value_keeps_session_witness:
  "let a = \<lparr>app_kernel = \<lparr>runtime_network = DenyNetworkBackend, runtime_policy = session_pipeline\<rparr>,
            app_tools = (\<lambda>_. None)\<rparr>;
       ctx = \<lparr>cx_tool_path = ''monty'', cx_registration = \<lparr>reg_spec = monty_spec (monty_tool_new ()), registered_at = 0\<rparr>,
            cx_effective_capabilities = caps_empty, cx_workspace_root = \<lparr>root_path = \<lparr>cpath = ''/ws''\<rparr>\<rparr>\<rparr>
   in \<exists>e w'. run_prog a (app_invoke 0 a) ctx
        (monty_finish sample_api \<lparr>input_code = '''', input_session_id = ''s''\<rparr>
          \<lparr>step_repl = ''done'', step_value = MFloat 0x7FF8000000000000, step_classification = Public\<rparr>)
        (initial_world (plain_fs [])) = (Done (Err e), w')
      \<and> (\<exists>bs. load_raw (sessions w') (session_key (cx_monty_sessions ctx) ''s'') = Ok (Some bs))"
proof -
  let ?a = "\<lparr>app_kernel = \<lparr>runtime_network = DenyNetworkBackend, runtime_policy = session_pipeline\<rparr>,
      app_tools = (\<lambda>_. None)\<rparr>"
  let ?ctx = "\<lparr>cx_tool_path = ''monty'', cx_registration = \<lparr>reg_spec = monty_spec (monty_tool_new ()), registered_at = 0\<rparr>,
      cx_effective_capabilities = caps_empty, cx_workspace_root = \<lparr>root_path = \<lparr>cpath = ''/ws''\<rparr>\<rparr>\<rparr>"
  let ?out = "\<lparr>step_repl = ''done'', step_value = (MFloat 0x7FF8000000000000 :: unit monty_object), step_classification = Public\<rparr>"
  let ?input = "\<lparr>input_code = '''', input_session_id = ''s''\<rparr>"
  have nan: "monty_to_json sample_api (step_value ?out) = Err (monty_execution_error ''Monty float cannot be represented as JSON'')"
    by (simp add: number_from_f64_def f64_is_finite_def)
  obtain bs where dump: "api_dump sample_api (step_repl ?out) = Ok bs" by (simp add: sample_api_def)
  have "\<not> poisoned (sessions (initial_world (plain_fs [])))" by (simp add: session_store_new_def)
  from session_save_runs [OF this] session_pipeline_allows(2) obtain w' where
    "session_access_save session_pipeline (cx_monty_sessions ?ctx) ''s'' bs (initial_world (plain_fs [])) = (Ok (), w')"
    by metis
  then have "session_access_save (app_policy ?a) (cx_monty_sessions ?ctx) (input_session_id ?input) bs
      (initial_world (plain_fs [])) = (Ok (), w')" by (simp add: app_policy_def)
  from unencodable_value_keeps_session [OF nan dump this] show ?thesis
    by (auto simp: Let_def)
qed

end
