(* ===== verification/Audit_Monitor.thy ===== *)
theory Audit_Monitor
  imports Tool_Programs Invocation_Safety
begin

text \<open>
  The audit log of an invocation is well formed. \<open>monitor\<close> is a specification, not code of the
  repository: a stack automaton that reads the log. It keeps the names of the open spans, each
  with a flag that its result is known, and the next grant identifier, and it rejects
    \<^item> a span opened under another parent than the code's: an invocation at the top or in a tool's
      execution, the parsing and the execution in an invocation, an authorization in an execution;
    \<^item> a span left before its result (for an authorization: its decision) was recorded, and a value
      recorded outside every span;
    \<^item> a policy's answer, an allow or deny event anywhere but in an authorization still undecided;
    \<^item> an allow event or a recorded grant identifier other than the counter's, or outside an
      authorization.
  Every completed invocation of the application leaves a log that the monitor accepts, with all
  spans closed and the counter of the world.
\<close>

section \<open>The monitor\<close>

type_synonym open_spans = "(string \<times> bool) list"

definition may_open :: "open_spans \<Rightarrow> string \<Rightarrow> bool" where
  "may_open st name =
     (let parent = map fst (take 1 st)
      in if name = SPAN_TOOL_INVOKE then parent = [] \<or> parent = [SPAN_TOOL_EXECUTION]
         else if name = SPAN_TOOL_PARSE_INPUT \<or> name = SPAN_TOOL_EXECUTION then parent = [SPAN_TOOL_INVOKE]
         else if name = SPAN_ACTION_GRANT then parent = [SPAN_TOOL_EXECUTION]
         else True)"

definition may_close :: "string \<times> bool \<Rightarrow> bool" where
  "may_close sp =
     (snd sp \<or> fst sp \<notin> {SPAN_TOOL_INVOKE, SPAN_TOOL_PARSE_INPUT, SPAN_TOOL_EXECUTION, SPAN_ACTION_GRANT})"

abbreviation undecided :: "string \<times> bool" where
  "undecided \<equiv> (SPAN_ACTION_GRANT, False)"

fun audit_step :: "open_spans \<times> u64 \<Rightarrow> audit_event \<Rightarrow> (open_spans \<times> u64) option" where
  "audit_step (st, n) (SpanEnter tgt name fvs) =
     (if may_open st name then Some ((name, False) # st, n) else None)"
| "audit_step ([], n) SpanExit = None"
| "audit_step (sp # st, n) SpanExit = (if may_close sp then Some (st, n) else None)"
| "audit_step ([], n) (SpanRecord k v) = None"
| "audit_step ((name, known) # st, n) (SpanRecord k v) =
     (if name \<noteq> SPAN_ACTION_GRANT then
        (if k = ''grant_id'' then None else Some ((name, known \<or> k = ''result'') # st, n))
      else if \<not> known then None
      else if k \<noteq> ''grant_id'' then Some ((name, known) # st, n)
      else if v = FU64 n then Some ((name, known) # st, n + 1) else None)"
| "audit_step (st, n) (Event l tgt fvs) =
     (let ev = event_name (Event l tgt fvs)
      in if ev = Some EVENT_POLICY_EVALUATE then
           (if take 1 st = [undecided] then Some (st, n) else None)
         else if ev = Some EVENT_GRANT_DENY then
           (if take 1 st = [undecided] then Some ((SPAN_ACTION_GRANT, True) # drop 1 st, n) else None)
         else if ev = Some EVENT_GRANT_ALLOW then
           (if take 1 st = [undecided] \<and> event_field ''grant_id'' (Event l tgt fvs) = Some (FU64 n)
            then Some ((SPAN_ACTION_GRANT, True) # drop 1 st, n) else None)
         else Some (st, n))"

fun monitor :: "open_spans \<times> u64 \<Rightarrow> audit_event list \<Rightarrow> (open_spans \<times> u64) option" where
  "monitor s [] = Some s"
| "monitor s (ev # evs) = Option.bind (audit_step s ev) (\<lambda>s'. monitor s' evs)"

lemma monitor_append: "monitor s (xs @ ys) = Option.bind (monitor s xs) (\<lambda>s'. monitor s' ys)"
  by (induction xs arbitrary: s) (auto split: Option.bind_split)

definition accepted :: "open_spans \<Rightarrow> u64 \<Rightarrow> audit_event list \<Rightarrow> u64 \<Rightarrow> bool" where
  "accepted d n evs n' \<longleftrightarrow> monitor (d, n) evs = Some (d, n')"

lemma accepted_Nil [simp]: "accepted d n [] n"
  by (simp add: accepted_def)

lemma accepted_append: "accepted d n xs m \<Longrightarrow> accepted d m ys k \<Longrightarrow> accepted d n (xs @ ys) k"
  by (simp add: accepted_def monitor_append)

text \<open>The stacks in which a tool executes.\<close>

definition executing :: "open_spans \<Rightarrow> bool" where
  "executing st \<longleftrightarrow> map fst (take 1 st) = [SPAN_TOOL_EXECUTION]"

lemma executing_Cons [simp]: "executing ((SPAN_TOOL_EXECUTION, known) # st)"
  by (simp add: executing_def)

section \<open>Authorizations\<close>

lemma accepted_record_policy_grant:
  "accepted (undecided # d) n [record_policy_grant kind res name i stage g] n"
  by (simp add: accepted_def record_policy_grant_def split_beta audit_names)

lemma accepted_policy_events:
  "(\<And>ev. ev \<in> set evs \<Longrightarrow> \<exists>kind res name i stage g. ev = record_policy_grant kind res name i stage g) \<Longrightarrow>
   accepted (undecided # d) n evs n"
proof (induction evs)
  case (Cons ev evs)
  then have "accepted (undecided # d) n [ev] n"
    using accepted_record_policy_grant by (metis list.set_intros(1))
  moreover have "accepted (undecided # d) n evs n" using Cons by simp
  ultimately show ?case using accepted_append [of "undecided # d" n "[ev]" n evs] by simp
qed simp

lemma accepted_decision: "accepted (undecided # d) n (snd (pipeline_decide pl ctx a)) n"
  by (rule accepted_policy_events) (auto simp: pipeline_decide_eq Let_def evaluate_def; blast)

lemma monitor_record_grant:
  "rec_decision r = GrantAllow (GrantId n) \<Longrightarrow>
   monitor (undecided # d, n) (record_grant r) = Some ((SPAN_ACTION_GRANT, True) # d, n + 1)"
  "rec_decision r = GrantDeny \<Longrightarrow>
   monitor (undecided # d, n) (record_grant r) = Some ((SPAN_ACTION_GRANT, True) # d, n)"
  by (auto simp: record_grant_def Let_def split_beta audit_names
      split: grant_source.split option.split)

lemma accepted_authorization:
  assumes "executing d" and "monitor (undecided # d, n) (record_grant r) = Some ((SPAN_ACTION_GRANT, True) # d, n')"
  shows "accepted d n (action_grant_span kind # snd (pipeline_decide pl ctx a) @ record_grant r @ [SpanExit]) n'"
  using assms accepted_decision [of d n pl ctx a]
  by (simp add: accepted_def action_grant_span_def may_open_def executing_def may_close_def
      monitor_append audit_names Let_def)

text \<open>An operation whose appended events the monitor accepts at every depth.\<close>

definition logs :: "open_spans \<Rightarrow> world \<Rightarrow> world \<Rightarrow> bool" where
  "logs d w w' \<longleftrightarrow> (\<exists>evs. audit_log w' = audit_log w @ evs
     \<and> accepted d (next_grant_id w) evs (next_grant_id w'))"

lemma logs_refl [simp]: "logs d w w"
  by (auto simp: logs_def intro: exI [of _ "[]"])

lemma logs_trans: "logs d w w' \<Longrightarrow> logs d w' w'' \<Longrightarrow> logs d w w''"
  unfolding logs_def using accepted_append by fastforce

lemma logs_same:
  "audit_log w' = audit_log w \<Longrightarrow> next_grant_id w' = next_grant_id w \<Longrightarrow> logs d w w'"
  by (auto simp: logs_def intro: exI [of _ "[]"])

lemma logs_grant:
  assumes "executing d"
  shows "logs d w (snd (pipeline_grant pl dyn ctx a w))"
proof -
  let ?g = "pipeline_grant pl dyn ctx a w"
  obtain r where r: "audit_log (snd ?g) = audit_log w @ action_grant_span (audit_kind (dyn a))
      # snd (pipeline_decide pl ctx (dyn a)) @ record_grant r @ [SpanExit]"
    and result: "case fst ?g of
       Ok g \<Rightarrow> granted_record g = r \<and> rec_decision r = GrantAllow (GrantId (next_grant_id w))
         \<and> next_grant_id (snd ?g) = next_grant_id w + 1
     | Err e \<Rightarrow> deny_record e = Some r \<and> rec_decision r = GrantDeny
         \<and> next_grant_id (snd ?g) = next_grant_id w"
    using pipeline_grant_log [of pl dyn ctx a w] by (elim exE conjE) (rule that; assumption)
  have "monitor (undecided # d, next_grant_id w) (record_grant r)
      = Some ((SPAN_ACTION_GRANT, True) # d, next_grant_id (snd ?g))"
    using result monitor_record_grant by (cases "fst ?g") simp_all
  from accepted_authorization [OF assms this] show ?thesis
    using r unfolding logs_def by blast
qed

section \<open>The calls of a context\<close>

lemma logs_grant_then:
  assumes "executing d" and "\<And>r w1. logs d w1 (snd (k r w1))"
  shows "logs d w (snd (case pipeline_grant pl dyn ctx a w of (r, w1) \<Rightarrow> k r w1))"
  using logs_trans [OF logs_grant [OF assms(1)] assms(2)] by (simp add: split_beta)

lemma logs_case_sum:
  "(\<And>e. logs d w (snd (f e))) \<Longrightarrow> (\<And>x. logs d w (snd (g x))) \<Longrightarrow>
   logs d w (snd (case r of Inl e \<Rightarrow> f e | Inr x \<Rightarrow> g x))"
  by (cases r) simp_all

lemma logs_done: "logs d w (snd (r, w))"
  by simp

lemma logs_backend:
  "logs d w (snd (std_fs_read_file gr w))" "logs d w (snd (std_fs_write_file gw w))"
  "logs d w (snd (store_load gl w))" "logs d w (snd (store_save gs w))"
  by (simp_all add: std_fs_read_file_def std_fs_write_file_def store_load_def store_save_def
      Let_def split_beta logs_same)

lemmas logs_intros = logs_grant_then logs_case_sum logs_done logs_backend

lemma logs_read: "executing d \<Longrightarrow> logs d w (snd (fs_access_read_file pl acc p w))"
  unfolding fs_access_read_file_def Let_def by (intro logs_intros)

lemma logs_write: "executing d \<Longrightarrow> logs d w (snd (fs_access_write_file pl acc p c w))"
  unfolding fs_access_write_file_def Let_def by (intro logs_intros)

lemma logs_fetch: "executing d \<Longrightarrow> logs d w (snd (network_access_fetch_url pl b ctx url w))"
  unfolding network_access_fetch_url_def Let_def by (intro logs_intros)

lemma logs_load: "executing d \<Longrightarrow> logs d w (snd (session_access_load pl acc sid w))"
  unfolding session_access_load_def Let_def by (intro logs_intros)

lemma logs_save: "executing d \<Longrightarrow> logs d w (snd (session_access_save pl acc sid bs w))"
  unfolding session_access_save_def Let_def by (intro logs_intros)

section \<open>Programs\<close>

text \<open>The stack that a list of events without grants leads to.\<close>

definition moves :: "open_spans \<Rightarrow> audit_event list \<Rightarrow> open_spans \<Rightarrow> bool" where
  "moves d evs d' \<longleftrightarrow> (\<forall>n. monitor (d, n) evs = Some (d', n))"

text \<open>A program that started on the stack \<open>d\<close> returns on the stack \<open>d'\<close>, logs no grants itself and
  calls the methods of its context only from the span of its execution.\<close>

primrec emits :: "open_spans \<Rightarrow> 'a tool_prog \<Rightarrow> open_spans \<Rightarrow> bool" where
  "emits d (Return r) d' = (d = d')"
| "emits d (CallReadFile p k) d' = (executing d \<and> (\<forall>r. emits d (k r) d'))"
| "emits d (CallWriteFile p c k) d' = (executing d \<and> (\<forall>r. emits d (k r) d'))"
| "emits d (CallFetchUrl u k) d' = (executing d \<and> (\<forall>r. emits d (k r) d'))"
| "emits d (CallSessionLoad s k) d' = (executing d \<and> (\<forall>r. emits d (k r) d'))"
| "emits d (CallSessionSave s bs k) d' = (executing d \<and> (\<forall>r. emits d (k r) d'))"
| "emits d (CallInvokeTool p c j k) d' = (executing d \<and> (\<forall>r. emits d (k r) d'))"
| "emits d (EmitAudit evs p) d' = (\<exists>d1. moves d evs d1 \<and> emits d1 p d')"
| "emits d (ToolPanics m) d' = True"
| "emits d StepBound d' = True"

lemma emits_bind:
  "emits d p d1 \<Longrightarrow> (\<And>r. emits d1 (f r) d') \<Longrightarrow> emits d (bind_prog p f) d'"
  by (induction p arbitrary: d) auto

text \<open>The adapter closes the spans it opens, around any tool that does so.\<close>

lemma moves_simps:
  "moves d [] d' \<longleftrightarrow> d = d'"
  "moves d (SpanEnter tgt name fvs # evs) d' \<longleftrightarrow> may_open d name \<and> moves ((name, False) # d) evs d'"
  "moves (sp # d) (SpanExit # evs) d' \<longleftrightarrow> may_close sp \<and> moves d evs d'"
  "k \<noteq> ''grant_id'' \<Longrightarrow> name \<noteq> SPAN_ACTION_GRANT \<Longrightarrow>
   moves ((name, known) # d) (SpanRecord k v # evs) d' \<longleftrightarrow> moves ((name, known \<or> k = ''result'') # d) evs d'"
  by (auto simp: moves_def)

lemma moves_result:
  "name \<noteq> SPAN_ACTION_GRANT \<Longrightarrow>
   moves ((name, known) # d) (record_span_result r @ evs) d' \<longleftrightarrow> moves ((name, True) # d) evs d'"
  by (cases r) (simp_all add: record_span_result_def moves_simps)

lemma span_names_distinct:
  "SPAN_TOOL_INVOKE \<noteq> SPAN_ACTION_GRANT" "SPAN_TOOL_PARSE_INPUT \<noteq> SPAN_ACTION_GRANT"
  "SPAN_TOOL_EXECUTION \<noteq> SPAN_ACTION_GRANT"
  by (simp_all add: audit_names)

lemma may_open_tool_spans:
  "may_open ((SPAN_TOOL_INVOKE, known) # d) SPAN_TOOL_PARSE_INPUT"
  "may_open ((SPAN_TOOL_INVOKE, known) # d) SPAN_TOOL_EXECUTION"
  "may_open d SPAN_TOOL_INVOKE \<longleftrightarrow> d = [] \<or> executing d"
  by (cases d; simp add: may_open_def executing_def audit_names)+

lemma may_close_known: "may_close (name, True)"
  by (simp add: may_close_def)

lemmas span_moves = moves_simps moves_result span_names_distinct may_open_tool_spans may_close_known

lemma emits_adapter:
  assumes "\<And>input. emits ((SPAN_TOOL_EXECUTION, False) # (SPAN_TOOL_INVOKE, known) # d)
     (impl_execute inner ctx input) ((SPAN_TOOL_EXECUTION, False) # (SPAN_TOOL_INVOKE, known) # d)"
  shows "emits ((SPAN_TOOL_INVOKE, known) # d) (adapter_invoke app_spans inner ctx payload)
     ((SPAN_TOOL_INVOKE, known) # d)"
  using assms
  by (auto simp: adapter_invoke_def Let_def app_spans_def leave_def tool_parse_input_span_def
      tool_execution_span_def span_moves split: sum.split intro!: emits_bind)

section \<open>Invocations\<close>

text \<open>The events between two worlds, with the stacks at both ends.\<close>

definition trace :: "open_spans \<Rightarrow> world \<Rightarrow> open_spans \<Rightarrow> world \<Rightarrow> bool" where
  "trace d w d' w' \<longleftrightarrow> (\<exists>evs. audit_log w' = audit_log w @ evs
     \<and> monitor (d, next_grant_id w) evs = Some (d', next_grant_id w'))"

lemma logs_trace: "logs d w w' \<longleftrightarrow> trace d w d w'"
  by (simp add: logs_def trace_def accepted_def)

lemma trace_trans: "trace d w d1 w1 \<Longrightarrow> trace d1 w1 d' w' \<Longrightarrow> trace d w d' w'"
  by (fastforce simp: trace_def monitor_append)

lemma trace_emit: "moves d evs d1 \<Longrightarrow> trace d w d1 (emit evs w)"
  by (auto simp: trace_def moves_def)

definition nest_logs :: "invoker \<Rightarrow> bool" where
  "nest_logs nest \<longleftrightarrow>
     (\<forall>path params payload w r w' d. nest path params payload w = (Done r, w')
        \<longrightarrow> d = [] \<or> executing d \<longrightarrow> logs d w w')"

lemma nest_logsD:
  "nest_logs nest \<Longrightarrow> nest path params payload w = (Done r, w') \<Longrightarrow> d = [] \<or> executing d \<Longrightarrow> logs d w w'"
  unfolding nest_logs_def by blast

lemma moves_nested_event: "moves d (nested_scope_event ctx p requested actual expand) d"
  by (simp add: moves_def nested_scope_event_def record_nested_capability_override_def audit_names)

lemma logs_invoke_tool:
  assumes "nest_logs nest" and "executing d" and "cx_invoke_tool nest ctx p c j w = (Done r, w')"
  shows "logs d w w'"
proof -
  have event: "logs d w (emit (nested_scope_event ctx p requested actual expand) w)"
    for requested actual expand
    unfolding logs_trace by (rule trace_emit) (rule moves_nested_event)
  show ?thesis using assms(2,3) event
    by (auto simp: cx_invoke_tool_def Let_def split: option.splits if_splits
        dest!: nest_logsD [OF assms(1) _ disjI2 [OF assms(2)]] intro: logs_trans [OF event])
qed

text \<open>A call that returned, and the rest of the program.\<close>

lemma trace_continue:
  assumes "continue rw k = (Done r, w')" and "\<And>x w1. rw = (Done x, w1) \<Longrightarrow> logs d w w1"
    and "\<And>x w1. k x w1 = (Done r, w') \<Longrightarrow> trace d w1 d' w'"
  shows "trace d w d' w'"
  using assms by (elim continue_DoneE) (blast intro: trace_trans logs_trace [THEN iffD1])

lemma trace_returned:
  assumes "continue (returned rw) k = (Done r, w')" and "logs d w (snd rw)"
    and "\<And>x w1. k x w1 = (Done r, w') \<Longrightarrow> trace d w1 d' w'"
  shows "trace d w d' w'"
  using assms(1) by (rule trace_continue) (use assms in \<open>auto simp: returned_def\<close>)

lemma trace_with_fs:
  assumes "continue (with_fs ctx f w) k = (Done r, w')" and "\<And>acc. logs d w (snd (f acc w))"
    and "\<And>x w1. k x w1 = (Done r, w') \<Longrightarrow> trace d w1 d' w'"
  shows "trace d w d' w'"
  using assms(1)
  by (rule trace_continue) (use assms in \<open>auto simp: with_fs_def returned_def split: exec.splits\<close>)

lemma run_prog_trace:
  assumes nest: "nest_logs nest"
  shows "emits d p d' \<Longrightarrow> run_prog a nest ctx p w = (Done r, w') \<Longrightarrow> trace d w d' w'"
proof (induction p arbitrary: d w)
  case (Return x)
  then show ?case by (auto simp: logs_trace [symmetric])
next
  case (CallReadFile p k)
  then show ?case by (auto elim!: trace_with_fs intro: logs_read CallReadFile.IH [OF rangeI])
next
  case (CallWriteFile p c k)
  then show ?case by (auto elim!: trace_with_fs intro: logs_write CallWriteFile.IH [OF rangeI])
next
  case (CallFetchUrl u k)
  then show ?case by (auto elim!: trace_returned intro: logs_fetch CallFetchUrl.IH [OF rangeI])
next
  case (CallSessionLoad s k)
  then show ?case by (auto elim!: trace_returned intro: logs_load CallSessionLoad.IH [OF rangeI])
next
  case (CallSessionSave s bs k)
  then show ?case by (auto elim!: trace_returned intro: logs_save CallSessionSave.IH [OF rangeI])
next
  case (CallInvokeTool p c j k)
  then show ?case by (auto elim!: trace_continue intro: logs_invoke_tool [OF nest] CallInvokeTool.IH [OF rangeI])
next
  case (EmitAudit evs p)
  then show ?case by (auto intro: trace_trans trace_emit)
qed auto

text \<open>The tools of an application that close the spans they open (the adapter's all do).\<close>

definition balanced_tools :: "app \<Rightarrow> bool" where
  "balanced_tools a \<longleftrightarrow>
     (\<forall>path t d ctx payload. app_tools a path = Some t \<longrightarrow>
        emits ((SPAN_TOOL_INVOKE, False) # d) (tool_adapter t ctx payload) ((SPAN_TOOL_INVOKE, False) # d))"

lemma moves_start:
  assumes "d = [] \<or> executing d"
  shows "moves d (invocation_start_events path t ctx) ((SPAN_TOOL_INVOKE, False) # d)"
proof -
  have "moves d (record_tool_capabilities_override path name c1 c2) d" for name c1 c2
    by (simp add: moves_def record_tool_capabilities_override_def audit_names)
  moreover have "moves d [tool_invocation_span path name] ((SPAN_TOOL_INVOKE, False) # d)" for name
    using assms by (simp add: tool_invocation_span_def span_moves)
  ultimately show ?thesis
    by (simp add: moves_def invocation_start_events_def monitor_append Let_def)
qed

lemma moves_end: "moves ((SPAN_TOOL_INVOKE, known) # d) (invocation_result_events result @ [SpanExit]) d"
  by (simp add: invocation_result_events_def span_moves split: sum.split)

lemma app_invoke_with_logs:
  assumes "balanced_tools a" and "nest_logs nest" and d: "d = [] \<or> executing d"
    and run: "app_invoke_with a nest path params payload w = (Done r, w')"
  shows "logs d w w'"
proof (cases "app_tools a path")
  case None
  with run show ?thesis by (simp add: app_invoke_with_def)
next
  case (Some t)
  show ?thesis
  proof (cases "app_tool_context_new (fs w) path (tool_registration_of t) params")
    case (Inl e)
    with Some run show ?thesis by (auto simp: app_invoke_with_def Let_def)
  next
    case (Inr ctx)
    let ?w1 = "emit (invocation_start_events path t ctx) w"
    from run app_invoke_with_run [of a path t w params ctx nest payload] Some Inr
    have "continue (run_prog a nest ctx (registered_tool_invoke t ctx payload) ?w1)
       (\<lambda>result w2. (Done result, emit (invocation_result_events result @ [SpanExit]) w2)) = (Done r, w')"
      by simp
    then obtain result w2 where prog: "run_prog a nest ctx (registered_tool_invoke t ctx payload) ?w1 = (Done result, w2)"
      and w': "w' = emit (invocation_result_events result @ [SpanExit]) w2"
      by (auto elim!: continue_DoneE)
    let ?d = "(SPAN_TOOL_INVOKE, False) # d"
    have "emits ?d (registered_tool_invoke t ctx payload) ?d"
      using assms(1) Some by (simp add: balanced_tools_def registered_tool_invoke_def)
    from run_prog_trace [OF assms(2) this prog] have "trace ?d ?w1 ?d w2" .
    from trace_trans [OF trace_trans [OF trace_emit [OF moves_start [OF d]] this] trace_emit [OF moves_end]]
    show ?thesis unfolding logs_trace w' .
  qed
qed

lemma app_invoke_logs: "balanced_tools a \<Longrightarrow> nest_logs (app_invoke n a)"
proof (induction n)
  case (Suc n)
  then have "nest_logs (app_invoke n a)" by simp
  from app_invoke_with_logs [OF Suc.prems this] show ?case by (auto simp: nest_logs_def)
qed (simp add: nest_logs_def)


section \<open>Grant identifiers\<close>

text \<open>The identifiers recorded on the spans of authorizations, in order.\<close>

fun recorded_ids :: "audit_event list \<Rightarrow> u64 list" where
  "recorded_ids [] = []"
| "recorded_ids (SpanRecord k (FU64 v) # evs) =
     (if k = ''grant_id'' then v # recorded_ids evs else recorded_ids evs)"
| "recorded_ids (ev # evs) = recorded_ids evs"

definition ids_from :: "u64 \<Rightarrow> nat \<Rightarrow> u64 list" where
  "ids_from n k = map (\<lambda>i. n + of_nat i) [0..<k]"

lemma ids_from_simps: "ids_from n 0 = []" "ids_from n (Suc k) = n # ids_from (n + 1) k"
proof -
  show "ids_from n 0 = []" by (simp add: ids_from_def)
  have "ids_from n (Suc k) = n # map (\<lambda>i. n + of_nat i) (map Suc [0..<k])"
    by (simp add: ids_from_def upt_conv_Cons map_Suc_upt del: upt_Suc)
  also have "\<dots> = n # ids_from (n + 1) k" by (simp add: ids_from_def)
  finally show "ids_from n (Suc k) = n # ids_from (n + 1) k" .
qed

lemma length_ids_from [simp]: "length (ids_from n k) = k"
  by (simp add: ids_from_def)

lemma distinct_ids_from: "k \<le> 2 ^ 64 \<Longrightarrow> distinct (ids_from n k)"
proof -
  assume k: "k \<le> 2 ^ 64"
  have "inj_on (\<lambda>i. n + of_nat i :: u64) {0..<k}"
  proof (rule inj_onI)
    fix i j assume *: "i \<in> {0..<k}" "j \<in> {0..<k}" "n + of_nat i = (n + of_nat j :: u64)"
    then have "unat (of_nat i :: u64) = unat (of_nat j :: u64)" by simp
    moreover have "i < 2 ^ 64" "j < 2 ^ 64" using * k by auto
    ultimately show "i = j" by (simp add: unat_of_nat)
  qed
  then show ?thesis by (simp add: ids_from_def distinct_map)
qed

lemma recorded_ids_other: "k \<noteq> ''grant_id'' \<Longrightarrow> recorded_ids (SpanRecord k v # evs) = recorded_ids evs"
  by (cases v) simp_all

text \<open>A step of the monitor records no identifier, or the counter's.\<close>

lemma audit_step_ids:
  "audit_step (d, n) ev = Some (d1, n1) \<Longrightarrow>
   n1 = n \<and> recorded_ids (ev # evs) = recorded_ids evs
   \<or> n1 = n + 1 \<and> recorded_ids (ev # evs) = n # recorded_ids evs"
  by (cases "((d, n), ev)" rule: audit_step.cases)
    (auto simp: Let_def recorded_ids_other split: if_splits)

lemma monitor_ids:
  "monitor (d, n) evs = Some (d', n') \<Longrightarrow>
   \<exists>k. recorded_ids evs = ids_from n k \<and> n' = n + of_nat k"
proof (induction evs arbitrary: d n)
  case Nil
  then show ?case by (intro exI [of _ 0]) (simp add: ids_from_simps)
next
  case (Cons ev evs)
  from Cons.prems obtain d1 n1 where step: "audit_step (d, n) ev = Some (d1, n1)"
    and rest: "monitor (d1, n1) evs = Some (d', n')" by (auto simp: Option.bind_eq_Some_conv)
  from Cons.IH [OF rest] obtain k where k: "recorded_ids evs = ids_from n1 k" "n' = n1 + of_nat k"
    by blast
  from audit_step_ids [OF step, of evs] show ?case
  proof (elim disjE conjE)
    assume "n1 = n" and "recorded_ids (ev # evs) = recorded_ids evs"
    with k show ?thesis by auto
  next
    assume "n1 = n + 1" and "recorded_ids (ev # evs) = n # recorded_ids evs"
    with k show ?thesis by (intro exI [of _ "Suc k"]) (simp add: ids_from_simps)
  qed
qed

text \<open>The identifiers that an invocation's grants leave in the audit log count up from the
  counter, which ends after the last one; up to \<open>2^64\<close> grants no identifier occurs twice.\<close>

lemma grant_ids_unique:
  assumes "balanced_tools a" and "app_invoke n a path params payload w = (Done r, w')"
  shows "\<exists>evs k. audit_log w' = audit_log w @ evs \<and> recorded_ids evs = ids_from (next_grant_id w) k
     \<and> next_grant_id w' = next_grant_id w + of_nat k
     \<and> (k \<le> 2 ^ 64 \<longrightarrow> distinct (recorded_ids evs))"
proof -
  from app_invoke_logs [OF assms(1)] assms(2) obtain evs where
    "audit_log w' = audit_log w @ evs" and run: "monitor ([], next_grant_id w) evs = Some ([], next_grant_id w')"
    unfolding nest_logs_def logs_def accepted_def by blast
  with monitor_ids [OF run] distinct_ids_from show ?thesis by metis
qed

section \<open>A concrete log\<close>

lemma emits_builtin:
  "executing d \<Longrightarrow> emits d (impl_execute ReadFileTool ctx ri) d"
  "executing d \<Longrightarrow> emits d (impl_execute WriteFileTool ctx wi) d"
  "executing d \<Longrightarrow> emits d (impl_execute Double ctx di) d"
  by (simp_all add: ReadFileTool_def WriteFileTool_def Double_def read_file_execute_def
      write_file_execute_def double_execute_def split: sum.split)

lemma builtin_balanced: "balanced_tools (builtin_app ops)"
  by (auto simp: balanced_tools_def builtin_tool_def split: if_splits
      intro!: emits_adapter emits_builtin [OF executing_Cons])

lemma workspace_app_balanced: "balanced_tools workspace_app"
  unfolding workspace_app_def by (rule builtin_balanced)


end
