(* ===== verification/Test_Support.thy ===== *)
theory Test_Support
  imports App
begin

text \<open>
  \<open>crates/test-support\<close>: the host that the tests of the workspace run tools on. It is a second
  implementation of the same host interface: no runtime, no sessions, no spans around the
  phases of an invocation, a static network backend and a policy pipeline of its own.

  A tool that uses Monty sessions does not type-check for this host (its context does not
  implement \<open>HasMontySessionAccess\<close>); \<open>mock_run\<close> marks these two calls as impossible, and the
  laws are about tools that do not make them.
\<close>

section \<open>The kernel\<close>

record mock_kernel =
  mock_tools :: "string \<Rightarrow> registered_tool option"
  mock_network :: network_backend
  mock_policy :: policy_pipeline

definition mock_kernel_new :: mock_kernel where
  "mock_kernel_new =
     (let policy = pipeline_prepend_inbound CapabilityEnvelopePolicy pipeline_new;
          policy = apply_registration
            (Append TFsAction (box_policy as_fs_action AllowWorkspaceFsPolicy)) policy
      in \<lparr>mock_tools = (\<lambda>_. None), mock_network = static_network_backend_new [],
          mock_policy = policy\<rparr>)"

definition mock_with_network :: "(string \<times> bytes) list \<Rightarrow> mock_kernel" where
  "mock_with_network responses =
     mock_kernel_new\<lparr>mock_network := static_network_backend_new responses\<rparr>"

text \<open>The host keeps the span methods of the trait, which return no span.\<close>

definition mock_spans :: host_spans where
  "mock_spans = no_spans"

definition mock_register ::
  "nat \<Rightarrow> string \<Rightarrow> ('i, 'o) tool_impl \<Rightarrow> mock_kernel \<Rightarrow> (tool_error + unit) \<times> mock_kernel" where
  "mock_register now path tool m =
     (if mock_tools m path \<noteq> None then (Err (DuplicateTool (debug_str path)), m)
      else case registered_tool_from_tool mock_spans now tool of
             Err e \<Rightarrow> (Err e, m)
           | Ok registered_tool \<Rightarrow>
               (Ok (), m\<lparr>mock_tools := (mock_tools m)(path \<mapsto> registered_tool)\<rparr>))"

definition test_registration :: "nat \<Rightarrow> capabilities \<Rightarrow> tool_registration exec" where
  "test_registration now caps =
     (case tool_registration_new now
             \<lparr>tool_name = ''test_tool'', description = ''A tool for tests.'', capabilities_of = caps\<rparr> of
        Ok r \<Rightarrow> Done r
      | Err e \<Rightarrow> Panicked (''called `Result::unwrap()` on an `Err` value: '' @ debug_tool_error e))"

definition mock_decode_tool_path :: "json \<Rightarrow> input_error + string" where
  "mock_decode_tool_path v = ok_or (InvalidField ''tool_path'') (as_str v)"

section \<open>The context\<close>

text \<open>\<open>MockToolContext\<close> keeps the kernel, the path, the registration, the effective capabilities
  and the canonical root: the kernel is an argument here, the rest is a \<open>tool_context\<close>.\<close>

definition mock_tool_context_new ::
  "file_system \<Rightarrow> string \<Rightarrow> tool_registration \<Rightarrow> invocation_params
   \<Rightarrow> authorization_error + tool_context" where
  "mock_tool_context_new fsys path reg params =
     and_then (canonical_root_existing fsys (params_workspace_root params)) (\<lambda>root.
       let declared = capabilities_of (reg_spec reg);
           effective = (case capabilities_override params of Some caps \<Rightarrow> caps | None \<Rightarrow> declared)
       in Ok \<lparr>cx_tool_path = path, cx_registration = reg, cx_effective_capabilities = effective,
              cx_workspace_root = root\<rparr>)"

definition mock_workspace_root :: "tool_context \<Rightarrow> string" where
  "mock_workspace_root ctx = root_as_path (cx_workspace_root ctx)"

definition mock_policy_context :: "tool_context \<Rightarrow> policy_context" where
  "mock_policy_context ctx =
     \<lparr>ctx_capabilities = cx_effective_capabilities ctx,
      ctx_workspace_root = root_as_path (cx_workspace_root ctx)\<rparr>"

definition mock_fs :: "tool_context \<Rightarrow> world \<Rightarrow> fs_access exec" where
  "mock_fs ctx w = fs_access_new w (mock_workspace_root ctx) (mock_policy_context ctx)"

definition mock_fetch_url ::
  "mock_kernel \<Rightarrow> tool_context \<Rightarrow> string \<Rightarrow> world \<Rightarrow> (execution_error + bytes) \<times> world" where
  "mock_fetch_url m ctx url w =
     network_access_fetch_url (mock_policy m) (mock_network m) (mock_policy_context ctx) url w"

definition mock_nested_event ::
  "tool_context \<Rightarrow> string \<Rightarrow> capabilities option \<Rightarrow> capabilities option \<Rightarrow> bool \<Rightarrow> audit_event list" where
  "mock_nested_event ctx path requested actual expand =
     record_nested_capability_override (cx_tool_path ctx) (tool_name (reg_spec (cx_registration ctx)))
       path (cx_effective_capabilities ctx) requested actual expand"

definition mock_invoke_tool ::
  "invoker \<Rightarrow> tool_context \<Rightarrow> string \<Rightarrow> capabilities option \<Rightarrow> json \<Rightarrow> world
   \<Rightarrow> (tool_error + tool_outcome) exec \<times> world" where
  "mock_invoke_tool nest ctx path caps_override payload w =
     (let scope = (case caps_override of
            Some caps \<Rightarrow>
              if \<not> caps_contains (cx_effective_capabilities ctx) caps then None
              else Some (caps, False)
          | None \<Rightarrow> Some (cx_effective_capabilities ctx, False))
      in case scope of
           None \<Rightarrow>
             (Done (Err (ToolAuthorization (Denied (authorization_deny_new
                  ''nested invocation attempted to expand capabilities'')))),
              emit (mock_nested_event ctx path caps_override None True) w)
         | Some (effective, attempted_expand) \<Rightarrow>
             nest path (invocation_params_new (mock_workspace_root ctx) (Some effective)) payload
               (emit (mock_nested_event ctx path caps_override (Some effective) attempted_expand) w))"

definition mock_with_fs ::
  "tool_context \<Rightarrow> (fs_access \<Rightarrow> world \<Rightarrow> 'r \<times> world) \<Rightarrow> world \<Rightarrow> 'r exec \<times> world" where
  "mock_with_fs ctx f w =
     (case mock_fs ctx w of
        Done acc \<Rightarrow> returned (f acc w)
      | Panicked msg \<Rightarrow> (Panicked msg, w)
      | OutOfFuel \<Rightarrow> (OutOfFuel, w))"

section \<open>Invocation\<close>

primrec mock_run ::
  "mock_kernel \<Rightarrow> invoker \<Rightarrow> tool_context \<Rightarrow> 'a tool_prog \<Rightarrow> world \<Rightarrow> (tool_error + 'a) exec \<times> world" where
  "mock_run m nest ctx (Return r) w = (Done r, w)"
| "mock_run m nest ctx (CallReadFile p k) w =
     continue (mock_with_fs ctx (\<lambda>acc. fs_access_read_file (mock_policy m) acc p) w)
       (\<lambda>r. mock_run m nest ctx (k r))"
| "mock_run m nest ctx (CallWriteFile p c k) w =
     continue (mock_with_fs ctx (\<lambda>acc. fs_access_write_file (mock_policy m) acc p c) w)
       (\<lambda>r. mock_run m nest ctx (k r))"
| "mock_run m nest ctx (CallFetchUrl u k) w =
     continue (returned (mock_fetch_url m ctx u w)) (\<lambda>r. mock_run m nest ctx (k r))"
| "mock_run m nest ctx (CallSessionLoad s k) w = (Panicked ''no session access'', w)"
| "mock_run m nest ctx (CallSessionSave s bs k) w = (Panicked ''no session access'', w)"
| "mock_run m nest ctx (CallInvokeTool p c j k) w =
     continue (mock_invoke_tool nest ctx p c j w) (\<lambda>r. mock_run m nest ctx (k r))"
| "mock_run m nest ctx (EmitAudit evs p) w = mock_run m nest ctx p (emit evs w)"
| "mock_run m nest ctx (ToolPanics msg) w = (Panicked msg, w)"
| "mock_run m nest ctx StepBound w = (OutOfFuel, w)"

definition mock_invoke_with :: "mock_kernel \<Rightarrow> invoker \<Rightarrow> invoker" where
  "mock_invoke_with m nest path params payload w =
     (case mock_tools m path of
        None \<Rightarrow> (Done (Err (UnknownTool (debug_str path))), w)
      | Some t \<Rightarrow>
          (case map_err ToolAuthorization
                  (mock_tool_context_new (fs w) path (tool_registration_of t) params) of
             Err e \<Rightarrow> (Done (Err e), w)
           | Ok ctx \<Rightarrow> mock_run m nest ctx (registered_tool_invoke t ctx payload) w))"

primrec mock_invoke :: "nat \<Rightarrow> mock_kernel \<Rightarrow> invoker" where
  "mock_invoke 0 m = (\<lambda>path params payload w. (OutOfFuel, w))"
| "mock_invoke (Suc n) m = mock_invoke_with m (mock_invoke n m)"

end
