(* ===== verification/Host_Refinement.thy ===== *)
theory Host_Refinement
  imports App_Laws
begin

text \<open>
  What the refinement of the application by another host rests on. The abstraction forgets the
  log of the world (\<open>unlogged\<close>); two operations agree when they have the same results and effects
  up to the log. The interface of a host is the locale \<open>tool_host\<close>: its registry, its way to run a
  program and its invocation; in it, a host with the tools of an application agrees with it.
\<close>

section \<open>Worlds without their log\<close>

definition unlogged :: "world \<Rightarrow> world" where
  "unlogged w = w\<lparr>audit_log := []\<rparr>"

definition observe :: "'a \<times> world \<Rightarrow> 'a \<times> world" where
  "observe rw = (fst rw, unlogged (snd rw))"

lemma unlogged_eq_iff:
  "unlogged w = unlogged w' \<longleftrightarrow>
   next_grant_id w = next_grant_id w' \<and> fs w = fs w' \<and> sessions w = sessions w'"
  by (cases w; cases w') (auto simp: unlogged_def)

lemma unlogged_emit [simp]: "unlogged (emit evs w) = unlogged w"
  by (simp add: unlogged_eq_iff)

lemma observe_Pair [simp]: "observe (r, w) = (r, unlogged w)"
  by (simp add: observe_def)

text \<open>Two operations that differ in the log at most.\<close>

definition agree :: "(world \<Rightarrow> 'a \<times> world) \<Rightarrow> (world \<Rightarrow> 'a \<times> world) \<Rightarrow> bool" where
  "agree f g \<longleftrightarrow> (\<forall>w w'. unlogged w = unlogged w' \<longrightarrow> observe (f w) = observe (g w'))"

lemma agreeI: "(\<And>w w'. unlogged w = unlogged w' \<Longrightarrow> observe (f w) = observe (g w')) \<Longrightarrow> agree f g"
  by (simp add: agree_def)

lemma agreeD: "agree f g \<Longrightarrow> unlogged w = unlogged w' \<Longrightarrow> observe (f w) = observe (g w')"
  by (simp add: agree_def)

lemma agree_trans: "agree f g \<Longrightarrow> agree g h \<Longrightarrow> agree f h"
  unfolding agree_def by metis

lemma agree_sym: "agree f g \<Longrightarrow> agree g f"
  unfolding agree_def by metis

lemma agree_emit: "agree f g \<Longrightarrow> agree (\<lambda>w. f (emit evs w)) g"
  by (auto simp: agree_def)

lemma agree_continue:
  assumes "agree f g" and "\<And>r. agree (k r) (h r)"
  shows "agree (\<lambda>w. continue (f w) k) (\<lambda>w. continue (g w) h)"
proof (rule agreeI)
  fix w w' assume "unlogged w = unlogged w'"
  with assms(1) have "observe (f w) = observe (g w')" by (rule agreeD)
  then obtain r w1 w2 where "f w = (r, w1)" "g w' = (r, w2)" "unlogged w1 = unlogged w2"
    by (cases "f w"; cases "g w'") simp
  then show "observe (continue (f w) k) = observe (continue (g w') h)"
    using agreeD [OF assms(2)] by (cases r) simp_all
qed

lemma agree_bind:
  assumes "agree f g" and "\<And>r. agree (k r) (h r)"
  shows "agree (\<lambda>w. case f w of (r, w1) \<Rightarrow> k r w1) (\<lambda>w. case g w of (r, w1) \<Rightarrow> h r w1)"
proof (rule agreeI)
  fix w w' assume "unlogged w = unlogged w'"
  with assms(1) have "observe (f w) = observe (g w')" by (rule agreeD)
  then show "observe (case f w of (r, w1) \<Rightarrow> k r w1) = observe (case g w' of (r, w1) \<Rightarrow> h r w1)"
    by (simp add: observe_def [of "f w"] observe_def [of "g w'"] split_beta agreeD [OF assms(2)])
qed

lemma agree_same: "agree (\<lambda>w. (r, w)) (\<lambda>w. (r, w))"
  by (simp add: agree_def)

lemma agree_case_sum:
  assumes "\<And>e. agree (f e) (f' e)" and "\<And>x. agree (g x) (g' x)"
  shows "agree (\<lambda>w. case r of Inl e \<Rightarrow> f e w | Inr x \<Rightarrow> g x w)
               (\<lambda>w. case r of Inl e \<Rightarrow> f' e w | Inr x \<Rightarrow> g' x w)"
  using assms by (cases r) simp_all

lemma agree_returned: "agree f g \<Longrightarrow> agree (\<lambda>w. returned (f w)) (\<lambda>w. returned (g w))"
  unfolding returned_def by (drule agree_bind [OF _ agree_same, where f = f]) (simp add: split_beta)

lemmas agree_intros = agree_same agree_bind agree_case_sum agree_returned

section \<open>The calls of a context\<close>

lemma pipeline_grant_agree: "agree (pipeline_grant pl dyn ctx a) (pipeline_grant pl dyn ctx a)"
proof (rule agreeI)
  fix w w' :: world assume "unlogged w = unlogged w'"
  then show "observe (pipeline_grant pl dyn ctx a w) = observe (pipeline_grant pl dyn ctx a w')"
    by (auto simp: pipeline_grant_def grant_with_engine_def fetch_grant_id_def Let_def
        observe_def unlogged_eq_iff split: prod.splits sum.splits option.splits
        policy_outcome.splits grant_source.splits)
qed

lemma std_fs_read_file_agree: "agree (std_fs_read_file g) (std_fs_read_file g)"
  by (auto simp: agree_def std_fs_read_file_def unlogged_eq_iff)

lemma std_fs_write_file_agree: "agree (std_fs_write_file g) (std_fs_write_file g)"
  by (auto simp: agree_def std_fs_write_file_def unlogged_eq_iff Let_def observe_def split_beta)

lemma fs_access_read_file_agree: "agree (fs_access_read_file pl acc p) (fs_access_read_file pl acc p)"
proof (rule agreeI)
  fix w w' :: world assume same: "unlogged w = unlogged w'"
  let ?after = "\<lambda>r ctx w. case r of
           Err e \<Rightarrow> (Err e, w)
         | Ok canonical \<Rightarrow>
             (case pipeline_grant pl ActFs ctx (fs_action_new canonical) w of
                (Err e, w1) \<Rightarrow> (Err (ExecAuthorization e), w1)
              | (Ok parent, w1) \<Rightarrow>
                  (case pipeline_grant pl ActFsRead ctx (fs_read_action_new parent) w1 of
                     (Err e, w2) \<Rightarrow> (Err (ExecAuthorization e), w2)
                   | (Ok granted, w2) \<Rightarrow> std_fs_read_file granted w2))"
  have "agree (?after r ctx) (?after r ctx)" for r ctx
    by (intro agree_intros pipeline_grant_agree std_fs_read_file_agree)
  from agreeD [OF this same] same
  show "observe (fs_access_read_file pl acc p w) = observe (fs_access_read_file pl acc p w')"
    by (simp add: fs_access_read_file_def Let_def unlogged_eq_iff)
qed

lemma fs_access_write_file_agree:
  "agree (fs_access_write_file pl acc p c) (fs_access_write_file pl acc p c)"
proof (rule agreeI)
  fix w w' :: world assume same: "unlogged w = unlogged w'"
  let ?after = "\<lambda>r ctx w. case r of
           Err e \<Rightarrow> (Err e, w)
         | Ok canonical \<Rightarrow>
             (case pipeline_grant pl ActFs ctx (fs_action_new canonical) w of
                (Err e, w1) \<Rightarrow> (Err (ExecAuthorization e), w1)
              | (Ok parent, w1) \<Rightarrow>
                  (case pipeline_grant pl ActFsWrite ctx (fs_write_action_new parent c) w1 of
                     (Err e, w2) \<Rightarrow> (Err (ExecAuthorization e), w2)
                   | (Ok granted, w2) \<Rightarrow> std_fs_write_file granted w2))"
  have "agree (?after r ctx) (?after r ctx)" for r ctx
    by (intro agree_intros pipeline_grant_agree std_fs_write_file_agree)
  from agreeD [OF this same] same
  show "observe (fs_access_write_file pl acc p c w) = observe (fs_access_write_file pl acc p c w')"
    by (simp add: fs_access_write_file_def Let_def unlogged_eq_iff)
qed

lemma network_access_agree:
  assumes "\<And>g. backend_fetch_url b g = backend_fetch_url b' g"
  shows "agree (network_access_fetch_url pl b ctx url) (network_access_fetch_url pl b' ctx url)"
  unfolding network_access_fetch_url_def Let_def assms
  by (intro agree_intros pipeline_grant_agree)

lemma session_access_load_agree: "agree (session_access_load pl acc sid) (session_access_load pl acc sid)"
proof -
  have "agree (store_load g) (store_load g)" for g
    by (auto simp: agree_def store_load_def unlogged_eq_iff)
  then show ?thesis
    unfolding session_access_load_def Let_def by (intro agree_intros pipeline_grant_agree)
qed

lemma session_access_save_agree: "agree (session_access_save pl acc sid bs) (session_access_save pl acc sid bs)"
proof -
  have "agree (store_save g) (store_save g)" for g
    by (auto simp: agree_def store_save_def unlogged_eq_iff Let_def observe_def split_beta)
  then show ?thesis
    unfolding session_access_save_def Let_def by (intro agree_intros pipeline_grant_agree)
qed

lemma with_fs_agree:
  assumes "\<And>acc. agree (f acc) (f acc)"
  shows "agree (with_fs ctx f) (with_fs ctx f)"
proof (rule agreeI)
  fix w w' :: world assume same: "unlogged w = unlogged w'"
  then have "cx_fs ctx w = cx_fs ctx w'"
    by (simp add: cx_fs_def fs_access_new_def unlogged_eq_iff)
  with same agreeD [OF agree_returned [OF assms] same] show
    "observe (with_fs ctx f w) = observe (with_fs ctx f w')"
    by (cases "cx_fs ctx w'") (simp_all add: with_fs_def)
qed

section \<open>Programs\<close>

text \<open>A program without its audit events.\<close>

primrec strip :: "'a tool_prog \<Rightarrow> 'a tool_prog" where
  "strip (Return r) = Return r"
| "strip (CallReadFile p k) = CallReadFile p (\<lambda>r. strip (k r))"
| "strip (CallWriteFile p c k) = CallWriteFile p c (\<lambda>r. strip (k r))"
| "strip (CallFetchUrl u k) = CallFetchUrl u (\<lambda>r. strip (k r))"
| "strip (CallSessionLoad s k) = CallSessionLoad s (\<lambda>r. strip (k r))"
| "strip (CallSessionSave s bs k) = CallSessionSave s bs (\<lambda>r. strip (k r))"
| "strip (CallInvokeTool p c j k) = CallInvokeTool p c j (\<lambda>r. strip (k r))"
| "strip (EmitAudit evs p) = strip p"
| "strip (ToolPanics m) = ToolPanics m"
| "strip StepBound = StepBound"

lemma strip_bind: "strip (bind_prog p f) = bind_prog (strip p) (\<lambda>r. strip (f r))"
  by (induction p) auto

text \<open>The spans of the host are the only difference between its adapters.\<close>

lemma strip_adapter:
  "strip (adapter_invoke spans inner ctx payload) = strip (adapter_invoke spans' inner ctx payload)"
  by (auto simp: adapter_invoke_def Let_def strip_bind split: sum.splits
      intro!: arg_cong [of _ _ "bind_prog _"] ext)

definition nest_agree :: "invoker \<Rightarrow> invoker \<Rightarrow> bool" where
  "nest_agree nest nest' \<longleftrightarrow>
     (\<forall>path params payload. agree (nest path params payload) (nest' path params payload))"

lemma invoke_tool_agree:
  assumes "nest_agree nest nest'"
  shows "agree (cx_invoke_tool nest ctx p c j) (cx_invoke_tool nest' ctx p c j)"
proof (rule agreeI)
  fix w w' :: world assume "unlogged w = unlogged w'"
  then have "unlogged (emit evs w) = unlogged (emit evs' w')" for evs evs' by simp
  with assms show "observe (cx_invoke_tool nest ctx p c j w) = observe (cx_invoke_tool nest' ctx p c j w')"
    by (auto simp: cx_invoke_tool_def Let_def nest_agree_def split: option.splits intro!: agreeD)
qed

lemma nest_agree_refl: "nest_agree nest nest' \<Longrightarrow> nest_agree nest' nest'"
  unfolding nest_agree_def using agree_sym agree_trans by blast

text \<open>The equations of \<open>run_prog\<close>, as functions of the world.\<close>

lemma run_prog_eqs:
  "run_prog a nest ctx (Return r) = (\<lambda>w. (Done r, w))"
  "run_prog a nest ctx (CallReadFile p kr) = (\<lambda>w.
     continue (with_fs ctx (\<lambda>acc. fs_access_read_file (app_policy a) acc p) w)
       (\<lambda>r. run_prog a nest ctx (kr r)))"
  "run_prog a nest ctx (CallWriteFile p txt kw) = (\<lambda>w.
     continue (with_fs ctx (\<lambda>acc. fs_access_write_file (app_policy a) acc p txt) w)
       (\<lambda>r. run_prog a nest ctx (kw r)))"
  "run_prog a nest ctx (CallFetchUrl u kf) = (\<lambda>w.
     continue (returned (network_access_fetch_url (app_policy a) (runtime_network (app_kernel a))
                 (cx_policy_context ctx) u w)) (\<lambda>r. run_prog a nest ctx (kf r)))"
  "run_prog a nest ctx (CallSessionLoad s kl) = (\<lambda>w.
     continue (returned (session_access_load (app_policy a) (cx_monty_sessions ctx) s w))
       (\<lambda>r. run_prog a nest ctx (kl r)))"
  "run_prog a nest ctx (CallSessionSave s bs ks) = (\<lambda>w.
     continue (returned (session_access_save (app_policy a) (cx_monty_sessions ctx) s bs w))
       (\<lambda>r. run_prog a nest ctx (ks r)))"
  "run_prog a nest ctx (CallInvokeTool p c j ki) = (\<lambda>w.
     continue (cx_invoke_tool nest ctx p c j w) (\<lambda>r. run_prog a nest ctx (ki r)))"
  "run_prog a nest ctx (EmitAudit evs q) = (\<lambda>w. run_prog a nest ctx q (emit evs w))"
  "run_prog a nest ctx (ToolPanics msg) = (\<lambda>w. (Panicked msg, w))"
  "run_prog a nest ctx StepBound = (\<lambda>w. (OutOfFuel, w))"
  by (simp_all add: fun_eq_iff)

text \<open>The audit events of a program make no difference to the run, up to the log.\<close>

lemma run_agree_strip:
  assumes nest: "nest_agree nest nest'"
  shows "agree (run_prog a nest ctx p) (run_prog a nest' ctx (strip p))"
proof (induction p)
  case (EmitAudit evs p)
  from agree_emit [OF EmitAudit] show ?case by (simp add: run_prog_eqs)
qed (auto simp: run_prog_eqs agree_same intro!: agree_continue agree_returned with_fs_agree
    fs_access_read_file_agree fs_access_write_file_agree network_access_agree
    session_access_load_agree session_access_save_agree invoke_tool_agree nest)

lemma run_agree:
  assumes "nest_agree nest nest'" and "strip p = strip q"
  shows "agree (run_prog a nest ctx p) (run_prog a nest' ctx q)"
  using run_agree_strip [OF assms(1), of a ctx p] run_agree_strip [OF nest_agree_refl [OF assms(1)], of a ctx q]
    assms(2) agree_sym agree_trans by metis

section \<open>The interface of a host\<close>

text \<open>Two registered tools with the same program up to its audit events, of calls that are offered.\<close>

definition same_tool :: "(tool_outcome tool_prog \<Rightarrow> bool) \<Rightarrow> registered_tool \<Rightarrow> registered_tool \<Rightarrow> bool" where
  "same_tool offered t t' \<longleftrightarrow>
     tool_registration_of t = tool_registration_of t'
     \<and> (\<forall>ctx payload. strip (tool_adapter t ctx payload) = strip (tool_adapter t' ctx payload)
          \<and> offered (tool_adapter t' ctx payload))"

text \<open>A host runs what its contexts offer as an application that it stands for, and invokes a tool
  of its registry in a context of its own. It has no spans around the phases of an invocation.\<close>

locale tool_host =
  fixes tools :: "'h \<Rightarrow> string \<Rightarrow> registered_tool option"
    and run :: "'h \<Rightarrow> invoker \<Rightarrow> tool_context \<Rightarrow> tool_outcome tool_prog
      \<Rightarrow> world \<Rightarrow> (tool_error + tool_outcome) exec \<times> world"
    and invoke :: "nat \<Rightarrow> 'h \<Rightarrow> invoker"
    and offered :: "tool_outcome tool_prog \<Rightarrow> bool"
    and stands_for :: "'h \<Rightarrow> app \<Rightarrow> bool"
  assumes run_as_app: "stands_for h a \<Longrightarrow> offered p \<Longrightarrow> run h nest ctx p w = run_prog a nest ctx p w"
    and invoke_zero: "invoke 0 h path params payload w = (OutOfFuel, w)"
    and invoke_Suc: "invoke (Suc n) h path params payload w =
      (case tools h path of
         None \<Rightarrow> (Done (Err (UnknownTool (debug_str path))), w)
       | Some t \<Rightarrow>
           (case app_tool_context_new (fs w) path (tool_registration_of t) params of
              Err e \<Rightarrow> (Done (Err (ToolAuthorization e)), w)
            | Ok ctx \<Rightarrow> run h (invoke n h) ctx (registered_tool_invoke t ctx payload) w))"
begin

lemma invoke_agree:
  assumes host: "stands_for h a" and tools: "\<And>path. rel_option (same_tool offered) (app_tools a path) (tools h path)"
  shows "nest_agree (app_invoke n a) (invoke n h)"
proof (induction n)
  case 0
  then show ?case by (simp add: nest_agree_def agree_def invoke_zero)
next
  case (Suc n)
  have "observe (app_invoke_with a (app_invoke n a) path params payload w)
      = observe (invoke (Suc n) h path params payload w')"
    if same: "unlogged w = unlogged w'" for path params payload and w w' :: world
  proof (cases "app_tools a path")
    case None
    with tools [of path] same show ?thesis by (simp add: app_invoke_with_def invoke_Suc)
  next
    case (Some t)
    with tools [of path] obtain t' where t': "tools h path = Some t'" "same_tool offered t t'"
      by (cases "tools h path") auto
    have ctx: "app_tool_context_new (fs w) path (tool_registration_of t) params
        = app_tool_context_new (fs w') path (tool_registration_of t') params"
      using t'(2) same by (simp add: same_tool_def unlogged_eq_iff)
    show ?thesis
    proof (cases "app_tool_context_new (fs w') path (tool_registration_of t') params")
      case (Inl e)
      with Some t' ctx same show ?thesis by (simp add: app_invoke_with_def invoke_Suc)
    next
      case (Inr ctx')
      let ?p = "registered_tool_invoke t ctx' payload" and ?q = "registered_tool_invoke t' ctx' payload"
      have run: "agree (run_prog a (app_invoke n a) ctx' ?p) (run_prog a (invoke n h) ctx' ?q)"
        using t'(2) by (intro run_agree Suc) (simp add: same_tool_def registered_tool_invoke_def)
      have "agree (\<lambda>w. continue (run_prog a (app_invoke n a) ctx' ?p w)
             (\<lambda>result w2. (Done result, emit (invocation_result_events result @ [SpanExit]) w2)))
           (\<lambda>w. continue (run_prog a (invoke n h) ctx' ?q w) (\<lambda>result w2. (Done result, w2)))"
        by (intro agree_continue run agreeI) simp
      moreover have "continue x (\<lambda>result w2. (Done result, w2)) = x" for x :: "(tool_error + tool_outcome) exec \<times> world"
        by (cases x; cases "fst x") auto
      moreover have "offered ?q" using t'(2) by (simp add: same_tool_def registered_tool_invoke_def)
      ultimately show ?thesis
        using Some t' Inr ctx same app_invoke_with_run [of a path t w params ctx' "app_invoke n a" payload]
        by (simp add: invoke_Suc run_as_app [OF host] agree_def)
    qed
  qed
  then show ?case by (auto simp: nest_agree_def intro!: agreeI)
qed

lemma invoke_refines:
  assumes "stands_for h a" and "\<And>path. rel_option (same_tool offered) (app_tools a path) (tools h path)"
  shows "observe (invoke n h path params payload w) = observe (app_invoke n a path params payload w)"
  using invoke_agree [OF assms] by (simp add: nest_agree_def agree_def)

end

text \<open>Registering the same tool on both keeps the registries related, and a host reports the same.\<close>

lemma same_tool_registered:
  assumes "\<And>ctx payload. offered (adapter_invoke spans tool ctx payload)"
    and "registered_tool_from_tool app_spans now tool = Ok t"
    and "registered_tool_from_tool spans now tool = Ok t'"
  shows "same_tool offered t t'"
  using assms strip_adapter
  by (auto simp: registered_tool_from_tool_def and_then_eq_Ok same_tool_def)

end
