(* ===== verification/Test_Support_Laws.thy ===== *)
theory Test_Support_Laws
  imports Test_Support Tool_Builtin Host_Refinement
begin

text \<open>
  The test host refines the application: up to the audit log, a tool does the same on both, so
  what a test observes on the test host (results, files, sessions, grant identifiers) is what
  the application does. The test host is an instance of the interface of \<open>Host_Refinement\<close>.
\<close>

section \<open>Programs without session calls\<close>

primrec session_free :: "'a tool_prog \<Rightarrow> bool" where
  "session_free (Return r) = True"
| "session_free (CallReadFile p k) = (\<forall>r. session_free (k r))"
| "session_free (CallWriteFile p c k) = (\<forall>r. session_free (k r))"
| "session_free (CallFetchUrl u k) = (\<forall>r. session_free (k r))"
| "session_free (CallSessionLoad s k) = False"
| "session_free (CallSessionSave s bs k) = False"
| "session_free (CallInvokeTool p c j k) = (\<forall>r. session_free (k r))"
| "session_free (EmitAudit evs p) = session_free p"
| "session_free (ToolPanics m) = True"
| "session_free StepBound = True"

lemma session_free_bind:
  "session_free p \<Longrightarrow> (\<And>r. session_free (f r)) \<Longrightarrow> session_free (bind_prog p f)"
  by (induction p) auto

lemma session_free_adapter:
  "(\<And>input. session_free (impl_execute inner ctx input)) \<Longrightarrow>
   session_free (adapter_invoke spans inner ctx payload)"
  by (auto simp: adapter_invoke_def Let_def split: sum.splits intro!: session_free_bind)

section \<open>The test host as an instance\<close>

text \<open>The parts of the test host are those of the application, written out once more.\<close>

lemma mock_parts:
  "mock_tool_context_new = app_tool_context_new" "mock_workspace_root = cx_root"
  "mock_policy_context = cx_policy_context" "mock_fs = cx_fs" "mock_nested_event = nested_scope_event"
  by (simp_all add: fun_eq_iff mock_tool_context_new_def app_tool_context_new_def mock_workspace_root_def
      cx_root_def mock_policy_context_def cx_policy_context_def mock_fs_def cx_fs_def
      mock_nested_event_def nested_scope_event_def)

lemma mock_calls:
  "mock_with_fs ctx f w = with_fs ctx f w"
  "mock_invoke_tool nest ctx p c j w = cx_invoke_tool nest ctx p c j w"
  by (simp_all add: mock_with_fs_def with_fs_def mock_invoke_tool_def cx_invoke_tool_def mock_parts
      Let_def split: option.split)

text \<open>A test host stands for an application of the same policies, with the same answers of the network.\<close>

definition mock_stands_for :: "mock_kernel \<Rightarrow> app \<Rightarrow> bool" where
  "mock_stands_for m a \<longleftrightarrow>
     app_policy a = mock_policy m
     \<and> (\<forall>g. backend_fetch_url (runtime_network (app_kernel a)) g = backend_fetch_url (mock_network m) g)"

lemma mock_run_as_app:
  assumes "mock_stands_for m a"
  shows "session_free p \<Longrightarrow> mock_run m nest ctx p = run_prog a nest ctx p"
proof (induction p)
  case (CallFetchUrl u k)
  have "mock_fetch_url m ctx u w =
      network_access_fetch_url (app_policy a) (runtime_network (app_kernel a)) (cx_policy_context ctx) u w" for w
    using assms
    by (auto simp: mock_fetch_url_def mock_stands_for_def mock_parts network_access_fetch_url_def
        Let_def split: prod.split sum.split)
  with CallFetchUrl show ?case by (intro ext) simp
qed (use assms in \<open>auto intro!: ext simp: mock_calls mock_stands_for_def\<close>)

interpretation mock: tool_host mock_tools mock_run mock_invoke session_free mock_stands_for
  by unfold_locales (simp_all add: mock_run_as_app mock_invoke_with_def mock_parts split: option.split sum.split)

definition test_host_of :: "app \<Rightarrow> mock_kernel \<Rightarrow> bool" where
  "test_host_of a m \<longleftrightarrow>
     mock_stands_for m a \<and> (\<forall>path. rel_option (same_tool session_free) (app_tools a path) (mock_tools m path))"

text \<open>Registering a tool without session calls on both keeps them related, with the same result.\<close>

lemma test_host_register:
  assumes "test_host_of a m" and "\<And>ctx input. session_free (impl_execute tool ctx input)"
  shows "test_host_of (snd (app_register now path tool a)) (snd (mock_register now path tool m))
    \<and> fst (app_register now path tool a) = fst (mock_register now path tool m)"
proof (cases "app_tools a path = None")
  case True
  then have none: "mock_tools m path = None" using assms(1) by (metis option.rel_distinct(1) option.exhaust test_host_of_def)
  show ?thesis
  proof (cases "tool_registration_new now (impl_spec tool)")
    case (Inl e)
    with True none assms(1) show ?thesis
      by (simp add: app_register_def mock_register_def registered_tool_from_tool_def)
  next
    case (Inr r)
    then obtain t t' where t: "registered_tool_from_tool app_spans now tool = Ok t"
      "registered_tool_from_tool mock_spans now tool = Ok t'"
      by (simp add: registered_tool_from_tool_def)
    with same_tool_registered [of session_free mock_spans tool now t t'] session_free_adapter [OF assms(2)]
    have "same_tool session_free t t'" by blast
    with True none t assms(1) show ?thesis
      by (simp add: app_register_def mock_register_def test_host_of_def mock_stands_for_def app_policy_def)
  qed
next
  case False
  then have "mock_tools m path \<noteq> None" using assms(1) by (metis option.rel_distinct(2) option.exhaust test_host_of_def)
  with False assms(1) show ?thesis by (simp add: app_register_def mock_register_def)
qed

lemma test_host_new:
  "test_host_of (app_register_policy (Append TFsAction (box_policy as_fs_action AllowWorkspaceFsPolicy)) app_new)
     mock_kernel_new"
proof -
  have "backend_fetch_url DenyNetworkBackend g = backend_fetch_url (static_network_backend_new []) g" for g
    by (simp add: static_network_backend_new_def fetch_raw_def Let_def ok_or_def)
  then show ?thesis
    by (simp add: test_host_of_def mock_stands_for_def app_register_policy_def app_policy_def app_new_def
        kernel_runtime_new_def mock_kernel_new_def Let_def)
qed

section \<open>Refinement\<close>

text \<open>C20: the test host refines the application: for related hosts, an invocation on the test
  host has the result (value, error or panic) and leaves the files, the sessions and the grant
  counter of the same invocation on the application; only the audit log may differ. Hosts are
  related when they have the same policies, network backends of the same answers and the same
  tools, none of which uses sessions.\<close>

theorem test_host_refines_app:
  assumes "test_host_of a m"
  shows "observe (mock_invoke n m path params payload w) = observe (app_invoke n a path params payload w)"
  using assms by (auto simp: test_host_of_def intro!: mock.invoke_refines)

text \<open>The read tool on both hosts, as the tests of \<open>tool-builtin\<close> set it up.\<close>

definition read_test_kernel :: mock_kernel where
  "read_test_kernel = snd (mock_register 0 ''read_file'' ReadFileTool mock_kernel_new)"

definition read_test_app :: app where
  "read_test_app = snd (app_register 0 ''read_file'' ReadFileTool
     (app_register_policy (Append TFsAction (box_policy as_fs_action AllowWorkspaceFsPolicy)) app_new))"

lemma read_test_hosts: "test_host_of read_test_app read_test_kernel"
  unfolding read_test_app_def read_test_kernel_def
  by (intro test_host_register [OF test_host_new, THEN conjunct1])
    (simp add: ReadFileTool_def read_file_execute_def split: sum.splits)

theorem test_host_refines_app_witness:
  "observe (mock_invoke 1 read_test_kernel ''read_file'' (invocation_params_new ''/ws'' None)
       (json_object [(''path'', JString ''hello.txt'')]) (initial_world sample_fs))
   = observe (app_invoke 1 read_test_app ''read_file'' (invocation_params_new ''/ws'' None)
       (json_object [(''path'', JString ''hello.txt'')]) (initial_world sample_fs))"
  by (rule test_host_refines_app [OF read_test_hosts])

end
