(* ===== verification/Demo.thy ===== *)
theory Demo
  imports Tool_Builtin Tool_Monty
begin

text \<open>
  \<open>examples/demo/scenario.rs\<close>: the demo composes the application, the built-in tools and the
  Monty tools under the workspace policies and runs four invocations: a write, a doubled read,
  the same read under write-only capabilities, which must fail, and a Monty script that reads
  the file three times. Every \<open>unwrap\<close> is a panic on the other case
  (the message of \<open>unwrap_err\<close> is kept without the value that Rust prints after it).

  \<open>run_demo\<close> is the part between the creation of the directory \<open>root\<close> and its removal, which are in
  \<open>Demo_Main\<close> with the printing. The interpreter of scripts is a parameter.
\<close>

section \<open>The application of the demo\<close>

definition MONTY_CODE :: string where
  "MONTY_CODE = [CHR 0x0A] @ ''from pathlib import Path'' @ [CHR 0x0A, CHR 0x0A]
     @ ''ret = '' @ [CHR 0x22, CHR 0x22, CHR 0x0A]
     @ ''for i in range(3):'' @ [CHR 0x0A]
     @ ''    ret += Path('' @ [CHR 0x27] @ ''hello.txt'' @ [CHR 0x27] @ '').read_text() + ''
     @ [CHR 0x22, CHR 0x5C] @ ''n'' @ [CHR 0x22, CHR 0x0A] @ ''ret'' @ [CHR 0x0A]"

definition demo_monty_tool :: "'l \<Rightarrow> 'l monty_tool" where
  "demo_monty_tool limits_new =
     monty_expose ''write_file'' (JString ''write_file'')
       (monty_expose ''read_file'' (JString ''read_file'') (monty_tool_new limits_new))"

text \<open>\<open>app.register(path, tool).unwrap()\<close>.\<close>

definition register_unwrap :: "nat \<Rightarrow> string \<Rightarrow> ('i, 'o) tool_impl \<Rightarrow> app exec \<Rightarrow> app exec" where
  "register_unwrap now path tool ea =
     (case ea of
        Done a \<Rightarrow>
          (case app_register now path tool a of
             (Ok _, a') \<Rightarrow> Done a'
           | (Err e, _) \<Rightarrow> Panicked (''called `Result::unwrap()` on an `Err` value: '' @ debug_tool_error e))
      | Panicked msg \<Rightarrow> Panicked msg
      | OutOfFuel \<Rightarrow> OutOfFuel)"

definition demo_tools :: "nat \<Rightarrow> nat \<Rightarrow> ('x, 'r, 's, 'l) monty_api \<Rightarrow> 'l \<Rightarrow> app exec" where
  "demo_tools now bound api limits_new =
     register_unwrap now ''monty_os'' MontyOsTool
       (register_unwrap now ''monty'' (MontyTool bound api (demo_monty_tool limits_new))
         (register_unwrap now ''double'' Double
           (register_unwrap now ''read_file'' ReadFileTool
             (register_unwrap now ''write_file'' WriteFileTool (Done app_new)))))"

definition demo_policies :: "fs_write_action policy \<Rightarrow> registration list" where
  "demo_policies exact_write =
     [Append TFsAction (box_policy as_fs_action AllowWorkspaceFsPolicy),
      Append TFsWriteAction (box_policy as_fs_write exact_write),
      Append TFsReadAction (box_policy as_fs_read AllowWorkspaceReadPolicy),
      Append TMontySessionLoadAction (box_policy as_session_load AllowMontySessionPolicy_load),
      Append TMontySessionSaveAction (box_policy as_session_save AllowMontySessionPolicy_save)]"

definition demo_app ::
  "nat \<Rightarrow> nat \<Rightarrow> ('x, 'r, 's, 'l) monty_api \<Rightarrow> 'l \<Rightarrow> file_system \<Rightarrow> string \<Rightarrow> app exec" where
  "demo_app now bound api limits_new fsys root =
     (case demo_tools now bound api limits_new of
        Done a \<Rightarrow>
          (case allow_exact_file_write_new fsys (path_join root ''hello.txt'') of
             Done exact_write \<Rightarrow> Done (fold app_register_policy (demo_policies exact_write) a)
           | Panicked msg \<Rightarrow> Panicked msg
           | OutOfFuel \<Rightarrow> OutOfFuel)
      | Panicked msg \<Rightarrow> Panicked msg
      | OutOfFuel \<Rightarrow> OutOfFuel)"

section \<open>The run\<close>

record demo_outcomes =
  write_outcome :: tool_outcome
  read_outcome :: tool_outcome
  read_outcome_err :: tool_error
  monty_read_outcome :: tool_outcome

definition unwrapped ::
  "('r \<Rightarrow> 'a exec) \<Rightarrow> 'r exec \<times> world \<Rightarrow> ('a \<Rightarrow> world \<Rightarrow> 'b exec \<times> world) \<Rightarrow> 'b exec \<times> world" where
  "unwrapped expect rw k = continue rw (\<lambda>r w. continue (expect r, w) k)"

definition write_hello_payload :: json where
  "write_hello_payload =
     json_object [(''path'', JString ''hello.txt''), (''content'', JString ''hello from demo'')]"

definition double_read_payload :: json where
  "double_read_payload =
     json_object [(''path'', JString ''read_file''),
       (''payload'', json_object [(''path'', JString ''hello.txt'')])]"

definition monty_payload :: json where
  "monty_payload = json_object [(''session_id'', JString ''demo''), (''code'', JString MONTY_CODE)]"

definition run_demo ::
  "nat \<Rightarrow> nat \<Rightarrow> nat \<Rightarrow> ('x, 'r, 's, 'l) monty_api \<Rightarrow> 'l \<Rightarrow> string \<Rightarrow> world
   \<Rightarrow> demo_outcomes exec \<times> world" where
  "run_demo depth now bound api limits_new root w =
     continue (demo_app now bound api limits_new (fs w) root, w) (\<lambda>a w.
       let write_params = invocation_params_new root (Some (caps_from_slice [FsWrite]));
           read_params = invocation_params_new root (Some (caps_from_slice [FsRead]))
       in
       unwrapped (unwrap debug_tool_error)
         (app_invoke depth a ''write_file'' write_params write_hello_payload w) (\<lambda>written w.
       unwrapped (unwrap debug_tool_error)
         (app_invoke depth a ''double'' read_params double_read_payload w) (\<lambda>read w.
       unwrapped unwrap_err
         (app_invoke depth a ''double'' write_params double_read_payload w) (\<lambda>read_err w.
       unwrapped (unwrap debug_tool_error)
         (app_invoke depth a ''monty'' read_params monty_payload w) (\<lambda>monty_read w.
       (Done \<lparr>write_outcome = written, read_outcome = read, read_outcome_err = read_err,
              monty_read_outcome = monty_read\<rparr>, w))))))"

section \<open>The script of the demo\<close>

text \<open>An interpreter for that one script: it asks for the file three times and joins what it gets,
  each with a line break; a suspended state is the number of calls to come and the text so far.\<close>

definition demo_api :: "(unit, unit, nat \<times> string, unit) monty_api" where
  "demo_api =
     \<lparr>api_display = (\<lambda>_. ''object''), api_encode_other = (\<lambda>_. Ok JNull),
      api_new = (\<lambda>_ _. ()), api_load = (\<lambda>_. Ok ()), api_dump = (\<lambda>_. Ok []),
      api_feed_start = (\<lambda>_ code.
        if code = MONTY_CODE then Ok (OsCall ''Path.read_text'' [MPath ''hello.txt''] [] (2, ''''))
        else Err ''SyntaxError''),
      api_resume_lookup = (\<lambda>_ _. Err ''NameError''),
      api_resume_call = (\<lambda>(left, text) x. case x of
          ExtReturn (MString s) \<Rightarrow>
            (let text = text @ s @ [CHR 0x0A]
             in Ok (if left = 0 then Complete () (MString text)
                    else OsCall ''Path.read_text'' [MPath ''hello.txt''] [] (left - 1, text)))
        | ExtReturn _ \<Rightarrow> Err ''TypeError''
        | ExtError e \<Rightarrow> Err (''RuntimeError: '' @ e)
        | ExtNotFound n \<Rightarrow> Err (''NameError: '' @ n))\<rparr>"

end
