(* ===== verification/Service.thy ===== *)
theory Service
  imports Tool_Builtin Invocation_Depth
begin

text \<open>
  What the host grants it also delivers. For a plain workspace, where the device never fails and
  the path is a name in the root: a read or a write that the policies allow succeeds, through the
  file tools and through nested invocations of them, and a denied read is an error. Then for any
  workspace and any path, with only the device errors excluded that concern the call. Last the one
  case in which what is delivered is not what was granted: the write through a dangling link.
\<close>

section \<open>A plain workspace\<close>

definition plain_workspace :: "file_system \<Rightarrow> string list \<Rightarrow> bool" where
  "plain_workspace fsys rs \<longleftrightarrow>
     fs_wf fsys \<and> nodes fsys rs = Some Directory \<and> (\<forall>op p. io_fault fsys op p = None)"

definition canonical_at :: "string list \<Rightarrow> canonical_path" where
  "canonical_at ns = \<lparr>cpath = path_of_names ns\<rparr>"

definition workspace_at :: "string list \<Rightarrow> canonical_root" where
  "workspace_at rs = \<lparr>root_path = canonical_at rs\<rparr>"

lemma root_as_path_workspace [simp]: "root_as_path (workspace_at rs) = path_of_names rs"
  by (simp add: workspace_at_def root_as_path_def canonical_at_def)

lemma plain_workspace_names: "plain_workspace fsys rs \<Longrightarrow> \<forall>n \<in> set rs. good_name n"
  unfolding plain_workspace_def fs_wf_def using tree_wf_names by blast

lemma canonicalize_names:
  assumes "plain_workspace fsys rs" and "real_node (nodes fsys) ns"
  shows "fs_canonicalize fsys (path_of_names ns) = Ok (path_of_names ns)"
  using assms fs_resolve_names [of fsys ns False]
  by (simp add: fs_canonicalize_def plain_workspace_def fs_wf_def)

lemma canonical_root_plain:
  "plain_workspace fsys rs \<Longrightarrow> canonical_root_existing fsys (path_of_names rs) = Ok (workspace_at rs)"
  using canonicalize_names [of fsys rs rs]
  by (simp add: canonical_root_existing_def canonical_path_existing_def from_canonical_def
      workspace_at_def canonical_at_def plain_workspace_def)

lemma candidate_plain:
  assumes "plain_workspace fsys rs" and "good_name x"
  shows "candidate_path (path_of_names rs) x = path_of_names (rs @ [x])"
  using assms path_join_name [OF assms(2) plain_workspace_names [OF assms(1)]]
  by (cases x) (auto simp: candidate_path_def is_absolute_def good_name_def)

lemma under_root_plain:
  assumes "plain_workspace fsys rs" and "good_name x"
  shows "ensure_under_root (workspace_at rs) (canonical_at (rs @ [x])) = Ok ()"
proof -
  have "\<forall>n \<in> set (rs @ [x]). good_name n" using plain_workspace_names [OF assms(1)] assms(2) by simp
  from path_starts_with_names [OF this plain_workspace_names [OF assms(1)]] show ?thesis
    by (simp add: ensure_under_root_def root_contains_def canonical_at_def)
qed

lemma resolve_plain_file:
  assumes ws: "plain_workspace fsys rs" and "good_name x"
    and "nodes fsys (rs @ [x]) = Some (RegularFile content)"
  shows "resolve_under_authorization fsys (workspace_at rs) x = Ok (canonical_at (rs @ [x]))"
proof -
  have "fs_canonicalize fsys (path_of_names (rs @ [x])) = Ok (path_of_names (rs @ [x]))"
    using canonicalize_names [OF ws] assms(3) by (simp add: real_node_def)
  with under_root_plain [OF ws assms(2)] candidate_plain [OF ws assms(2)] show ?thesis
    by (simp add: resolve_under_authorization_def canonical_path_existing_def from_canonical_def
        canonical_at_def)
qed

lemma read_plain_file:
  assumes ws: "plain_workspace fsys rs" and "nodes fsys ns = Some (RegularFile content)"
    and "valid_utf8 content"
  shows "read_canonical fsys (canonical_at ns) = Ok content"
  using assms fs_resolve_names [of fsys ns False]
  by (simp add: read_canonical_def fs_read_to_string_def canonical_at_def plain_workspace_def
      fs_wf_def real_node_def)

section \<open>A free place\<close>

lemma walk_free:
  "tree_wf t \<Longrightarrow> t (cur @ todo) = Some Directory \<Longrightarrow> t (cur @ todo @ [x]) = None \<Longrightarrow> good_name x \<Longrightarrow>
   walk create t links cur (todo @ [x]) = (if create then Ok (cur @ todo @ [x]) else Err NotFound)"
proof (induction todo arbitrary: cur)
  case Nil
  then show ?case by (auto simp: walk.simps(2) good_name_def)
next
  case (Cons y ys)
  have dir: "t cur = Some Directory" using tree_wf_prefix [OF Cons.prems(1,2)] by simp
  have good: "good_name y" using tree_wf_names [OF Cons.prems(1,2)] by simp
  have next_dir: "t (cur @ [y]) = Some Directory"
    using tree_wf_prefix [OF Cons.prems(1), of "cur @ [y]" ys] Cons.prems(2) by (cases "ys = []") auto
  have "walk create t links (cur @ [y]) (ys @ [x]) = (if create then Ok (cur @ y # ys @ [x]) else Err NotFound)"
    using Cons.IH [of "cur @ [y]"] Cons.prems by simp
  with dir good next_dir show ?case by (simp add: walk.simps(2) good_name_def)
qed

lemma resolve_free:
  assumes ws: "plain_workspace fsys rs" and x: "good_name x" and free: "nodes fsys (rs @ [x]) = None"
  shows "fs_resolve create fsys (path_of_names (rs @ [x]))
    = (if create then Ok (rs @ [x]) else Err NotFound)"
proof -
  have good: "\<forall>n \<in> set (rs @ [x]). good_name n" using plain_workspace_names [OF ws] x by simp
  have "nodes fsys [] = Some Directory" and wf: "tree_wf (nodes fsys)"
    using ws by (auto simp: plain_workspace_def fs_wf_def tree_wf_root)
  with walk_free [OF wf, of "[]" rs x create max_symlinks] ws free x show ?thesis
    using split_on_path_of_names [OF good_name_no_sep [OF good]]
    by (simp add: fs_resolve_def walk.simps(2) plain_workspace_def)
qed

lemma join_slash_names: "join_slash (x # ns) = x @ concat (map (\<lambda>n. CHR ''/'' # n) ns)"
  by (induction ns arbitrary: x) auto

lemma path_parts_names:
  assumes "\<forall>n \<in> set rs. good_name n" and "good_name x"
  shows "path_file_name (path_of_names (rs @ [x])) = Some x"
    and "path_parent (path_of_names (rs @ [x])) = Some (path_of_names rs)"
proof -
  have components: "components (path_of_names (rs @ [x])) = RootDir # map Normal (rs @ [x])"
    using assms by (intro components_path_of_names) simp
  then show "path_file_name (path_of_names (rs @ [x])) = Some x" by (simp add: path_file_name_def)
  have "component_string \<circ> Normal = (\<lambda>n. n)" by (simp add: fun_eq_iff)
  then have "path_of_components (RootDir # map Normal rs) = path_of_names rs"
    by (simp add: path_of_components_def path_of_names_def join_slash_names)
  with components show "path_parent (path_of_names (rs @ [x])) = Some (path_of_names rs)"
    by (simp add: path_parent_def)
qed

lemma existing_or_parent_new:
  assumes ws: "plain_workspace fsys rs" and x: "good_name x"
    and "\<not> fs_exists fsys (path_of_names (rs @ [x]))"
  shows "canonical_path_existing_or_parent fsys (path_of_names (rs @ [x])) = Ok (canonical_at (rs @ [x]))"
proof -
  have "fs_canonicalize fsys (path_of_names rs) = Ok (path_of_names rs)"
    using canonicalize_names [OF ws] ws by (simp add: plain_workspace_def)
  with assms(3) show ?thesis
    using path_parts_names [OF plain_workspace_names [OF ws] x]
      path_join_name [OF x plain_workspace_names [OF ws]]
    by (simp add: canonical_path_existing_or_parent_def from_canonical_def canonical_at_def ok_or_def)
qed

lemma existing_or_parent_free:
  assumes ws: "plain_workspace fsys rs" and x: "good_name x" and free: "nodes fsys (rs @ [x]) = None"
  shows "canonical_path_existing_or_parent fsys (path_of_names (rs @ [x])) = Ok (canonical_at (rs @ [x]))"
  using resolve_free [OF assms, of False]
  by (intro existing_or_parent_new [OF ws x]) (simp add: fs_exists_def is_ok_def)

lemma resolve_write_free:
  assumes ws: "plain_workspace fsys rs" and x: "good_name x" and free: "nodes fsys (rs @ [x]) = None"
  shows "resolve_write_under_authorization fsys (workspace_at rs) x = Ok (canonical_at (rs @ [x]))"
  using existing_or_parent_free [OF assms] candidate_plain [OF ws x] under_root_plain [OF ws x]
  by (simp add: resolve_write_under_authorization_def)

lemma write_free:
  assumes ws: "plain_workspace fsys rs" and x: "good_name x" and free: "nodes fsys (rs @ [x]) = None"
  shows "write_canonical fsys (canonical_at (rs @ [x])) content
     = (Ok (), fsys\<lparr>nodes := (nodes fsys)(rs @ [x] \<mapsto> RegularFile content)\<rparr>)"
  using resolve_free [OF assms, of True] ws free
  by (simp add: write_canonical_def fs_write_def canonical_at_def plain_workspace_def)

lemma plain_workspace_store:
  assumes ws: "plain_workspace fsys rs" and x: "good_name x" and free: "nodes fsys (rs @ [x]) = None"
  shows "plain_workspace (fsys\<lparr>nodes := (nodes fsys)(rs @ [x] \<mapsto> RegularFile content)\<rparr>) rs"
proof -
  have "fs_write fsys (path_of_names (rs @ [x])) content
     = (Ok (), fsys\<lparr>nodes := (nodes fsys)(rs @ [x] \<mapsto> RegularFile content)\<rparr>)"
    using write_free [OF assms, of content] by (simp add: write_canonical_Ok canonical_at_def)
  from fs_write_wf [OF _ this] ws show ?thesis by (simp add: plain_workspace_def)
qed

section \<open>A dangling link\<close>

lemma walk_dirs:
  "tree_wf t \<Longrightarrow> t (cur @ ds) = Some Directory \<Longrightarrow> walk create t links cur (ds @ rest) = walk create t links (cur @ ds) rest"
proof (induction ds arbitrary: cur)
  case (Cons y ys)
  have dir: "t cur = Some Directory" using tree_wf_prefix [OF Cons.prems] by simp
  have good: "good_name y" using tree_wf_names [OF Cons.prems] by simp
  have next_dir: "t (cur @ [y]) = Some Directory"
    using tree_wf_prefix [OF Cons.prems(1), of "cur @ [y]" ys] Cons.prems(2) by (cases "ys = []") auto
  have "walk create t links (cur @ [y]) (ys @ rest) = walk create t links (cur @ y # ys) rest"
    using Cons.IH [of "cur @ [y]"] Cons.prems by simp
  with dir good next_dir show ?case by (simp add: walk.simps(2) good_name_def)
qed simp

lemma resolve_dangling:
  assumes ws: "plain_workspace fsys rs"
    and link: "nodes fsys (rs @ [x]) = Some (Symlink (path_of_names (ts @ [y])))"
    and dir: "nodes fsys ts = Some Directory" and y: "good_name y" and free: "nodes fsys (ts @ [y]) = None"
  shows "fs_resolve create fsys (path_of_names (rs @ [x])) = (if create then Ok (ts @ [y]) else Err NotFound)"
proof -
  have wf: "tree_wf (nodes fsys)" and root: "nodes fsys [] = Some Directory"
    and here: "nodes fsys rs = Some Directory"
    using ws by (auto simp: plain_workspace_def fs_wf_def tree_wf_root)
  have x: "good_name x" and good: "\<forall>n \<in> set (rs @ [x]). good_name n" "\<forall>n \<in> set (ts @ [y]). good_name n"
    using tree_wf_names [OF wf link] tree_wf_names [OF wf dir] y by auto
  note parts = split_on_path_of_names [OF good_name_no_sep [OF good(1)]]
    split_on_path_of_names [OF good_name_no_sep [OF good(2)]]
  have "walk create (nodes fsys) links [] (ts @ [y])
      = (if create then Ok (ts @ [y]) else Err NotFound)" for links
    using walk_free [OF wf, of "[]" ts y create links] dir free y by simp
  then have "walk create (nodes fsys) max_symlinks rs [x]
      = (if create then Ok (ts @ [y]) else Err NotFound)"
    using here link x parts(2) root
    by (auto simp: walk.simps(2) good_name_def max_symlinks_def split: nat.split)
  moreover have "walk create (nodes fsys) max_symlinks [] (rs @ [x]) = walk create (nodes fsys) max_symlinks rs [x]"
    using walk_dirs [OF wf, of "[]" rs] here by simp
  moreover have "walk create (nodes fsys) max_symlinks [] ([] # rs @ [x]) = walk create (nodes fsys) max_symlinks [] (rs @ [x])"
    using root by (subst walk.simps(2)) simp
  moreover have "path_of_names (rs @ [x]) \<noteq> []" by (simp add: path_of_names_def)
  ultimately show ?thesis using parts(1) by (simp add: fs_resolve_def)
qed


text \<open>A workspace with a link whose target, outside the workspace, does not exist.\<close>

definition escape_fs :: file_system where
  "escape_fs = plain_fs
     [([''ws''], Directory), ([''etc''], Directory), ([''ws'', ''link''], Symlink ''/etc/out'')]"


section \<open>Calls that end\<close>

text \<open>A call returned some \<open>r\<close> with \<open>P r\<close>, or \<open>r\<close> itself, and left these files and sessions.\<close>

definition yields :: "'r exec \<times> world \<Rightarrow> ('r \<Rightarrow> bool) \<Rightarrow> file_system \<Rightarrow> session_store \<Rightarrow> bool" where
  "yields rw P fsys st \<longleftrightarrow> (\<exists>r w'. rw = (Done r, w') \<and> P r \<and> fs w' = fsys \<and> sessions w' = st)"

definition ends :: "'r exec \<times> world \<Rightarrow> 'r \<Rightarrow> file_system \<Rightarrow> session_store \<Rightarrow> bool" where
  "ends rw r fsys st \<longleftrightarrow> yields rw (\<lambda>r'. r' = r) fsys st"

lemma yields_continue:
  assumes "yields rw P fsys st"
    and "\<And>x w1. P x \<Longrightarrow> fs w1 = fsys \<Longrightarrow> sessions w1 = st \<Longrightarrow> yields (k x w1) Q fsys' st'"
  shows "yields (continue rw k) Q fsys' st'"
  using assms unfolding yields_def by fastforce

lemma yields_return: "fs w = fsys \<Longrightarrow> sessions w = st \<Longrightarrow> P r \<Longrightarrow> yields (Done r, w) P fsys st"
  by (simp add: yields_def)

lemma ends_continue:
  assumes "ends rw x fsys st" and "\<And>w1. fs w1 = fsys \<Longrightarrow> sessions w1 = st \<Longrightarrow> ends (k x w1) r fsys' st'"
  shows "ends (continue rw k) r fsys' st'"
  using assms unfolding ends_def by (auto intro: yields_continue)

lemma ends_return: "fs w = fsys \<Longrightarrow> sessions w = st \<Longrightarrow> ends (Done r, w) r fsys st"
  by (simp add: ends_def yields_return)

definition at_workspace ::
  "string \<Rightarrow> tool_registration \<Rightarrow> capabilities \<Rightarrow> string list \<Rightarrow> tool_context" where
  "at_workspace path reg caps rs =
     \<lparr>cx_tool_path = path, cx_registration = reg, cx_effective_capabilities = caps,
      cx_workspace_root = workspace_at rs\<rparr>"

definition params_at :: "string list \<Rightarrow> capabilities \<Rightarrow> invocation_params" where
  "params_at rs caps = invocation_params_new (path_of_names rs) (Some caps)"

definition policy_at :: "string list \<Rightarrow> capabilities \<Rightarrow> policy_context" where
  "policy_at rs caps = \<lparr>ctx_capabilities = caps, ctx_workspace_root = path_of_names rs\<rparr>"

lemma at_workspace_simps [simp]:
  "cx_root (at_workspace path reg caps rs) = path_of_names rs"
  "cx_policy_context (at_workspace path reg caps rs) = policy_at rs caps"
  "cx_effective_capabilities (at_workspace path reg caps rs) = caps"
  "cx_registration (at_workspace path reg caps rs) = reg"
  "cx_tool_path (at_workspace path reg caps rs) = path"
  by (simp_all add: at_workspace_def cx_root_def cx_policy_context_def policy_at_def)

lemma context_plain:
  "plain_workspace fsys rs \<Longrightarrow>
   app_tool_context_new fsys path reg (params_at rs caps) = Ok (at_workspace path reg caps rs)"
  using canonical_root_plain [of fsys rs]
  by (simp add: app_tool_context_new_def params_at_def invocation_params_new_def at_workspace_def)

definition allowed_in :: "app \<Rightarrow> policy_context \<Rightarrow> action \<Rightarrow> bool" where
  "allowed_in a ctx act \<longleftrightarrow> (\<exists>n i r. specified_outcome (app_policy a) ctx act = OutcomeAllow n i r)"

lemma cx_fs_plain:
  "plain_workspace (fs w) rs \<Longrightarrow> cx_fs (at_workspace path reg caps rs) w
     = Done \<lparr>access_workspace_root = workspace_at rs, access_policy_context = policy_at rs caps\<rparr>"
  using canonical_root_plain [of "fs w" rs] by (simp add: cx_fs_def fs_access_new_def)

lemma read_ends:
  assumes ws: "plain_workspace (fs w) rs" and x: "good_name x"
    and "nodes (fs w) (rs @ [x]) = Some (RegularFile content)" and "valid_utf8 content"
    and "allowed_in a (policy_at rs caps) (ActFs (fs_action_new (canonical_at (rs @ [x]))))"
    and "allowed_in a (policy_at rs caps) (ActFsRead \<lparr>read_path = canonical_at (rs @ [x])\<rparr>)"
  shows "ends (with_fs (at_workspace path reg caps rs) (\<lambda>acc. fs_access_read_file (app_policy a) acc x) w)
    (Ok content) (fs w) (sessions w)"
proof -
  let ?acc = "\<lparr>access_workspace_root = workspace_at rs, access_policy_context = policy_at rs caps\<rparr>"
  have "resolve_under_authorization (fs w) (access_workspace_root ?acc) x = Ok (canonical_at (rs @ [x]))"
    using resolve_plain_file [OF ws x assms(3)] by simp
  from read_file_runs [OF this, of "app_policy a"] assms(5,6) obtain w' where
    run: "fs_access_read_file (app_policy a) ?acc x w = (Ok content, w')"
    using read_plain_file [OF ws assms(3,4)] by (auto simp: allowed_in_def)
  from fs_access_read_file_frame [OF run] run show ?thesis
    using cx_fs_plain [OF ws] by (simp add: with_fs_def returned_def ends_def yields_def)
qed

lemma read_denied_ends:
  assumes ws: "plain_workspace (fs w) rs" and x: "good_name x"
    and present: "nodes (fs w) (rs @ [x]) = Some (RegularFile content)"
    and "has_envelope (app_policy a)" and "\<not> allows caps FsRead"
  shows "yields (with_fs (at_workspace path reg caps rs) (\<lambda>acc. fs_access_read_file (app_policy a) acc x) w)
    (\<lambda>r. \<exists>e. r = Err (ExecAuthorization e)) (fs w) (sessions w)"
proof -
  let ?acc = "\<lparr>access_workspace_root = workspace_at rs, access_policy_context = policy_at rs caps\<rparr>"
  obtain r w' where run: "fs_access_read_file (app_policy a) ?acc x w = (r, w')" by fastforce
  have res: "resolve_under_authorization (fs w) (access_workspace_root ?acc) x = Ok (canonical_at (rs @ [x]))"
    using resolve_plain_file [OF ws x present] by simp
  have "\<exists>e. r = Err (ExecAuthorization e)"
  proof (cases "pipeline_grant (app_policy a) ActFs (policy_at rs caps) (fs_action_new (canonical_at (rs @ [x]))) w")
    case (Pair g w1)
    show ?thesis
    proof (cases g)
      case (Inl e)
      with run res Pair show ?thesis by (auto simp: fs_access_read_file_def Let_def)
    next
      case (Inr p)
      obtain g2 w2 where g2: "pipeline_grant (app_policy a) ActFsRead (policy_at rs caps) (fs_read_action_new p) w1
          = (g2, w2)" by fastforce
      have "\<exists>e. g2 = Err e"
        using g2 assms(5)
        by (cases g2) (auto simp: policy_at_def allows_def fs_read_capabilities_def
            dest!: pipeline_grant_gated [OF assms(4)])
      with run res Pair Inr g2 show ?thesis by (auto simp: fs_access_read_file_def Let_def)
    qed
  qed
  with fs_access_read_file_frame [OF run] run show ?thesis
    using cx_fs_plain [OF ws] by (auto simp: with_fs_def returned_def ends_def yields_def)
qed

lemma write_ends:
  assumes ws: "plain_workspace (fs w) rs" and x: "good_name x" and free: "nodes (fs w) (rs @ [x]) = None"
    and a1: "allowed_in a (policy_at rs caps) (ActFs (fs_action_new (canonical_at (rs @ [x]))))"
    and a2: "allowed_in a (policy_at rs caps)
      (ActFsWrite \<lparr>write_path = canonical_at (rs @ [x]), write_content = content\<rparr>)"
  shows "ends (with_fs (at_workspace path reg caps rs) (\<lambda>acc. fs_access_write_file (app_policy a) acc x content) w)
    (Ok ()) ((fs w)\<lparr>nodes := (nodes (fs w))(rs @ [x] \<mapsto> RegularFile content)\<rparr>) (sessions w)"
proof -
  let ?acc = "\<lparr>access_workspace_root = workspace_at rs, access_policy_context = policy_at rs caps\<rparr>"
  let ?c = "canonical_at (rs @ [x])"
  obtain g1 w1 where g1: "pipeline_grant (app_policy a) ActFs (policy_at rs caps) (fs_action_new ?c) w = (Ok g1, w1)"
    using a1 pipeline_grant_allowed [where dyn = ActFs] unfolding allowed_in_def by metis
  obtain g2 w2 where g2: "pipeline_grant (app_policy a) ActFsWrite (policy_at rs caps)
      \<lparr>write_path = ?c, write_content = content\<rparr> w1 = (Ok g2, w2)"
    using a2 pipeline_grant_allowed [where dyn = ActFsWrite] unfolding allowed_in_def by metis
  have act: "fs_write_action_new g1 content = \<lparr>write_path = ?c, write_content = content\<rparr>"
    "into_action g2 = \<lparr>write_path = ?c, write_content = content\<rparr>"
    using pipeline_grant_into_action [OF g1] pipeline_grant_into_action [OF g2]
    by (simp_all add: fs_write_action_new_def fs_action_new_def)
  have frame: "fs w2 = fs w" "sessions w2 = sessions w"
    using pipeline_grant_frame [OF g1] pipeline_grant_frame [OF g2] by simp_all
  have "fs_access_write_file (app_policy a) ?acc x content w = std_fs_write_file g2 w2"
    using resolve_write_free [OF ws x free] g1 g2 act(1) by (simp add: fs_access_write_file_def Let_def)
  also have "\<dots> = (Ok (), w2\<lparr>fs := (fs w)\<lparr>nodes := (nodes (fs w))(rs @ [x] \<mapsto> RegularFile content)\<rparr>\<rparr>)"
    using write_free [OF ws x free] by (simp add: std_fs_write_file_def act(2) frame(1) Let_def)
  finally show ?thesis using cx_fs_plain [OF ws] frame(2)
    by (simp add: with_fs_def returned_def ends_def yields_def)
qed

section \<open>Invocations that end\<close>

lemma context_yields:
  assumes tool: "app_tools a path = Some \<lparr>tool_registration_of = reg, tool_adapter = adapter_invoke app_spans impl\<rparr>"
    and ctx: "app_tool_context_new (fs w) path reg params = Ok ctx"
    and input: "impl_parse_input impl payload = Ok input"
    and run: "\<And>w1. fs w1 = fs w \<Longrightarrow> sessions w1 = sessions w \<Longrightarrow>
      yields (run_prog a (app_invoke n a) ctx (impl_execute impl ctx input) w1) P fsys st"
    and err: "\<And>e. P (Err e) \<Longrightarrow> Q (Err e)" and ok: "\<And>out. P (Ok out) \<Longrightarrow> Q (Ok (impl_into_outcome impl out))"
  shows "yields (app_invoke (Suc n) a path params payload w) Q fsys st"
proof -
  have start: "app_invoke (Suc n) a path params payload w =
     continue (run_prog a (app_invoke n a) ctx (adapter_invoke app_spans impl ctx payload)
        (emit (invocation_start_events path \<lparr>tool_registration_of = reg,
           tool_adapter = adapter_invoke app_spans impl\<rparr> ctx) w))
       (\<lambda>result w2. (Done result, emit (invocation_result_events result @ [SpanExit]) w2))"
    using app_invoke_with_run [OF tool, of w params ctx "app_invoke n a" payload] ctx
    by (simp add: registered_tool_invoke_def)
  have "yields (run_prog a (app_invoke n a) ctx (adapter_invoke app_spans impl ctx payload) w1) Q fsys st"
    if "fs w1 = fs w" "sessions w1 = sessions w" for w1
    using that err ok
    by (auto simp: adapter_invoke_def Let_def input run_prog_bind split: sum.split
        intro!: yields_continue [OF run] yields_return)
  then show ?thesis
    unfolding start by (auto intro!: yields_continue [where P = Q] yields_return)
qed

lemma context_ends:
  assumes "app_tools a path = Some \<lparr>tool_registration_of = reg, tool_adapter = adapter_invoke app_spans impl\<rparr>"
    and "app_tool_context_new (fs w) path reg params = Ok ctx"
    and "impl_parse_input impl payload = Ok input"
    and "\<And>w1. fs w1 = fs w \<Longrightarrow> sessions w1 = sessions w \<Longrightarrow>
      ends (run_prog a (app_invoke n a) ctx (impl_execute impl ctx input) w1) (Ok out) fsys st"
  shows "ends (app_invoke (Suc n) a path params payload w) (Ok (impl_into_outcome impl out)) fsys st"
  unfolding ends_def
  by (rule context_yields [OF assms(1-3) assms(4) [unfolded ends_def]]) simp_all

lemma invocation_yields:
  assumes ws: "plain_workspace (fs w) rs"
    and tool: "app_tools a path = Some \<lparr>tool_registration_of = reg, tool_adapter = adapter_invoke app_spans impl\<rparr>"
    and input: "impl_parse_input impl payload = Ok input"
    and run: "\<And>w1. fs w1 = fs w \<Longrightarrow> sessions w1 = sessions w \<Longrightarrow>
      yields (run_prog a (app_invoke n a) (at_workspace path reg caps rs)
        (impl_execute impl (at_workspace path reg caps rs) input) w1) P fsys st"
    and err: "\<And>e. P (Err e) \<Longrightarrow> Q (Err e)" and ok: "\<And>out. P (Ok out) \<Longrightarrow> Q (Ok (impl_into_outcome impl out))"
  shows "yields (app_invoke (Suc n) a path (params_at rs caps) payload w) Q fsys st"
  using tool context_plain [OF ws] input run err ok by (rule context_yields)

lemma invocation_ends:
  assumes "plain_workspace (fs w) rs"
    and "app_tools a path = Some \<lparr>tool_registration_of = reg, tool_adapter = adapter_invoke app_spans impl\<rparr>"
    and "impl_parse_input impl payload = Ok input"
    and "\<And>w1. fs w1 = fs w \<Longrightarrow> sessions w1 = sessions w \<Longrightarrow>
      ends (run_prog a (app_invoke n a) (at_workspace path reg caps rs)
        (impl_execute impl (at_workspace path reg caps rs) input) w1) (Ok out) fsys st"
  shows "ends (app_invoke (Suc n) a path (params_at rs caps) payload w) (Ok (impl_into_outcome impl out)) fsys st"
  unfolding ends_def
  by (rule invocation_yields [OF assms(1-3) assms(4) [unfolded ends_def]]) simp_all

text \<open>A nested invocation without an override: the parent's workspace and capabilities.\<close>

lemma nested_yields:
  assumes "\<And>w1. fs w1 = fs w \<Longrightarrow> sessions w1 = sessions w \<Longrightarrow> yields (nest p (params_at rs caps) j w1) P fsys st"
  shows "yields (cx_invoke_tool nest (at_workspace path reg caps rs) p None j w) P fsys st"
  using assms by (simp add: cx_invoke_tool_def Let_def params_at_def)

definition registered_at_path :: "app \<Rightarrow> string \<Rightarrow> ('i, 'o) tool_impl \<Rightarrow> bool" where
  "registered_at_path a path impl \<longleftrightarrow>
     (\<exists>reg. app_tools a path = Some \<lparr>tool_registration_of = reg, tool_adapter = adapter_invoke app_spans impl\<rparr>)"

definition read_payload :: "string \<Rightarrow> json" where
  "read_payload x = json_object [(''path'', JString x)]"

definition content_outcome :: "string \<Rightarrow> tool_outcome" where
  "content_outcome content =
     \<lparr>out_payload = json_object [(''content'', JString content)], out_classification = WorkspaceLocal\<rparr>"

lemma read_tool_ends:
  assumes "plain_workspace (fs w) rs" and "good_name x"
    and "nodes (fs w) (rs @ [x]) = Some (RegularFile content)" and "valid_utf8 content"
    and "registered_at_path a path ReadFileTool"
    and "allowed_in a (policy_at rs caps) (ActFs (fs_action_new (canonical_at (rs @ [x]))))"
    and "allowed_in a (policy_at rs caps) (ActFsRead \<lparr>read_path = canonical_at (rs @ [x])\<rparr>)"
  shows "ends (app_invoke (Suc n) a path (params_at rs caps) (read_payload x) w)
    (Ok (content_outcome content)) (fs w) (sessions w)"
proof -
  from assms(5) obtain reg where tool: "app_tools a path
      = Some \<lparr>tool_registration_of = reg, tool_adapter = adapter_invoke app_spans ReadFileTool\<rparr>"
    by (auto simp: registered_at_path_def)
  have input: "impl_parse_input ReadFileTool (read_payload x) = Ok \<lparr>rf_path = x\<rparr>"
    by (simp add: ReadFileTool_def read_file_parse_input_def required_str_def read_payload_def
        json_object_def ok_or_def)
  have "ends (run_prog a (app_invoke n a) (at_workspace path reg caps rs)
        (impl_execute ReadFileTool (at_workspace path reg caps rs) \<lparr>rf_path = x\<rparr>) w1)
      (Ok \<lparr>rf_content = content\<rparr>) (fs w) (sessions w)"
    if "fs w1 = fs w" "sessions w1 = sessions w" for w1
    using read_ends [of w1 rs x content a caps path reg] assms that
    by (auto simp: ReadFileTool_def read_file_execute_def intro!: ends_continue ends_return)
  from invocation_ends [OF assms(1) tool input this] show ?thesis
    by (simp add: ReadFileTool_def read_file_into_outcome_def content_outcome_def)
qed

definition authorization_failed :: "(tool_error + 'a) \<Rightarrow> bool" where
  "authorization_failed r \<longleftrightarrow> (\<exists>e. r = Err (ToolExecution (ExecAuthorization e)))"

lemma denied_read_tool_yields:
  assumes "plain_workspace (fs w) rs" and "good_name x"
    and "nodes (fs w) (rs @ [x]) = Some (RegularFile content)"
    and "registered_at_path a path ReadFileTool"
    and "has_envelope (app_policy a)" and "\<not> allows caps FsRead"
  shows "yields (app_invoke (Suc n) a path (params_at rs caps) (read_payload x) w)
    authorization_failed (fs w) (sessions w)"
proof -
  from assms(4) obtain reg where tool: "app_tools a path
      = Some \<lparr>tool_registration_of = reg, tool_adapter = adapter_invoke app_spans ReadFileTool\<rparr>"
    by (auto simp: registered_at_path_def)
  have input: "impl_parse_input ReadFileTool (read_payload x) = Ok \<lparr>rf_path = x\<rparr>"
    by (simp add: ReadFileTool_def read_file_parse_input_def required_str_def read_payload_def
        json_object_def ok_or_def)
  have "yields (run_prog a (app_invoke n a) (at_workspace path reg caps rs)
        (impl_execute ReadFileTool (at_workspace path reg caps rs) \<lparr>rf_path = x\<rparr>) w1)
      authorization_failed (fs w) (sessions w)"
    if "fs w1 = fs w" "sessions w1 = sessions w" for w1
    using read_denied_ends [of w1 rs x content a caps path reg] assms that
    by (auto simp: ReadFileTool_def read_file_execute_def authorization_failed_def
        intro!: yields_continue yields_return)
  from invocation_yields [OF assms(1) tool input this] show ?thesis
    by (auto simp: authorization_failed_def)
qed

lemma write_tool_ends:
  assumes "plain_workspace (fs w) rs" and "good_name x" and "nodes (fs w) (rs @ [x]) = None"
    and "registered_at_path a path WriteFileTool"
    and "allowed_in a (policy_at rs caps) (ActFs (fs_action_new (canonical_at (rs @ [x]))))"
    and "allowed_in a (policy_at rs caps)
      (ActFsWrite \<lparr>write_path = canonical_at (rs @ [x]), write_content = content\<rparr>)"
  shows "ends (app_invoke (Suc n) a path (params_at rs caps)
      (json_object [(''path'', JString x), (''content'', JString content)]) w)
    (Ok \<lparr>out_payload = json_object [(''ok'', JBool True)], out_classification = Public\<rparr>)
    ((fs w)\<lparr>nodes := (nodes (fs w))(rs @ [x] \<mapsto> RegularFile content)\<rparr>) (sessions w)"
proof -
  from assms(4) obtain reg where tool: "app_tools a path
      = Some \<lparr>tool_registration_of = reg, tool_adapter = adapter_invoke app_spans WriteFileTool\<rparr>"
    by (auto simp: registered_at_path_def)
  let ?payload = "json_object [(''path'', JString x), (''content'', JString content)]"
  have input: "impl_parse_input WriteFileTool ?payload = Ok \<lparr>wf_path = x, wf_content = content\<rparr>"
    by (simp add: WriteFileTool_def write_file_parse_input_def required_str_def json_object_def ok_or_def)
  have "ends (run_prog a (app_invoke n a) (at_workspace path reg caps rs)
        (impl_execute WriteFileTool (at_workspace path reg caps rs) \<lparr>wf_path = x, wf_content = content\<rparr>) w1)
      (Ok ()) ((fs w)\<lparr>nodes := (nodes (fs w))(rs @ [x] \<mapsto> RegularFile content)\<rparr>) (sessions w)"
    if "fs w1 = fs w" "sessions w1 = sessions w" for w1
    using write_ends [of w1 rs x a caps content path reg] assms that
    by (auto simp: WriteFileTool_def write_file_execute_def intro!: ends_continue ends_return)
  from invocation_ends [OF assms(1) tool input this] show ?thesis
    by (simp add: WriteFileTool_def write_file_into_outcome_def)
qed

text \<open>The double tool returns what its second nested invocation returns, or the first error.\<close>

definition double_payload :: "string \<Rightarrow> json \<Rightarrow> json" where
  "double_payload inner_path inner = json_object [(''path'', JString inner_path), (''payload'', inner)]"

lemma double_tool_yields:
  assumes "plain_workspace (fs w) rs" and "registered_at_path a path Double"
    and nested: "\<And>w1. fs w1 = fs w \<Longrightarrow> sessions w1 = sessions w \<Longrightarrow>
      yields (app_invoke n a inner_path (params_at rs caps) inner w1) P (fs w) (sessions w)"
  shows "yields (app_invoke (Suc n) a path (params_at rs caps) (double_payload inner_path inner) w)
    P (fs w) (sessions w)"
proof -
  from assms(2) obtain reg where tool: "app_tools a path
      = Some \<lparr>tool_registration_of = reg, tool_adapter = adapter_invoke app_spans Double\<rparr>"
    by (auto simp: registered_at_path_def)
  have input: "impl_parse_input Double (double_payload inner_path inner) = Ok (inner_path, inner)"
    by (simp add: Double_def double_parse_input_def double_payload_def json_object_def ok_or_def
        decode_tool_path_def)
  have call: "yields (cx_invoke_tool (app_invoke n a) (at_workspace path reg caps rs) inner_path None inner w1)
      P (fs w) (sessions w)" if "fs w1 = fs w" "sessions w1 = sessions w" for w1
    using that by (intro nested_yields nested) simp_all
  have "yields (run_prog a (app_invoke n a) (at_workspace path reg caps rs)
        (impl_execute Double (at_workspace path reg caps rs) (inner_path, inner)) w1) P (fs w) (sessions w)"
    if "fs w1 = fs w" "sessions w1 = sessions w" for w1
    using that
    by (auto simp: Double_def double_execute_def split: sum.split
        intro!: yields_continue [OF call] yields_return)
  from invocation_yields [OF assms(1) tool input this] show ?thesis
    by (simp add: Double_def)
qed

section \<open>Any workspace and any path\<close>

text \<open>The root that the parameters name resolves to the directory \<open>rs\<close>, through links or not, and the
  device refuses no canonicalization.\<close>

definition rooted_at :: "file_system \<Rightarrow> invocation_params \<Rightarrow> string list \<Rightarrow> bool" where
  "rooted_at fsys params rs \<longleftrightarrow>
     fs_wf fsys \<and> canonicalize_stable fsys \<and> fs_resolve False fsys (params_workspace_root params) = Ok rs"

lemma rooted_atD:
  assumes "rooted_at fsys params rs"
  shows "fs_wf fsys" "canonicalize_stable fsys" "real_node (nodes fsys) rs" "\<forall>n \<in> set rs. good_name n"
    "canonical_root_existing fsys (params_workspace_root params) = Ok (workspace_at rs)"
    "canonical_root_existing fsys (path_of_names rs) = Ok (workspace_at rs)"
proof -
  from assms show wf: "fs_wf fsys" and stable: "canonicalize_stable fsys"
    and root: "canonical_root_existing fsys (params_workspace_root params) = Ok (workspace_at rs)"
    by (simp_all add: rooted_at_def canonical_root_existing_def canonical_path_existing_def fs_canonicalize_def
        canonicalize_stable_def from_canonical_def workspace_at_def canonical_at_def)
  from assms show real: "real_node (nodes fsys) rs" by (auto simp: rooted_at_def intro: fs_resolve_real)
  then show "\<forall>n \<in> set rs. good_name n" using wf real_node_names by (auto simp: fs_wf_def)
  from fs_resolve_names [of fsys rs False] wf real stable
  show "canonical_root_existing fsys (path_of_names rs) = Ok (workspace_at rs)"
    by (simp add: fs_wf_def canonical_root_existing_def canonical_path_existing_def fs_canonicalize_def
        canonicalize_stable_def from_canonical_def workspace_at_def canonical_at_def)
qed

lemma context_rooted:
  assumes "rooted_at fsys params rs" and "app_tools a path = Some t"
  shows "app_tool_context_new fsys path (tool_registration_of t) params
    = Ok (at_workspace path (tool_registration_of t) (effective_capabilities a path params) rs)"
  using rooted_atD(5) [OF assms(1)] assms(2)
  by (simp add: app_tool_context_new_def at_workspace_def effective_capabilities_def split: option.split)

lemma cx_fs_rooted:
  "rooted_at (fs w) params rs \<Longrightarrow> cx_fs (at_workspace path reg caps rs) w
     = Done \<lparr>access_workspace_root = workspace_at rs, access_policy_context = policy_at rs caps\<rparr>"
  using rooted_atD(6) by (simp add: cx_fs_def fs_access_new_def)

lemma under_root_names:
  assumes "rooted_at fsys params rs" and "\<forall>n \<in> set ns. good_name n" and "prefix rs ns"
  shows "ensure_under_root (workspace_at rs) (canonical_at ns) = Ok ()"
  using path_starts_with_names [OF assms(2) rooted_atD(4) [OF assms(1)]] assms(3)
  by (simp add: ensure_under_root_def root_contains_def canonical_at_def)

text \<open>The path leads to the node \<open>ns\<close>, and that node is under the root.\<close>

definition leads_to :: "file_system \<Rightarrow> string list \<Rightarrow> string \<Rightarrow> string list \<Rightarrow> bool" where
  "leads_to fsys rs p ns \<longleftrightarrow>
     fs_resolve False fsys (candidate_path (path_of_names rs) p) = Ok ns \<and> prefix rs ns"

lemma resolve_leads_to:
  assumes root: "rooted_at fsys params rs" and to: "leads_to fsys rs p ns"
  shows "resolve_under_authorization fsys (workspace_at rs) p = Ok (canonical_at ns)"
proof -
  have "\<forall>n \<in> set ns. good_name n"
    using rooted_atD(1) [OF root] to fs_resolve_real real_node_names by (fastforce simp: leads_to_def fs_wf_def)
  from under_root_names [OF root this] to rooted_atD(2) [OF root] show ?thesis
    by (simp add: resolve_under_authorization_def canonical_path_existing_def fs_canonicalize_def leads_to_def
        canonicalize_stable_def from_canonical_def canonical_at_def)
qed

text \<open>C23: a read that the policies allow is served. Let the workspace root and a path, both written
  in any way (with \<open>..\<close>, through links, absolute or not), lead to the directory \<open>rs\<close> and to a
  UTF-8 file \<open>ns\<close> under it, and let the device refuse neither canonicalizations nor the reading of
  that file. If the policies allow the access to that file with the invocation's effective
  capabilities, then an invocation of the read tool returns the file's content, and changes
  neither files nor sessions.\<close>

theorem allowed_read_is_served:
  assumes "rooted_at (fs w) params rs" and "leads_to (fs w) rs p ns"
    and "nodes (fs w) ns = Some (RegularFile content)" and "valid_utf8 content"
    and "io_fault (fs w) OpRead (path_of_names ns) = None"
    and "registered_at_path a path ReadFileTool"
    and "allowed_in a (policy_at rs (effective_capabilities a path params)) (ActFs (fs_action_new (canonical_at ns)))"
    and "allowed_in a (policy_at rs (effective_capabilities a path params)) (ActFsRead \<lparr>read_path = canonical_at ns\<rparr>)"
  shows "ends (app_invoke (Suc n) a path params (read_payload p) w)
    (Ok (content_outcome content)) (fs w) (sessions w)"
proof -
  let ?caps = "effective_capabilities a path params"
  from assms(6) obtain reg where tool: "app_tools a path
      = Some \<lparr>tool_registration_of = reg, tool_adapter = adapter_invoke app_spans ReadFileTool\<rparr>"
    by (auto simp: registered_at_path_def)
  let ?acc = "\<lparr>access_workspace_root = workspace_at rs, access_policy_context = policy_at rs ?caps\<rparr>"
  have stored: "read_canonical (fs w) (canonical_at ns) = Ok content"
    using fs_resolve_names [of "fs w" ns False] rooted_atD(1) [OF assms(1)] assms(3-5)
    by (simp add: read_canonical_def fs_read_to_string_def canonical_at_def fs_wf_def real_node_def)
  have facade: "ends (with_fs (at_workspace path reg ?caps rs) (\<lambda>acc. fs_access_read_file (app_policy a) acc p) w1)
      (Ok content) (fs w) (sessions w)" if w1: "fs w1 = fs w" "sessions w1 = sessions w" for w1
  proof -
    have "resolve_under_authorization (fs w1) (access_workspace_root ?acc) p = Ok (canonical_at ns)"
      using resolve_leads_to [OF assms(1,2)] w1 by simp
    from read_file_runs [OF this, of "app_policy a"] assms(7,8) obtain w' where
      run: "fs_access_read_file (app_policy a) ?acc p w1 = (Ok content, w')"
      using stored w1 by (auto simp: allowed_in_def)
    from fs_access_read_file_frame [OF run] run show ?thesis
      using cx_fs_rooted [of w1 params rs] assms(1) w1
      by (simp add: with_fs_def returned_def ends_def yields_def)
  qed
  have "impl_parse_input ReadFileTool (read_payload p) = Ok \<lparr>rf_path = p\<rparr>"
    by (simp add: ReadFileTool_def read_file_parse_input_def required_str_def read_payload_def
        json_object_def ok_or_def)
  moreover have "ends (run_prog a (app_invoke n a) (at_workspace path reg ?caps rs)
        (impl_execute ReadFileTool (at_workspace path reg ?caps rs) \<lparr>rf_path = p\<rparr>) w1)
      (Ok \<lparr>rf_content = content\<rparr>) (fs w) (sessions w)"
    if "fs w1 = fs w" "sessions w1 = sessions w" for w1
    using facade [OF that]
    by (auto simp: ReadFileTool_def read_file_execute_def intro!: ends_continue ends_return)
  ultimately show ?thesis
    using context_ends [OF tool, of w params "at_workspace path reg ?caps rs"] context_rooted [OF assms(1) tool]
    by (fastforce simp: ReadFileTool_def read_file_into_outcome_def content_outcome_def)
qed

section \<open>Any target of a write\<close>

text \<open>The node that a write to the path stores: the file to which an existing path leads, or, in the
  directory to which the parent of a new path leads, the new name; always under the root.\<close>

definition write_target :: "file_system \<Rightarrow> string list \<Rightarrow> string \<Rightarrow> string list \<Rightarrow> bool" where
  "write_target fsys rs p ns \<longleftrightarrow>
     (let cand = candidate_path (path_of_names rs) p
      in prefix rs ns
       \<and> (if fs_exists fsys cand then fs_resolve False fsys cand = Ok ns \<and> nodes fsys ns \<noteq> Some Directory
          else ns \<noteq> [] \<and> nodes fsys ns = None \<and> nodes fsys (butlast ns) = Some Directory
            \<and> path_file_name cand = Some (last ns)
            \<and> (case path_parent cand of Some par \<Rightarrow> fs_resolve False fsys par = Ok (butlast ns) | None \<Rightarrow> False)))"

lemma write_targetD:
  assumes root: "rooted_at fsys params rs" and to: "write_target fsys rs p ns"
  shows "resolve_write_under_authorization fsys (workspace_at rs) p = Ok (canonical_at ns)"
    and "fs_resolve True fsys (path_of_names ns) = Ok ns" and "nodes fsys ns \<noteq> Some Directory"
proof -
  let ?cand = "candidate_path (path_of_names rs) p"
  have wf: "tree_wf (nodes fsys)" "fs_wf fsys" and stable: "canonicalize_stable fsys" and under: "prefix rs ns"
    using rooted_atD(1,2) [OF root] to by (simp_all add: fs_wf_def write_target_def Let_def)
  have "canonical_path_existing_or_parent fsys ?cand = Ok (canonical_at ns) \<and> (\<forall>n \<in> set ns. good_name n)
      \<and> fs_resolve True fsys (path_of_names ns) = Ok ns \<and> nodes fsys ns \<noteq> Some Directory"
  proof (cases "fs_exists fsys ?cand")
    case True
    with to have ns: "fs_resolve False fsys ?cand = Ok ns" "nodes fsys ns \<noteq> Some Directory"
      by (simp_all add: write_target_def Let_def)
    have real: "real_node (nodes fsys) ns" by (rule fs_resolve_real [OF wf(2) ns(1)])
    from True ns stable real_node_names [OF wf(1) real] fs_resolve_names [OF wf(1) real] show ?thesis
      by (simp add: canonical_path_existing_or_parent_def canonical_path_existing_def fs_canonicalize_def
          canonicalize_stable_def from_canonical_def canonical_at_def)
  next
    case False
    with to obtain ds x par where ns: "ns = ds @ [x]" and free: "nodes fsys (ds @ [x]) = None"
      and dir: "nodes fsys ds = Some Directory" and name: "path_file_name ?cand = Some x"
      and par: "path_parent ?cand = Some par" "fs_resolve False fsys par = Ok ds"
      by (cases ns rule: rev_cases) (auto simp: write_target_def Let_def split: option.splits)
    have x: "good_name x" by (rule path_file_name_good [OF name])
    have ds: "\<forall>n \<in> set ds. good_name n" by (rule tree_wf_names [OF wf(1) dir])
    have "walk True (nodes fsys) max_symlinks [] (ds @ [x]) = Ok (ds @ [x])"
      using walk_free [OF wf(1), of "[]" ds x True] dir free x by simp
    moreover have "walk True (nodes fsys) max_symlinks [] ([] # ds @ [x])
        = walk True (nodes fsys) max_symlinks [] (ds @ [x])"
      using tree_wf_root [OF wf(1)] by (subst walk.simps(2)) simp
    moreover have "split_on (CHR ''/'') (path_of_names (ds @ [x])) = [] # ds @ [x]"
      using split_on_path_of_names [of "ds @ [x]"] good_name_no_sep [of "ds @ [x]"] ds x by simp
    moreover have "path_of_names (ds @ [x]) \<noteq> []" by (simp add: path_of_names_def)
    ultimately have "fs_resolve True fsys (path_of_names ns) = Ok ns" by (simp add: fs_resolve_def ns)
    with False name par stable x ds free path_join_name [OF x ds] show ?thesis
      by (simp add: ns canonical_path_existing_or_parent_def fs_canonicalize_def ok_or_def
          canonicalize_stable_def from_canonical_def canonical_at_def)
  qed
  with under_root_names [OF root _ under]
  show "resolve_write_under_authorization fsys (workspace_at rs) p = Ok (canonical_at ns)"
    "fs_resolve True fsys (path_of_names ns) = Ok ns" "nodes fsys ns \<noteq> Some Directory"
    by (simp_all add: resolve_write_under_authorization_def)
qed

text \<open>C30: a write that the policies allow is done, and only it. Let the workspace root and a path, both
  written in any way, lead to the directory \<open>rs\<close> and to an existing file \<open>ns\<close> under it, or to a new
  one in a directory under it; let the device refuse neither canonicalizations nor the writing
  of \<open>ns\<close>. If the policies allow the access and the write with the invocation's effective
  capabilities, an invocation of the write tool answers \<open>ok\<close>, \<open>ns\<close> holds the content, every
  other node is as before, and so are the sessions.\<close>

theorem allowed_write_is_done:
  assumes "rooted_at (fs w) params rs" and "write_target (fs w) rs p ns"
    and "io_fault (fs w) OpWrite (path_of_names ns) = None"
    and "registered_at_path a path WriteFileTool"
    and "allowed_in a (policy_at rs (effective_capabilities a path params)) (ActFs (fs_action_new (canonical_at ns)))"
    and "allowed_in a (policy_at rs (effective_capabilities a path params))
      (ActFsWrite \<lparr>write_path = canonical_at ns, write_content = content\<rparr>)"
  shows "ends (app_invoke (Suc n) a path params
      (json_object [(''path'', JString p), (''content'', JString content)]) w)
    (Ok \<lparr>out_payload = json_object [(''ok'', JBool True)], out_classification = Public\<rparr>)
    ((fs w)\<lparr>nodes := (nodes (fs w))(ns \<mapsto> RegularFile content)\<rparr>) (sessions w)"
proof -
  let ?caps = "effective_capabilities a path params"
  let ?fs' = "(fs w)\<lparr>nodes := (nodes (fs w))(ns \<mapsto> RegularFile content)\<rparr>"
  from assms(4) obtain reg where tool: "app_tools a path
      = Some \<lparr>tool_registration_of = reg, tool_adapter = adapter_invoke app_spans WriteFileTool\<rparr>"
    by (auto simp: registered_at_path_def)
  let ?acc = "\<lparr>access_workspace_root = workspace_at rs, access_policy_context = policy_at rs ?caps\<rparr>"
  note target = write_targetD [OF assms(1,2)]
  have stored: "fs_write (fs w) (cpath (canonical_at ns)) content = (Ok (), ?fs')"
    using target(2,3) assms(3)
    by (auto simp: fs_write_def canonical_at_def split: option.splits fs_node.splits)
  have facade: "ends (with_fs (at_workspace path reg ?caps rs) (\<lambda>acc. fs_access_write_file (app_policy a) acc p content) w1)
      (Ok ()) ?fs' (sessions w)" if w1: "fs w1 = fs w" "sessions w1 = sessions w" for w1
  proof -
    have res: "resolve_write_under_authorization (fs w1) (access_workspace_root ?acc) p = Ok (canonical_at ns)"
      using target(1) w1 by simp
    have wr: "fs_write (fs w1) (cpath (canonical_at ns)) content = (Ok (), ?fs')" using stored w1 by simp
    from write_file_runs [OF res _ _ wr, of "app_policy a"] assms(5,6) obtain w' where
      "fs_access_write_file (app_policy a) ?acc p content w1 = (Ok (), w')" "fs w' = ?fs'" "sessions w' = sessions w1"
      by (auto simp: allowed_in_def)
    then show ?thesis
      using cx_fs_rooted [of w1 params rs] assms(1) w1
      by (simp add: with_fs_def returned_def ends_def yields_def)
  qed
  have "impl_parse_input WriteFileTool (json_object [(''path'', JString p), (''content'', JString content)])
      = Ok \<lparr>wf_path = p, wf_content = content\<rparr>"
    by (simp add: WriteFileTool_def write_file_parse_input_def required_str_def json_object_def ok_or_def)
  moreover have "ends (run_prog a (app_invoke n a) (at_workspace path reg ?caps rs)
        (impl_execute WriteFileTool (at_workspace path reg ?caps rs) \<lparr>wf_path = p, wf_content = content\<rparr>) w1)
      (Ok ()) ?fs' (sessions w)"
    if "fs w1 = fs w" "sessions w1 = sessions w" for w1
    using facade [OF that]
    by (auto simp: WriteFileTool_def write_file_execute_def intro!: ends_continue ends_return)
  ultimately show ?thesis
    using context_ends [OF tool, of w params "at_workspace path reg ?caps rs"] context_rooted [OF assms(1) tool]
    by (fastforce simp: WriteFileTool_def write_file_into_outcome_def)
qed

section \<open>A workspace behind links\<close>

text \<open>\<open>/ws\<close> is a link to the workspace, and \<open>latest\<close> in it a link to a file of a subdirectory.\<close>

definition linked_fs :: file_system where
  "linked_fs = plain_fs
     [([''home''], Directory), ([''home'', ''ws''], Directory), ([''home'', ''ws'', ''docs''], Directory),
      ([''home'', ''ws'', ''docs'', ''note''], RegularFile ''note''),
      ([''home'', ''ws'', ''latest''], Symlink ''docs/note''), ([''ws''], Symlink ''/home/ws'')]"

lemma allowed_in_by_outcome:
  "(case specified_outcome (app_policy a) ctx act of OutcomeAllow n i r \<Rightarrow> True | _ \<Rightarrow> False) \<Longrightarrow>
   allowed_in a ctx act"
  by (auto simp: allowed_in_def split: policy_outcome.splits)

lemma linked_rooted:
  "rooted_at (fs (initial_world linked_fs)) (invocation_params_new ''/ws/.'' None) [''home'', ''ws'']"
proof -
  have "fs_wf linked_fs" unfolding linked_fs_def by (rule plain_fs_wf) code_simp
  moreover have "canonicalize_stable linked_fs" by (simp add: canonicalize_stable_def linked_fs_def)
  moreover have "fs_resolve False linked_fs ''/ws/.'' = Ok [''home'', ''ws'']" by code_simp
  ultimately show ?thesis by (simp add: rooted_at_def invocation_params_new_def)
qed

theorem allowed_read_is_served_witness:
  "ends (app_invoke 1 workspace_app ''read_file'' (invocation_params_new ''/ws/.'' None)
      (read_payload ''docs/../latest'') (initial_world linked_fs))
    (Ok (content_outcome ''note'')) linked_fs session_store_new"
proof -
  let ?w = "initial_world linked_fs" and ?ns = "[''home'', ''ws'', ''docs'', ''note'']"
  let ?params = "invocation_params_new ''/ws/.'' None" and ?rs = "[''home'', ''ws'']"
  let ?ctx = "policy_at ?rs (effective_capabilities workspace_app ''read_file'' ?params)"
  have to: "leads_to (fs ?w) ?rs ''docs/../latest'' ?ns"
    unfolding leads_to_def by code_simp
  have node: "nodes (fs ?w) ?ns = Some (RegularFile ''note'')" "valid_utf8 ''note''" by code_simp+
  have dev: "io_fault (fs ?w) OpRead (path_of_names ?ns) = None" by (simp add: linked_fs_def)
  have tool: "registered_at_path workspace_app ''read_file'' ReadFileTool"
    by (simp add: registered_at_path_def workspace_app_def builtin_tool_def)
  have "allowed_in workspace_app ?ctx (ActFs (fs_action_new (canonical_at ?ns)))"
    by (rule allowed_in_by_outcome) code_simp
  moreover have "allowed_in workspace_app ?ctx (ActFsRead \<lparr>read_path = canonical_at ?ns\<rparr>)"
    by (rule allowed_in_by_outcome) code_simp
  ultimately show ?thesis
    using allowed_read_is_served [OF linked_rooted to node dev tool, of 0] by (simp del: app_invoke.simps)
qed

theorem allowed_write_is_done_witness:
  "ends (app_invoke 1 workspace_app ''write_file'' (invocation_params_new ''/ws/.'' None)
      (json_object [(''path'', JString ''docs/../docs/new''), (''content'', JString ''data'')]) (initial_world linked_fs))
    (Ok \<lparr>out_payload = json_object [(''ok'', JBool True)], out_classification = Public\<rparr>)
    (linked_fs\<lparr>nodes := (nodes linked_fs)([''home'', ''ws'', ''docs'', ''new''] \<mapsto> RegularFile ''data'')\<rparr>) session_store_new"
proof -
  let ?w = "initial_world linked_fs" and ?ns = "[''home'', ''ws'', ''docs'', ''new'']"
  let ?params = "invocation_params_new ''/ws/.'' None" and ?rs = "[''home'', ''ws'']"
  let ?ctx = "policy_at ?rs (effective_capabilities workspace_app ''write_file'' ?params)"
  have to: "write_target (fs ?w) ?rs ''docs/../docs/new'' ?ns"
    unfolding write_target_def by code_simp
  have dev: "io_fault (fs ?w) OpWrite (path_of_names ?ns) = None" by (simp add: linked_fs_def)
  have tool: "registered_at_path workspace_app ''write_file'' WriteFileTool"
    by (simp add: registered_at_path_def workspace_app_def builtin_tool_def)
  have "allowed_in workspace_app ?ctx (ActFs (fs_action_new (canonical_at ?ns)))"
    by (rule allowed_in_by_outcome) code_simp
  moreover have "allowed_in workspace_app ?ctx (ActFsWrite \<lparr>write_path = canonical_at ?ns, write_content = ''data''\<rparr>)"
    by (rule allowed_in_by_outcome) code_simp
  ultimately show ?thesis
    using allowed_write_is_done [OF linked_rooted to dev tool, of "''data''" 0] by (simp del: app_invoke.simps)
qed

end
