(* ===== verification/Monty_Service.thy ===== *)
theory Monty_Service
  imports Tool_Monty_Laws Service
begin

text \<open>
  Monty runs on the application: a run whose script ends is served, and its session continues
  where the last run of the session left it. \<open>session_repl\<close> is the abstraction of the session store: the
  state of the interpreter that stands for a key.
\<close>

section \<open>Calls that end\<close>

lemma nested_ends:
  assumes "\<And>w1. fs w1 = fs w \<Longrightarrow> sessions w1 = sessions w \<Longrightarrow> ends (nest p (params_at rs caps) j w1) r fsys st"
  shows "ends (cx_invoke_tool nest (at_workspace path reg caps rs) p None j w) r fsys st"
  using assms unfolding ends_def by (rule nested_yields)

lemma monty_os_read_ends:
  assumes "plain_workspace (fs w) rs" and "good_name x"
    and "nodes (fs w) (rs @ [x]) = Some (RegularFile content)" and "valid_utf8 content"
    and "registered_at_path a path MontyOsTool"
    and "allowed_in a (policy_at rs caps) (ActFs (fs_action_new (canonical_at (rs @ [x]))))"
    and "allowed_in a (policy_at rs caps) (ActFsRead \<lparr>read_path = canonical_at (rs @ [x])\<rparr>)"
  shows "ends (app_invoke (Suc n) a path (params_at rs caps)
      (json_object [(''function'', JString ''Path.read_text''), (''args'', JArray [JString x]),
         (''kwargs'', JObject [])]) w)
    (Ok \<lparr>out_payload = JString content, out_classification = WorkspaceLocal\<rparr>) (fs w) (sessions w)"
proof -
  from assms(5) obtain reg where tool: "app_tools a path
      = Some \<lparr>tool_registration_of = reg, tool_adapter = adapter_invoke app_spans MontyOsTool\<rparr>"
    by (auto simp: registered_at_path_def)
  let ?input = "\<lparr>os_function = ''Path.read_text'', os_args = [JString x], os_kwargs = []\<rparr>"
  have input: "impl_parse_input MontyOsTool (json_object [(''function'', JString ''Path.read_text''),
      (''args'', JArray [JString x]), (''kwargs'', JObject [])]) = Ok ?input"
    by (simp add: MontyOsTool_def monty_os_parse_input_def json_object_def get_str_def ok_or_def)
  have "ends (run_prog a (app_invoke n a) (at_workspace path reg caps rs)
        (impl_execute MontyOsTool (at_workspace path reg caps rs) ?input) w1)
      (Ok \<lparr>out_payload = JString content, out_classification = WorkspaceLocal\<rparr>) (fs w) (sessions w)"
    if "fs w1 = fs w" "sessions w1 = sessions w" for w1
    using read_ends [of w1 rs x content a caps path reg] assms that
    by (auto simp: MontyOsTool_def monty_os_execute_def ensure_no_os_kwargs_def os_arg_path_def os_arg_def
        intro!: ends_continue ends_return)
  from invocation_ends [OF assms(1) tool input this] show ?thesis by (simp add: MontyOsTool_def)
qed

lemma session_load_ends:
  assumes "\<not> poisoned (sessions w)" and "load_raw (sessions w) (session_key acc sid) = Ok v"
    and "\<exists>n i r. specified_outcome pl (session_policy_context acc)
           (ActSessionLoad (session_load_action_new (session_key acc sid))) = OutcomeAllow n i r"
  shows "ends (returned (session_access_load pl acc sid w)) (Ok v) (fs w) (sessions w)"
proof -
  from assms(1,3) obtain v' w' where run: "session_access_load pl acc sid w = (Ok v', w')"
    using session_load_runs by blast
  from session_access_load_Ok [OF run] session_access_load_frame [OF run] assms(2) run show ?thesis
    by (simp add: returned_def ends_def yields_def)
qed

lemma session_save_ends:
  assumes "\<not> poisoned (sessions w)"
    and "\<exists>n i r. specified_outcome pl (session_policy_context acc)
           (ActSessionSave (session_save_action_new (session_key acc sid) bs)) = OutcomeAllow n i r"
  shows "ends (returned (session_access_save pl acc sid bs w)) (Ok ()) (fs w)
    (snd (save_raw (sessions w) (session_key acc sid) bs))"
proof -
  from assms obtain w' where run: "session_access_save pl acc sid bs w = (Ok (), w')"
    using session_save_runs by blast
  from session_access_save_Ok [OF run] run show ?thesis
    by (simp add: returned_def ends_def yields_def)
qed

section \<open>A run that ends\<close>

definition sessions_allowed :: "app \<Rightarrow> bool" where
  "sessions_allowed a \<longleftrightarrow>
     (\<forall>ctx l s. (\<exists>n i r. specified_outcome (app_policy a) ctx (ActSessionLoad l) = OutcomeAllow n i r)
            \<and> (\<exists>n i r. specified_outcome (app_policy a) ctx (ActSessionSave s) = OutcomeAllow n i r))"

definition monty_outcome :: "json \<Rightarrow> string \<Rightarrow> output_classification \<Rightarrow> tool_outcome" where
  "monty_outcome v sid cls =
     \<lparr>out_payload = json_object [(''value'', v), (''session_id'', JString sid)], out_classification = cls\<rparr>"

abbreviation workspace_key :: "string list \<Rightarrow> string \<Rightarrow> monty_session_key" where
  "workspace_key rs sid \<equiv> monty_session_key_new (path_of_names rs) sid"

lemma monty_sessions_at:
  "session_workspace_root (cx_monty_sessions (at_workspace path reg caps rs)) = path_of_names rs"
  by (simp add: cx_monty_sessions_def session_access_new_def)

text \<open>If the script ends in a state that serializes, with a value that has a JSON form, the run
  returns that value and stores that state; the files are those that the script left.\<close>

lemma monty_invocation_ends:
  assumes ws: "plain_workspace (fs w) rs" and tool: "registered_at_path a path (MontyTool bound api t)"
    and input: "monty_parse_input payload = Ok \<lparr>input_code = code, input_session_id = sid\<rparr>"
    and allowed: "sessions_allowed a" and lock: "\<not> poisoned (sessions w)"
    and stored: "load_raw (sessions w) (workspace_key rs sid) = Ok stored" "monty_open_session api t stored = Ok repl"
    and loop: "\<And>reg w1. fs w1 = fs w \<Longrightarrow> sessions w1 = sessions w \<Longrightarrow>
      ends (run_prog a (app_invoke n a) (at_workspace path reg caps rs) (drive bound api t repl code) w1)
        (Ok step) fsys (sessions w)"
    and dump: "api_dump api (step_repl step) = Ok bs" and enc: "monty_to_json api (step_value step) = Ok v"
  shows "ends (app_invoke (Suc n) a path (params_at rs caps) payload w)
    (Ok (monty_outcome v sid (step_classification step))) fsys
    (snd (save_raw (sessions w) (workspace_key rs sid) bs))"
proof -
  from tool obtain reg where reg: "app_tools a path
      = Some \<lparr>tool_registration_of = reg, tool_adapter = adapter_invoke app_spans (MontyTool bound api t)\<rparr>"
    by (auto simp: registered_at_path_def)
  let ?ctx = "at_workspace path reg caps rs" and ?input = "\<lparr>input_code = code, input_session_id = sid\<rparr>"
  let ?st = "snd (save_raw (sessions w) (workspace_key rs sid) bs)"
  let ?acc = "cx_monty_sessions ?ctx"
  have load: "ends (returned (session_access_load (app_policy a) ?acc sid w1)) (Ok stored) (fs w) (sessions w)"
    if "fs w1 = fs w" "sessions w1 = sessions w" for w1
    using session_load_ends [of w1 ?acc sid stored "app_policy a"] allowed lock stored(1) that
    by (simp add: monty_sessions_at sessions_allowed_def)
  have save: "ends (returned (session_access_save (app_policy a) ?acc sid bs w1)) (Ok ()) fsys ?st"
    if "fs w1 = fsys" "sessions w1 = sessions w" for w1
    using session_save_ends [of w1 "app_policy a" ?acc sid bs] allowed lock that
    by (simp add: monty_sessions_at sessions_allowed_def)
  have finish: "ends (run_prog a (app_invoke n a) ?ctx (monty_finish api ?input step) w1)
      (Ok (monty_outcome v sid (step_classification step))) fsys ?st"
    if "fs w1 = fsys" "sessions w1 = sessions w" for w1
    by (simp add: monty_finish_def dump enc monty_outcome_def)
      (rule ends_continue [OF save [OF that]], simp add: ends_return enc)
  have rest: "ends (run_prog a (app_invoke n a) ?ctx (try_prog (drive bound api t repl code) (monty_finish api ?input)) w1)
      (Ok (monty_outcome v sid (step_classification step))) fsys ?st"
    if "fs w1 = fs w" "sessions w1 = sessions w" for w1
    unfolding try_prog_def run_prog_bind
    by (rule ends_continue [OF loop [OF that]]) (use finish in simp_all)
  have "ends (run_prog a (app_invoke n a) ?ctx (impl_execute (MontyTool bound api t) ?ctx ?input) w1)
      (Ok (monty_outcome v sid (step_classification step))) fsys ?st"
    if "fs w1 = fs w" "sessions w1 = sessions w" for w1
    by (simp add: MontyTool_def monty_execute_def)
      (rule ends_continue [OF load [OF that]], simp add: stored(2) rest)
  moreover have "impl_parse_input (MontyTool bound api t) payload = Ok ?input"
    using input by (simp add: MontyTool_def)
  ultimately show ?thesis
    using invocation_ends [OF ws reg] by (simp add: MontyTool_def)
qed

section \<open>Sessions continue\<close>

text \<open>What the code relies on of the interpreter: a state that was dumped is the state that loads.\<close>

definition restores :: "('x, 'r, 's, 'l) monty_api \<Rightarrow> bool" where
  "restores api \<longleftrightarrow> (\<forall>repl bs. api_dump api repl = Ok bs \<longrightarrow> api_load api bs = Ok repl)"

text \<open>The state of the interpreter that the store holds under a key: a new one when none is stored.\<close>

definition session_repl ::
  "('x, 'r, 's, 'l) monty_api \<Rightarrow> 'l monty_tool \<Rightarrow> session_store \<Rightarrow> monty_session_key \<Rightarrow> 'r option" where
  "session_repl api t st k =
     (case load_raw st k of
        Err _ \<Rightarrow> None
      | Ok stored \<Rightarrow> (case monty_open_session api t stored of Err _ \<Rightarrow> None | Ok repl \<Rightarrow> Some repl))"

text \<open>After a save of the dumped state, the key stands for that state.\<close>

lemma session_repl_saved:
  assumes "restores api" and "api_dump api repl = Ok bs" and "save_raw st k bs = (Ok (), st')"
  shows "session_repl api t st' k = Some repl"
  using memory.get_after_put [OF assms(3) refl] assms(1,2)
  by (simp add: session_repl_def restores_def monty_open_session_def)



lemma monty_execute_continues:
  assumes "restores api"
    and run: "run_prog a nest ctx (monty_execute bound api t ctx' input) w = (Done (Ok out), w1)"
  shows "\<exists>repl step v wa wb.
     session_repl api t (sessions w) (session_key (cx_monty_sessions ctx) (input_session_id input)) = Some repl
   \<and> fs wa = fs w \<and> sessions wa = sessions w
   \<and> run_prog a nest ctx (drive bound api t repl (input_code input)) wa = (Done (Ok step), wb)
   \<and> session_repl api t (sessions w1) (session_key (cx_monty_sessions ctx) (input_session_id input)) = Some (step_repl step)
   \<and> fs w1 = fs wb
   \<and> monty_to_json api (step_value step) = Ok v
   \<and> out = monty_outcome v (input_session_id input) (step_classification step)"
proof -
  let ?acc = "cx_monty_sessions ctx" and ?sid = "input_session_id input"
  obtain loaded wa where load: "session_access_load (app_policy a) ?acc ?sid w = (loaded, wa)" by fastforce
  with run obtain stored repl where stored: "loaded = Ok stored" "monty_open_session api t stored = Ok repl"
    and rest: "run_prog a nest ctx (try_prog (drive bound api t repl (input_code input)) (monty_finish api input)) wa
      = (Done (Ok out), w1)"
    by (auto simp: monty_execute_def returned_def and_then_eq_Ok split: sum.splits)
  from rest obtain r wb where drive: "run_prog a nest ctx (drive bound api t repl (input_code input)) wa = (Done r, wb)"
    and after: "run_prog a nest ctx (case r of Err e \<Rightarrow> Return (Err e) | Ok x \<Rightarrow> monty_finish api input x) wb = (Done (Ok out), w1)"
    unfolding try_prog_def run_prog_bind by (blast elim: continue_DoneE)
  from after obtain step where r: "r = Ok step"
    and finish: "run_prog a nest ctx (monty_finish api input step) wb = (Done (Ok out), w1)"
    by (cases r) auto
  from finish obtain bs where dump: "api_dump api (step_repl step) = Ok bs"
    by (cases "api_dump api (step_repl step)") (auto simp: monty_finish_def)
  obtain saved wc where "session_access_save (app_policy a) ?acc ?sid bs wb = (saved, wc)" by fastforce
  with finish dump obtain v where save: "session_access_save (app_policy a) ?acc ?sid bs wb = (Ok (), w1)"
    and v: "monty_to_json api (step_value step) = Ok v"
    and out: "out = monty_outcome v ?sid (step_classification step)"
    by (auto simp: monty_finish_def returned_def monty_outcome_def and_then_eq_Ok split: sum.splits)
  from session_access_load_Ok [OF load [unfolded stored(1)]] stored(2)
  have "session_repl api t (sessions w) (session_key ?acc ?sid) = Some repl" by (simp add: session_repl_def)
  moreover from session_access_save_Ok [OF save] session_repl_saved [OF assms(1) dump]
  have "session_repl api t (sessions w1) (session_key ?acc ?sid) = Some (step_repl step)" "fs w1 = fs wb" by blast+
  ultimately show ?thesis
    using session_access_load_frame [OF load] drive [unfolded r] v out by blast
qed

text \<open>A successful invocation ran the tool's own code on the parsed payload, between audit entries.\<close>

lemma invocation_Ok:
  assumes tool: "registered_at_path a path impl"
    and run: "app_invoke (Suc n) a path params payload w = (Done (Ok out), w1)"
  shows "\<exists>ctx input out' wa wb.
     canonical_root_existing (fs w) (params_workspace_root params) = Ok (cx_workspace_root ctx)
   \<and> impl_parse_input impl payload = Ok input
   \<and> fs wa = fs w \<and> sessions wa = sessions w
   \<and> run_prog a (app_invoke n a) ctx (impl_execute impl ctx input) wa = (Done (Ok out'), wb)
   \<and> fs w1 = fs wb \<and> sessions w1 = sessions wb
   \<and> out = impl_into_outcome impl out'"
proof -
  from tool obtain reg where t: "app_tools a path
      = Some \<lparr>tool_registration_of = reg, tool_adapter = adapter_invoke app_spans impl\<rparr>"
    by (auto simp: registered_at_path_def)
  from run t obtain ctx where ctx: "app_tool_context_new (fs w) path reg params = Ok ctx"
    by (cases "app_tool_context_new (fs w) path reg params") (auto simp: app_invoke_with_def)
  then have root: "canonical_root_existing (fs w) (params_workspace_root params) = Ok (cx_workspace_root ctx)"
    by (auto simp: app_tool_context_new_def and_then_eq_Ok Let_def)
  define wa where "wa = emit (invocation_start_events path \<lparr>tool_registration_of = reg,
      tool_adapter = adapter_invoke app_spans impl\<rparr> ctx) w"
  have same: "fs wa = fs w" "sessions wa = sessions w" by (simp_all add: wa_def)
  have "continue (run_prog a (app_invoke n a) ctx (adapter_invoke app_spans impl ctx payload) wa)
      (\<lambda>result w2. (Done result, emit (invocation_result_events result @ [SpanExit]) w2)) = (Done (Ok out), w1)"
    using app_invoke_with_run [OF t, of w params ctx "app_invoke n a" payload] ctx run
    by (simp add: registered_tool_invoke_def wa_def)
  then obtain wb where adapter: "run_prog a (app_invoke n a) ctx (adapter_invoke app_spans impl ctx payload) wa
      = (Done (Ok out), wb)" and after: "fs w1 = fs wb" "sessions w1 = sessions wb"
    by (auto elim!: continue_DoneE)
  from adapter obtain input where input: "impl_parse_input impl payload = Ok input"
    by (cases "impl_parse_input impl payload") (auto simp: adapter_invoke_def Let_def)
  let ?name = "tool_name (reg_spec (cx_registration ctx))"
  define wc where "wc = emit (record_span_result None @ leave (host_parse_input_span app_spans ?name)
      @ host_execution_span app_spans ?name) (emit (host_parse_input_span app_spans ?name) wa)"
  have inside: "fs wc = fs wa" "sessions wc = sessions wa" by (simp_all add: wc_def)
  from adapter input have "continue (run_prog a (app_invoke n a) ctx (impl_execute impl ctx input) wc)
      (\<lambda>r. run_prog a (app_invoke n a) ctx (case r of
        Ok output \<Rightarrow> EmitAudit (record_span_result None @ leave (host_execution_span app_spans ?name))
          (Return (Ok (impl_into_outcome impl output)))
      | Err error \<Rightarrow> EmitAudit (record_span_result (Some (debug_tool_error error))
          @ leave (host_execution_span app_spans ?name)) (Return (Err error)))) = (Done (Ok out), wb)"
    by (simp add: adapter_invoke_def Let_def run_prog_bind wc_def)
  then obtain r wd where exe: "run_prog a (app_invoke n a) ctx (impl_execute impl ctx input) wc = (Done r, wd)"
    and rest: "run_prog a (app_invoke n a) ctx (case r of
        Ok output \<Rightarrow> EmitAudit (record_span_result None @ leave (host_execution_span app_spans ?name))
          (Return (Ok (impl_into_outcome impl output)))
      | Err error \<Rightarrow> EmitAudit (record_span_result (Some (debug_tool_error error))
          @ leave (host_execution_span app_spans ?name)) (Return (Err error))) wd = (Done (Ok out), wb)"
    by (rule continue_DoneE)
  from rest obtain out' where "r = Ok out'" "out = impl_into_outcome impl out'" "fs wb = fs wd" "sessions wb = sessions wd"
    by (cases r) auto
  with root input same after exe inside show ?thesis by metis
qed

text \<open>C16: a Monty session continues: a run starts in the state that the store holds for its session, a new
  one when there is none, and after a run that succeeds the store holds the state in which the
  script ended; so the next run of this session in this workspace continues there. The hypothesis
  on the interpreter is that a dumped state loads as the same state. The outcome carries the value
  of the script and the identifier of the session.\<close>

theorem monty_session_continues:
  assumes "restores api" and "registered_at_path a path (MontyTool bound api t)"
    and "app_invoke (Suc n) a path params payload w = (Done (Ok out), w1)"
  shows "\<exists>ctx input repl step v wa wb.
     canonical_root_existing (fs w) (params_workspace_root params) = Ok (cx_workspace_root ctx)
   \<and> monty_parse_input payload = Ok input
   \<and> session_repl api t (sessions w) (monty_session_key_new (cx_root ctx) (input_session_id input)) = Some repl
   \<and> fs wa = fs w \<and> sessions wa = sessions w
   \<and> run_prog a (app_invoke n a) ctx (drive bound api t repl (input_code input)) wa = (Done (Ok step), wb)
   \<and> session_repl api t (sessions w1) (monty_session_key_new (cx_root ctx) (input_session_id input))
       = Some (step_repl step)
   \<and> fs w1 = fs wb
   \<and> monty_to_json api (step_value step) = Ok v
   \<and> out = monty_outcome v (input_session_id input) (step_classification step)"
proof -
  have key: "session_key (cx_monty_sessions ctx) sid = monty_session_key_new (cx_root ctx) sid" for ctx sid
    by (simp add: cx_monty_sessions_def session_access_new_def)
  from invocation_Ok [OF assms(2,3)] obtain ctx input out' wa wb where
    root: "canonical_root_existing (fs w) (params_workspace_root params) = Ok (cx_workspace_root ctx)"
    and input: "monty_parse_input payload = Ok input"
    and wa: "fs wa = fs w" "sessions wa = sessions w"
    and run: "run_prog a (app_invoke n a) ctx (monty_execute bound api t ctx input) wa = (Done (Ok out'), wb)"
    and wb: "fs w1 = fs wb" "sessions w1 = sessions wb" and out: "out = out'"
    unfolding MontyTool_def by auto
  from monty_execute_continues [OF assms(1) run, unfolded key wa wb [symmetric] out [symmetric]] root input
  show ?thesis by blast
qed

end
