(* ===== verification/Demo_Laws.thy ===== *)
theory Demo_Laws
  imports Demo Monty_Service
begin

text \<open>
  The demo runs to its end: on a fresh directory, none of its \<open>unwrap\<close>s panics, the outcomes are
  the ones its code expects, and the workspace holds the written file. The interpreter is any
  one that runs the script of the demo as Python does (\<open>runs_demo_script\<close>).
\<close>

section \<open>The policies of the demo\<close>

definition demo_pipeline :: "fs_write_action policy \<Rightarrow> policy_pipeline" where
  "demo_pipeline exact_write = fold apply_registration (demo_policies exact_write) (app_policy app_new)"

lemma demo_pipeline_envelope: "has_envelope (demo_pipeline pol)"
  unfolding demo_pipeline_def by (intro has_envelope_fold app_new_envelope)

lemma demo_pipeline_entries:
  "inbound_policies (registry (demo_pipeline pol)) = [\<lparr>reg_id = 1, reg_inner = CapabilityEnvelopePolicy\<rparr>]"
  "outbound_policies (registry (demo_pipeline pol)) = []"
  "typed_policies (demo_pipeline pol) (ActFs f) =
     [\<lparr>reg_id = 2, reg_inner = box_policy as_fs_action AllowWorkspaceFsPolicy\<rparr>]"
  "typed_policies (demo_pipeline pol) (ActFsWrite wr) = [\<lparr>reg_id = 3, reg_inner = box_policy as_fs_write pol\<rparr>]"
  "typed_policies (demo_pipeline pol) (ActFsRead rd) =
     [\<lparr>reg_id = 4, reg_inner = box_policy as_fs_read AllowWorkspaceReadPolicy\<rparr>]"
  "typed_policies (demo_pipeline pol) (ActSessionLoad sl) =
     [\<lparr>reg_id = 5, reg_inner = box_policy as_session_load AllowMontySessionPolicy_load\<rparr>]"
  "typed_policies (demo_pipeline pol) (ActSessionSave ss) =
     [\<lparr>reg_id = 6, reg_inner = box_policy as_session_save AllowMontySessionPolicy_save\<rparr>]"
  by (simp_all add: demo_pipeline_def demo_policies_def app_new_policy pipeline_op_defs registry_op_defs
      pipeline_new_def registry_new_def inbound_policies_def outbound_policies_def typed_policies_def Let_def)

lemmas demo_decision =
  demo_pipeline_entries specified_outcome_def answer_def verdict_def CapabilityEnvelopePolicy_def
  decision_capability_envelope action_capabilities_defs box_policy_def

lemma demo_allows_sessions:
  "\<exists>n i r. specified_outcome (demo_pipeline pol) ctx (ActSessionLoad l) = OutcomeAllow n i r"
  "\<exists>n i r. specified_outcome (demo_pipeline pol) ctx (ActSessionSave s) = OutcomeAllow n i r"
  by (simp_all add: demo_decision AllowMontySessionPolicy_load_def AllowMontySessionPolicy_save_def)

lemma demo_allows_files:
  assumes "\<forall>n \<in> set (rs @ [x]). good_name n"
  shows "\<exists>n i r. specified_outcome (demo_pipeline pol) (policy_at rs caps)
      (ActFs (fs_action_new (canonical_at (rs @ [x])))) = OutcomeAllow n i r"
    and "allows caps FsRead \<Longrightarrow> \<exists>n i r. specified_outcome (demo_pipeline pol) (policy_at rs caps)
      (ActFsRead \<lparr>read_path = canonical_at (rs @ [x])\<rparr>) = OutcomeAllow n i r"
    and "allows caps FsWrite \<Longrightarrow> \<exists>n i r. specified_outcome (demo_pipeline (AllowExactFileWritePolicy (canonical_at (rs @ [x]))))
      (policy_at rs caps) (ActFsWrite \<lparr>write_path = canonical_at (rs @ [x]), write_content = c\<rparr>) = OutcomeAllow n i r"
  using assms
  by (simp_all add: demo_decision AllowWorkspaceFsPolicy_def AllowWorkspaceReadPolicy_def
      AllowExactFileWritePolicy_def Let_def policy_at_def canonical_at_def fs_action_new_def
      path_starts_with_names allows_def path_eq_def)

section \<open>The application of the demo\<close>

definition demo_application ::
  "nat \<Rightarrow> nat \<Rightarrow> ('x, 'r, 's, 'l) monty_api \<Rightarrow> 'l \<Rightarrow> string list \<Rightarrow> app" where
  "demo_application now bound api l rs =
     \<lparr>app_kernel = \<lparr>runtime_network = DenyNetworkBackend,
        runtime_policy = demo_pipeline (AllowExactFileWritePolicy (canonical_at (rs @ [''hello.txt''])))\<rparr>,
      app_tools =
        [''write_file'' \<mapsto> \<lparr>tool_registration_of = \<lparr>reg_spec = write_file_spec, registered_at = now\<rparr>,
           tool_adapter = adapter_invoke app_spans WriteFileTool\<rparr>,
         ''read_file'' \<mapsto> \<lparr>tool_registration_of = \<lparr>reg_spec = read_file_spec, registered_at = now\<rparr>,
           tool_adapter = adapter_invoke app_spans ReadFileTool\<rparr>,
         ''double'' \<mapsto> \<lparr>tool_registration_of = \<lparr>reg_spec = double_spec, registered_at = now\<rparr>,
           tool_adapter = adapter_invoke app_spans Double\<rparr>,
         ''monty'' \<mapsto> \<lparr>tool_registration_of = \<lparr>reg_spec = monty_spec (demo_monty_tool l), registered_at = now\<rparr>,
           tool_adapter = adapter_invoke app_spans (MontyTool bound api (demo_monty_tool l))\<rparr>,
         ''monty_os'' \<mapsto> \<lparr>tool_registration_of = \<lparr>reg_spec = monty_os_spec, registered_at = now\<rparr>,
           tool_adapter = adapter_invoke app_spans MontyOsTool\<rparr>]\<rparr>"

lemma register_unwrap_fresh:
  assumes "app_tools a path = None" and "tool_name (impl_spec tool) \<noteq> []"
  shows "register_unwrap now path tool (Done a) = Done (a\<lparr>app_tools := (app_tools a)(path \<mapsto>
     \<lparr>tool_registration_of = \<lparr>reg_spec = impl_spec tool, registered_at = now\<rparr>,
      tool_adapter = adapter_invoke app_spans tool\<rparr>)\<rparr>)"
  using assms
  by (simp add: register_unwrap_def app_register_def registered_tool_from_tool_def tool_registration_new_def)

lemma tool_specs:
  "impl_spec ReadFileTool = read_file_spec" "impl_spec WriteFileTool = write_file_spec"
  "impl_spec Double = double_spec" "impl_spec MontyOsTool = monty_os_spec"
  "impl_spec (MontyTool bound api t) = monty_spec t"
  by (simp_all add: ReadFileTool_def WriteFileTool_def Double_def MontyOsTool_def MontyTool_def)

lemma tool_names:
  "tool_name read_file_spec = ''read_file''" "tool_name write_file_spec = ''write_file''"
  "tool_name double_spec = ''double''" "tool_name monty_os_spec = ''monty_os''"
  "tool_name (monty_spec (demo_monty_tool l)) = ''monty''"
  by (simp_all add: read_file_spec_def write_file_spec_def double_spec_def monty_os_spec_def
      monty_spec_def demo_monty_tool_def monty_expose_def monty_tool_new_def
      DEFAULT_TOOL_NAME_def DEFAULT_OS_TOOL_NAME_def)

lemma fold_register_policy:
  "fold app_register_policy ops a =
     a\<lparr>app_kernel := (app_kernel a)\<lparr>runtime_policy := fold apply_registration ops (app_policy a)\<rparr>\<rparr>"
  by (induction ops arbitrary: a) (simp_all add: app_register_policy_def app_policy_def)

lemma demo_app_Done:
  assumes ws: "plain_workspace fsys rs" and free: "nodes fsys (rs @ [''hello.txt'']) = None"
  shows "demo_app now bound api l fsys (path_of_names rs) = Done (demo_application now bound api l rs)"
proof -
  have name: "good_name ''hello.txt''" by (simp add: good_name_def)
  have "path_join (path_of_names rs) ''hello.txt'' = path_of_names (rs @ [''hello.txt''])"
    by (rule path_join_name [OF name plain_workspace_names [OF ws]])
  then have pol: "allow_exact_file_write_new fsys (path_join (path_of_names rs) ''hello.txt'')
      = Done (AllowExactFileWritePolicy (canonical_at (rs @ [''hello.txt''])))"
    using existing_or_parent_free [OF ws name free] by (simp add: allow_exact_file_write_new_def)
  show ?thesis
    by (simp add: demo_app_def demo_tools_def register_unwrap_fresh tool_specs tool_names app_new_def
        kernel_runtime_new_def pol fold_register_policy demo_application_def demo_pipeline_def app_policy_def)
qed

lemma demo_application_simps [simp]:
  "app_policy (demo_application now bound api l rs) =
     demo_pipeline (AllowExactFileWritePolicy (canonical_at (rs @ [''hello.txt''])))"
  by (simp add: demo_application_def app_policy_def)

lemma demo_application_tools:
  "registered_at_path (demo_application now bound api l rs) ''write_file'' WriteFileTool"
  "registered_at_path (demo_application now bound api l rs) ''read_file'' ReadFileTool"
  "registered_at_path (demo_application now bound api l rs) ''double'' Double"
  "registered_at_path (demo_application now bound api l rs) ''monty'' (MontyTool bound api (demo_monty_tool l))"
  "registered_at_path (demo_application now bound api l rs) ''monty_os'' MontyOsTool"
  by (simp_all add: registered_at_path_def demo_application_def)

section \<open>The script\<close>

text \<open>An interpreter that runs the script of the demo: it asks three times for the text of the file
  and ends with the three texts, each followed by a line break, and a session that serializes.\<close>

definition read_hello :: "'s \<Rightarrow> string + ('x, 'r, 's) repl_progress" where
  "read_hello s = Ok (OsCall ''Path.read_text'' [MPath ''hello.txt''] [] s)"

definition runs_demo_script :: "('x, 'r, 's, 'l) monty_api \<Rightarrow> 'l \<Rightarrow> bool" where
  "runs_demo_script api l \<longleftrightarrow>
     (\<forall>t. \<exists>s0 s1 s2 repl bs.
        api_feed_start api (api_new api ''<agent-monty>'' l) MONTY_CODE = read_hello s0
      \<and> api_resume_call api s0 (ExtReturn (MString t)) = read_hello s1
      \<and> api_resume_call api s1 (ExtReturn (MString t)) = read_hello s2
      \<and> api_resume_call api s2 (ExtReturn (MString t)) =
          Ok (Complete repl (MString (concat (replicate 3 (t @ [CHR 0x0A])))))
      \<and> api_dump api repl = Ok bs)"

definition read_hello_payload :: json where
  "read_hello_payload = json_object [(''function'', JString ''Path.read_text''),
     (''args'', JArray [JString ''hello.txt'']), (''kwargs'', JObject [])]"

lemma advance_Ok: "advance (Ok p) go = go p"
  by (simp add: advance_def)

lemma hello_call_ends:
  assumes tool: "os_tool_path t = JString ''monty_os''" and rank: "classification_rank c \<le> 1"
    and nested: "\<And>w1. fs w1 = fsys \<Longrightarrow>
      ends (nest ''monty_os'' (params_at rs caps) read_hello_payload w1)
        (Ok \<lparr>out_payload = JString content, out_classification = WorkspaceLocal\<rparr>) (fs w1) (sessions w1)"
    and rest: "\<And>w1. fs w1 = fsys \<Longrightarrow>
      ends (run_prog a nest (at_workspace path reg caps rs)
        (advance (api_resume_call api s (ExtReturn (MString content))) (drive_loop m api t WorkspaceLocal)) w1)
        r (fs w1) (sessions w1)"
    and at: "fs w = fsys"
  shows "ends (run_prog a nest (at_workspace path reg caps rs)
    (advance (read_hello s) (drive_loop (Suc m) api t c)) w) r (fs w) (sessions w)"
proof -
  have merged: "merge_classification c WorkspaceLocal = WorkspaceLocal"
    using rank by (cases c) (simp_all add: merge_classification_def)
  have payload: "json_object [(''function'', JString ''Path.read_text''),
      (''args'', JArray [JString ''hello.txt'']), (''kwargs'', json_object [])] = read_hello_payload"
    by (simp add: read_hello_payload_def json_object_def)
  have "ends (nest ''monty_os'' (params_at rs caps) read_hello_payload w1)
        (Ok \<lparr>out_payload = JString content, out_classification = WorkspaceLocal\<rparr>) (fs w) (sessions w)"
    if "fs w1 = fs w" "sessions w1 = sessions w" for w1
    using nested [of w1] that at by simp
  then have call: "ends (cx_invoke_tool nest (at_workspace path reg caps rs) ''monty_os'' None read_hello_payload w)
      (Ok \<lparr>out_payload = JString content, out_classification = WorkspaceLocal\<rparr>) (fs w) (sessions w)"
    by (rule nested_ends)
  have "ends (run_prog a nest (at_workspace path reg caps rs)
        (advance (api_resume_call api s (ExtReturn (MString content))) (drive_loop m api t WorkspaceLocal)) w1)
        r (fs w) (sessions w)" if "fs w1 = fs w" "sessions w1 = sessions w" for w1
    using rest [of w1] that at by simp
  then show ?thesis
    by (simp add: advance_Ok read_hello_def monty_list_to_json_def
        monty_kwargs_to_json_def call_tool_def tool decode_tool_path_def ok_or_def payload Let_def)
      (rule ends_continue [OF call], simp add: merged Let_def)
qed

text \<open>The workspace while the file of the demo is there.\<close>

definition hello_stored :: "file_system \<Rightarrow> string list \<Rightarrow> string \<Rightarrow> bool" where
  "hello_stored fsys rs content \<longleftrightarrow>
     plain_workspace fsys rs \<and> nodes fsys (rs @ [''hello.txt'']) = Some (RegularFile content) \<and> valid_utf8 content"

lemma hello_storedD:
  assumes "hello_stored fsys rs content"
  shows "plain_workspace fsys rs" "nodes fsys (rs @ [''hello.txt'']) = Some (RegularFile content)"
    "valid_utf8 content"
  using assms by (simp_all add: hello_stored_def)

lemma good_hello: "good_name ''hello.txt''"
  by (simp add: good_name_def)

lemma demo_allowed:
  assumes "plain_workspace fsys rs"
  shows "allowed_in (demo_application now bound api l rs) (policy_at rs caps)
      (ActFs (fs_action_new (canonical_at (rs @ [''hello.txt'']))))"
    and "allows caps FsRead \<Longrightarrow> allowed_in (demo_application now bound api l rs) (policy_at rs caps)
      (ActFsRead \<lparr>read_path = canonical_at (rs @ [''hello.txt''])\<rparr>)"
    and "allows caps FsWrite \<Longrightarrow> allowed_in (demo_application now bound api l rs) (policy_at rs caps)
      (ActFsWrite \<lparr>write_path = canonical_at (rs @ [''hello.txt'']), write_content = content\<rparr>)"
proof -
  have "\<forall>n \<in> set (rs @ [''hello.txt'']). good_name n"
    using plain_workspace_names [OF assms] good_hello by auto
  from demo_allows_files [OF this] show
    "allowed_in (demo_application now bound api l rs) (policy_at rs caps)
      (ActFs (fs_action_new (canonical_at (rs @ [''hello.txt'']))))"
    "allows caps FsRead \<Longrightarrow> allowed_in (demo_application now bound api l rs) (policy_at rs caps)
      (ActFsRead \<lparr>read_path = canonical_at (rs @ [''hello.txt''])\<rparr>)"
    "allows caps FsWrite \<Longrightarrow> allowed_in (demo_application now bound api l rs) (policy_at rs caps)
      (ActFsWrite \<lparr>write_path = canonical_at (rs @ [''hello.txt'']), write_content = content\<rparr>)"
    by (simp_all add: allowed_in_def)
qed

lemma demo_os_read_ends:
  assumes "hello_stored (fs w) rs content" and "allows caps FsRead"
  shows "ends (app_invoke (Suc n) (demo_application now bound api l rs) ''monty_os'' (params_at rs caps)
      read_hello_payload w)
    (Ok \<lparr>out_payload = JString content, out_classification = WorkspaceLocal\<rparr>) (fs w) (sessions w)"
  unfolding read_hello_payload_def
  by (rule monty_os_read_ends [OF hello_storedD(1) [OF assms(1)] good_hello hello_storedD(2,3) [OF assms(1)]
        demo_application_tools(5) demo_allowed(1) [OF hello_storedD(1) [OF assms(1)]]
        demo_allowed(2) [OF hello_storedD(1) [OF assms(1)] assms(2)]])

lemma double_read_payload_eq: "double_read_payload = double_payload ''read_file'' (read_payload ''hello.txt'')"
  by (simp add: double_read_payload_def double_payload_def read_payload_def)

lemma demo_double_read_ends:
  assumes stored: "hello_stored (fs w) rs content" and caps: "allows caps FsRead"
  shows "ends (app_invoke (Suc (Suc n)) (demo_application now bound api l rs) ''double'' (params_at rs caps)
      double_read_payload w) (Ok (content_outcome content)) (fs w) (sessions w)"
proof -
  let ?a = "demo_application now bound api l rs"
  have "yields (app_invoke (Suc n) ?a ''read_file'' (params_at rs caps) (read_payload ''hello.txt'') w1)
      (\<lambda>r. r = Ok (content_outcome content)) (fs w) (sessions w)"
    if same: "fs w1 = fs w" "sessions w1 = sessions w" for w1
  proof -
    note s = hello_storedD [OF stored [folded same]]
    show ?thesis
      unfolding ends_def [symmetric] same [symmetric]
      by (rule read_tool_ends [OF s(1) good_hello s(2,3) demo_application_tools(2)
            demo_allowed(1) [OF s(1)] demo_allowed(2) [OF s(1) caps]])
  qed
  then show ?thesis
    unfolding ends_def double_read_payload_eq
    by (rule double_tool_yields [OF hello_storedD(1) [OF stored] demo_application_tools(3)])
qed

lemma demo_double_read_denied:
  assumes stored: "hello_stored (fs w) rs content" and caps: "\<not> allows caps FsRead"
  shows "yields (app_invoke (Suc (Suc n)) (demo_application now bound api l rs) ''double'' (params_at rs caps)
      double_read_payload w) authorization_failed (fs w) (sessions w)"
proof -
  let ?a = "demo_application now bound api l rs"
  have envelope: "has_envelope (app_policy ?a)" by (simp add: demo_pipeline_envelope)
  have "yields (app_invoke (Suc n) ?a ''read_file'' (params_at rs caps) (read_payload ''hello.txt'') w1)
      authorization_failed (fs w) (sessions w)"
    if same: "fs w1 = fs w" "sessions w1 = sessions w" for w1
  proof -
    note s = hello_storedD [OF stored [folded same]]
    show ?thesis
      unfolding same [symmetric]
      by (rule denied_read_tool_yields [OF s(1) good_hello s(2) demo_application_tools(2) envelope caps])
  qed
  then show ?thesis
    unfolding double_read_payload_eq
    by (rule double_tool_yields [OF hello_storedD(1) [OF stored] demo_application_tools(3)])
qed

definition demo_text :: "string \<Rightarrow> string" where
  "demo_text content = concat (replicate 3 (content @ [CHR 0x0A]))"

definition demo_step :: "'r \<Rightarrow> string \<Rightarrow> ('x, 'r) monty_step_output" where
  "demo_step repl content =
     \<lparr>step_repl = repl, step_value = MString (demo_text content), step_classification = WorkspaceLocal\<rparr>"

definition demo_monty_outcome :: "string \<Rightarrow> tool_outcome" where
  "demo_monty_outcome content =
     \<lparr>out_payload = json_object [(''value'', JString (demo_text content)), (''session_id'', JString ''demo'')],
      out_classification = WorkspaceLocal\<rparr>"

text \<open>The three reads of the script.\<close>

lemma demo_drive_ends:
  assumes stored: "hello_stored fsys rs content" and caps: "allows caps FsRead"
    and script: "runs_demo_script api l"
  obtains repl bs where "api_dump api repl = Ok bs"
    and "\<And>reg w. fs w = fsys \<Longrightarrow> ends (run_prog (demo_application now (4 + bound) api l rs)
      (app_invoke (Suc n) (demo_application now (4 + bound) api l rs)) (at_workspace path reg caps rs)
      (drive (4 + bound) api (demo_monty_tool l) (api_new api ''<agent-monty>'' l) MONTY_CODE) w)
      (Ok (demo_step repl content)) (fs w) (sessions w)"
proof -
  let ?a = "demo_application now (4 + bound) api l rs"
  let ?t = "demo_monty_tool l"
  let ?run = "\<lambda>reg. run_prog ?a (app_invoke (Suc n) ?a) (at_workspace path reg caps rs)"
  from script obtain s0 s1 s2 repl bs where
    s0: "api_feed_start api (api_new api ''<agent-monty>'' l) MONTY_CODE = read_hello s0"
    and s1: "api_resume_call api s0 (ExtReturn (MString content)) = read_hello s1"
    and s2: "api_resume_call api s1 (ExtReturn (MString content)) = read_hello s2"
    and last_step: "api_resume_call api s2 (ExtReturn (MString content)) =
        Ok (Complete repl (MString (demo_text content)))"
    and dump: "api_dump api repl = Ok bs"
    unfolding runs_demo_script_def demo_text_def by blast
  have os: "ends (app_invoke (Suc n) ?a ''monty_os'' (params_at rs caps) read_hello_payload w)
      (Ok \<lparr>out_payload = JString content, out_classification = WorkspaceLocal\<rparr>) (fs w) (sessions w)"
    if "fs w = fsys" for w
    by (rule demo_os_read_ends [OF _ caps]) (simp add: that stored)
  have t: "os_tool_path ?t = JString ''monty_os''"
    by (simp add: demo_monty_tool_def monty_expose_def monty_tool_new_def DEFAULT_OS_TOOL_NAME_def)
  have third: "ends (?run reg
      (advance (api_resume_call api s2 (ExtReturn (MString content))) (drive_loop (Suc bound) api ?t WorkspaceLocal)) w)
      (Ok (demo_step repl content)) (fs w) (sessions w)" for w reg
    by (simp add: last_step advance_Ok ends_return demo_step_def)
  have second: "ends (?run reg
      (advance (api_resume_call api s1 (ExtReturn (MString content))) (drive_loop (Suc (Suc bound)) api ?t WorkspaceLocal)) w)
      (Ok (demo_step repl content)) (fs w) (sessions w)" if "fs w = fsys" for w reg
    unfolding s2 by (rule hello_call_ends [OF t _ os third that]) simp_all
  have first: "ends (?run reg
      (advance (api_resume_call api s0 (ExtReturn (MString content))) (drive_loop (Suc (Suc (Suc bound))) api ?t WorkspaceLocal)) w)
      (Ok (demo_step repl content)) (fs w) (sessions w)" if "fs w = fsys" for w reg
    unfolding s1 by (rule hello_call_ends [OF t _ os second that]) simp_all
  have start: "drive (4 + bound) api ?t (api_new api ''<agent-monty>'' l) MONTY_CODE
      = advance (read_hello s0) (drive_loop (Suc (Suc (Suc (Suc bound)))) api ?t Public)"
    by (simp add: drive_def s0 eval_nat_numeral del: drive_loop.simps)
  have "ends (?run reg (drive (4 + bound) api ?t (api_new api ''<agent-monty>'' l) MONTY_CODE) w)
      (Ok (demo_step repl content)) (fs w) (sessions w)" if "fs w = fsys" for w reg
    unfolding start by (rule hello_call_ends [OF t _ os first that]) simp_all
  with dump show ?thesis by (rule that)
qed

lemma demo_sessions_allowed: "sessions_allowed (demo_application now bound api l rs)"
  by (simp add: sessions_allowed_def demo_allows_sessions)

lemma monty_demo_ends:
  assumes stored: "hello_stored (fs w) rs content" and caps: "allows caps FsRead"
    and script: "runs_demo_script api l"
    and fresh: "\<not> poisoned (sessions w)" "load_raw (sessions w) (workspace_key rs ''demo'') = Ok None"
  shows "\<exists>st. ends (app_invoke (Suc (Suc n)) (demo_application now (4 + bound) api l rs) ''monty''
       (params_at rs caps) monty_payload w) (Ok (demo_monty_outcome content)) (fs w) st"
proof -
  let ?a = "demo_application now (4 + bound) api l rs"
  let ?t = "demo_monty_tool l"
  obtain repl bs where dump: "api_dump api repl = Ok bs"
    and loop: "\<And>reg w1. fs w1 = fs w \<Longrightarrow> ends (run_prog ?a (app_invoke (Suc n) ?a) (at_workspace ''monty'' reg caps rs)
      (drive (4 + bound) api ?t (api_new api ''<agent-monty>'' l) MONTY_CODE) w1)
      (Ok (demo_step repl content)) (fs w1) (sessions w1)"
    using demo_drive_ends [OF stored caps script] by metis
  have input: "monty_parse_input monty_payload = Ok \<lparr>input_code = MONTY_CODE, input_session_id = ''demo''\<rparr>"
    by (simp add: monty_parse_input_def monty_payload_def json_object_def get_str_def ok_or_def Let_def)
  have open_session: "monty_open_session api ?t None = Ok (api_new api ''<agent-monty>'' l)"
    by (simp add: monty_open_session_def demo_monty_tool_def monty_expose_def monty_tool_new_def)
  have "ends (app_invoke (Suc (Suc n)) ?a ''monty'' (params_at rs caps) monty_payload w)
      (Ok (demo_monty_outcome content)) (fs w) (snd (save_raw (sessions w) (workspace_key rs ''demo'') bs))"
  proof -
    have script_ends: "ends (run_prog ?a (app_invoke (Suc n) ?a) (at_workspace ''monty'' reg caps rs)
        (drive (4 + bound) api ?t (api_new api ''<agent-monty>'' l) MONTY_CODE) w1)
        (Ok (demo_step repl content)) (fs w) (sessions w)" if "fs w1 = fs w" "sessions w1 = sessions w" for reg w1
      using loop [OF that(1)] that by simp
    have "monty_to_json api (step_value (demo_step repl content)) = Ok (JString (demo_text content))"
      and "api_dump api (step_repl (demo_step repl content)) = Ok bs"
      using dump by (simp_all add: demo_step_def)
    from monty_invocation_ends [OF hello_storedD(1) [OF stored] demo_application_tools(4) input
        demo_sessions_allowed fresh open_session script_ends this(2,1)] show ?thesis
      by (simp add: demo_step_def monty_outcome_def demo_monty_outcome_def del: app_invoke.simps)
  qed
  then show ?thesis by blast
qed

section \<open>The run\<close>

text \<open>A run that ends, with these files and some sessions.\<close>

definition leaves :: "'r exec \<times> world \<Rightarrow> ('r \<Rightarrow> bool) \<Rightarrow> file_system \<Rightarrow> bool" where
  "leaves rw P fsys \<longleftrightarrow> (\<exists>st. yields rw P fsys st)"

lemma unwrapped_leaves:
  assumes "yields rw Q fsys st" and "\<And>x. Q x \<Longrightarrow> \<exists>y. expect x = Done y \<and> R y"
    and "\<And>y w1. R y \<Longrightarrow> fs w1 = fsys \<Longrightarrow> sessions w1 = st \<Longrightarrow> leaves (k y w1) P fsys'"
  shows "leaves (unwrapped expect rw k) P fsys'"
proof -
  from assms(1) obtain x and w1 :: world where rw: "rw = (Done x, w1)" "Q x" "fs w1 = fsys" "sessions w1 = st"
    by (auto simp: yields_def)
  from assms(2) [OF rw(2)] obtain y where "expect x = Done y" "R y" by blast
  with assms(3) [of y w1] rw show ?thesis by (simp add: unwrapped_def)
qed

lemma unwrapped_ends:
  assumes "ends rw (Ok x) fsys st"
    and "\<And>w1. fs w1 = fsys \<Longrightarrow> sessions w1 = st \<Longrightarrow> leaves (k x w1) P fsys'"
  shows "leaves (unwrapped (unwrap debug) rw k) P fsys'"
  by (rule unwrapped_leaves [OF assms(1) [unfolded ends_def], where R = "\<lambda>y. y = x"])
    (simp_all add: unwrap_def assms(2))

lemma unwrap_failed:
  "authorization_failed (x :: tool_error + tool_outcome) \<Longrightarrow>
   \<exists>y. unwrap_err x = Done y \<and> authorization_failed (Err y :: tool_error + tool_outcome)"
  by (auto simp: authorization_failed_def unwrap_err_def)

definition hello_text :: string where
  "hello_text = ''hello from demo''"

definition written_outcome :: tool_outcome where
  "written_outcome = \<lparr>out_payload = json_object [(''ok'', JBool True)], out_classification = Public\<rparr>"

definition with_hello :: "file_system \<Rightarrow> string list \<Rightarrow> file_system" where
  "with_hello fsys rs = fsys\<lparr>nodes := (nodes fsys)(rs @ [''hello.txt''] \<mapsto> RegularFile hello_text)\<rparr>"

definition expected_outcomes :: "demo_outcomes \<Rightarrow> bool" where
  "expected_outcomes out \<longleftrightarrow>
     write_outcome out = written_outcome
   \<and> read_outcome out = content_outcome hello_text
   \<and> authorization_failed (Err (read_outcome_err out) :: tool_error + tool_outcome)
   \<and> monty_read_outcome out = demo_monty_outcome hello_text"

lemma hello_stored_with_hello:
  assumes "plain_workspace fsys rs" and "nodes fsys (rs @ [''hello.txt'']) = None"
  shows "hello_stored (with_hello fsys rs) rs hello_text"
proof -
  have "valid_utf8 hello_text" unfolding hello_text_def by code_simp
  with plain_workspace_store [OF assms(1) good_hello assms(2)] show ?thesis
    by (simp add: hello_stored_def with_hello_def)
qed

lemma demo_write_ends:
  assumes ws: "plain_workspace (fs w) rs" and free: "nodes (fs w) (rs @ [''hello.txt'']) = None"
    and caps: "allows caps FsWrite"
  shows "ends (app_invoke (Suc n) (demo_application now bound api l rs) ''write_file'' (params_at rs caps)
      write_hello_payload w) (Ok written_outcome) (with_hello (fs w) rs) (sessions w)"
  unfolding write_hello_payload_def hello_text_def [symmetric] written_outcome_def with_hello_def
  by (rule write_tool_ends [OF ws good_hello free demo_application_tools(1)
        demo_allowed(1) [OF ws] demo_allowed(3) [OF ws caps]])

lemma demo_leaves:
  assumes ws: "plain_workspace (fs w) rs" and free: "nodes (fs w) (rs @ [''hello.txt'']) = None"
    and script: "runs_demo_script api l"
    and fresh: "\<not> poisoned (sessions w)" "load_raw (sessions w) (monty_session_key_new (path_of_names rs) ''demo'') = Ok None"
  shows "leaves (run_demo (Suc (Suc (Suc n))) now (4 + bound) api l (path_of_names rs) w) expected_outcomes
      (with_hello (fs w) rs)"
proof -
  let ?a = "demo_application now (4 + bound) api l rs"
  let ?fs = "with_hello (fs w) rs"
  let ?wr = "caps_from_slice [FsWrite]" and ?rd = "caps_from_slice [FsRead]"
  have caps: "allows ?wr FsWrite" "allows ?rd FsRead" "\<not> allows ?wr FsRead"
    by (simp_all add: caps_from_slice_allows)
  have stored: "hello_stored (fs w1) rs hello_text" if "fs w1 = ?fs" for w1
    using hello_stored_with_hello [OF ws free] that by simp
  have app: "demo_app now (4 + bound) api l (fs w) (path_of_names rs) = Done ?a"
    by (rule demo_app_Done [OF ws free])
  have params: "invocation_params_new (path_of_names rs) (Some c) = params_at rs c" for c
    by (simp add: params_at_def)
  have last_call: "leaves (unwrapped (unwrap debug_tool_error)
        (app_invoke (Suc (Suc (Suc n))) ?a ''monty'' (params_at rs ?rd) monty_payload w1)
        (\<lambda>m w2. (Done \<lparr>write_outcome = written_outcome, read_outcome = content_outcome hello_text,
           read_outcome_err = e, monty_read_outcome = m\<rparr>, w2)))
      expected_outcomes ?fs"
    if "fs w1 = ?fs" "sessions w1 = sessions w" "authorization_failed (Err e :: tool_error + tool_outcome)" for w1 e
  proof -
    from monty_demo_ends [OF stored [OF that(1)] caps(2) script] fresh that(1,2) obtain st where
      "ends (app_invoke (Suc (Suc (Suc n))) ?a ''monty'' (params_at rs ?rd) monty_payload w1)
         (Ok (demo_monty_outcome hello_text)) ?fs st" by metis
    then show ?thesis
      by (rule unwrapped_ends)
        (auto simp: leaves_def expected_outcomes_def that(3) intro!: exI yields_return)
  qed
  have third_call: "leaves (unwrapped unwrap_err (app_invoke (Suc (Suc (Suc n))) ?a ''double'' (params_at rs ?wr) double_read_payload w1) (\<lambda>e w.
        unwrapped (unwrap debug_tool_error) (app_invoke (Suc (Suc (Suc n))) ?a ''monty'' (params_at rs ?rd) monty_payload w) (\<lambda>m w.
        (Done \<lparr>write_outcome = written_outcome, read_outcome = content_outcome hello_text,
           read_outcome_err = e, monty_read_outcome = m\<rparr>, w)))) expected_outcomes ?fs"
    if at: "fs w1 = ?fs" "sessions w1 = sessions w" for w1
    using demo_double_read_denied [OF stored [OF at(1)] caps(3)] unfolding at
    by (rule unwrapped_leaves [OF _ unwrap_failed]) (assumption | rule last_call)+
  have second_call: "leaves (unwrapped (unwrap debug_tool_error)
        (app_invoke (Suc (Suc (Suc n))) ?a ''double'' (params_at rs ?rd) double_read_payload w1) (\<lambda>r w.
        unwrapped unwrap_err (app_invoke (Suc (Suc (Suc n))) ?a ''double'' (params_at rs ?wr) double_read_payload w) (\<lambda>e w.
        unwrapped (unwrap debug_tool_error) (app_invoke (Suc (Suc (Suc n))) ?a ''monty'' (params_at rs ?rd) monty_payload w) (\<lambda>m w.
        (Done \<lparr>write_outcome = written_outcome, read_outcome = r, read_outcome_err = e, monty_read_outcome = m\<rparr>, w)))))
      expected_outcomes ?fs"
    if at: "fs w1 = ?fs" "sessions w1 = sessions w" for w1
    using demo_double_read_ends [OF stored [OF at(1)] caps(2)] unfolding at
    by (rule unwrapped_ends) (rule third_call)
  show ?thesis
    unfolding run_demo_def app continue_simps Let_def params
    by (rule unwrapped_ends [OF demo_write_ends [OF ws free caps(1)]]) (rule second_call)
qed

text \<open>C26: the demo succeeds: started in a fresh directory on a device that does not fail, with no
  session stored, and with an interpreter that runs its script, none of its \<open>unwrap\<close>s panics; it
  writes the file, reads it back through the double tool, is refused the read under write-only
  capabilities, and the Monty script returns the three texts it read through the OS tool,
  classified as workspace-local.\<close>

theorem demo_succeeds:
  assumes "plain_workspace (fs w) rs" and "nodes (fs w) (rs @ [''hello.txt'']) = None"
    and "runs_demo_script api l" and "\<not> poisoned (sessions w)"
    and "load_raw (sessions w) (monty_session_key_new (path_of_names rs) ''demo'') = Ok None"
  shows "\<exists>out w'. run_demo (3 + n) now (4 + bound) api l (path_of_names rs) w = (Done out, w')
     \<and> expected_outcomes out
     \<and> fs w' = (fs w)\<lparr>nodes := (nodes (fs w))(rs @ [''hello.txt''] \<mapsto> RegularFile hello_text)\<rparr>"
proof -
  have three: "3 + n = Suc (Suc (Suc n))" by simp
  from demo_leaves [OF assms, of n now bound] show ?thesis
    unfolding leaves_def yields_def three with_hello_def by blast
qed

lemma demo_api_runs: "runs_demo_script demo_api ()"
  by (auto simp: runs_demo_script_def demo_api_def read_hello_def Let_def eval_nat_numeral)

theorem demo_succeeds_witness:
  "\<exists>out w'. run_demo 3 0 4 demo_api () ''/t'' (initial_world (plain_fs [([''t''], Directory)])) = (Done out, w')
     \<and> expected_outcomes out"
proof -
  let ?w = "initial_world (plain_fs [([''t''], Directory)])"
  have wf: "fs_wf (plain_fs [([''t''], Directory)])" by (rule plain_fs_wf) code_simp
  then have ws: "plain_workspace (fs ?w) [''t'']"
    by (simp add: plain_workspace_def tree_of_def)
  have free: "nodes (fs ?w) ([''t''] @ [''hello.txt'']) = None"
    by (simp add: tree_of_def)
  have "\<not> poisoned (sessions ?w)" "load_raw (sessions ?w) (monty_session_key_new (path_of_names [''t'']) ''demo'') = Ok None"
    by (simp_all add: session_store_new_def load_raw_def)
  from demo_succeeds [OF ws free demo_api_runs this, of 0 0 0] show ?thesis
    by (auto simp: path_of_names_def)
qed

end
