(* ===== verification/Tasks.thy ===== *)
theory Tasks
  imports App
begin

text \<open>
  Invocations as tasks. \<open>App::invoke\<close> is an asynchronous function on a shared \<open>&self\<close>, so several
  invocations can run at the same time, and a step of one can come between any two steps of
  another. A task is a result or an atomic step with the rest of the task; here every facade
  call, every nested invocation and the invocation itself is written as the sequence of its
  accesses to shared state: a look at the file system, one \<open>fetch_add\<close> of the grant counter, one
  call of a backend, the audit entries of one phase. Run alone, a task is the function of \<open>App\<close>.

  A canonicalization, with the existence test before it, is one step, as is a whole read or
  write of a file; so are the records of the policies of one decision, which share no state.
\<close>

section \<open>Tasks\<close>

datatype 'r task = Finished "'r exec" | Atomic "world \<Rightarrow> 'r task \<times> world"

abbreviation give :: "'r \<Rightarrow> 'r task" where
  "give r \<equiv> Finished (Done r)"

definition act :: "(world \<Rightarrow> 'r \<times> world) \<Rightarrow> 'r task" where
  "act f = Atomic (\<lambda>w. (give (fst (f w)), snd (f w)))"

definition look :: "(world \<Rightarrow> 'r) \<Rightarrow> 'r task" where
  "look f = Atomic (\<lambda>w. (give (f w), w))"

definition log_task :: "audit_event list \<Rightarrow> unit task" where
  "log_task evs = Atomic (\<lambda>w. (give (), emit evs w))"

fun stopped :: "('r \<Rightarrow> 'a task) \<Rightarrow> 'r exec \<Rightarrow> 'a task" where
  "stopped k (Done r) = k r"
| "stopped k (Panicked m) = Finished (Panicked m)"
| "stopped k OutOfFuel = Finished OutOfFuel"

primrec then_task :: "'r task \<Rightarrow> ('r \<Rightarrow> 'a task) \<Rightarrow> 'a task" where
  "then_task (Finished x) = (\<lambda>k. stopped k x)"
| "then_task (Atomic f) = (\<lambda>k. Atomic ((\<lambda>(g, w). (g k, w)) \<circ> (map_prod then_task id \<circ> f)))"

primrec run_task :: "'r task \<Rightarrow> world \<Rightarrow> 'r exec \<times> world" where
  "run_task (Finished x) = (\<lambda>w. (x, w))"
| "run_task (Atomic f) = (\<lambda>w. (\<lambda>(g, w'). g w') ((map_prod run_task id \<circ> f) w))"

lemma then_task_simps [simp]:
  "then_task (Atomic f) j = Atomic (\<lambda>w. (then_task (fst (f w)) j, snd (f w)))"
  "then_task (act g) i = Atomic (\<lambda>w. (i (fst (g w)), snd (g w)))"
  "then_task (look h) k = Atomic (\<lambda>w. (k (h w), w))"
  "then_task (log_task evs) k' = Atomic (\<lambda>w. (k' (), emit evs w))"
  by (simp_all add: act_def look_def log_task_def comp_def split_beta)

declare then_task.simps(2) [simp del]

lemma run_task_simps [simp]:
  "run_task (Atomic f) w = run_task (fst (f w)) (snd (f w))"
  "run_task (act g) w = returned (g w)"
  "run_task (look h) w = (Done (h w), w)"
  "run_task (log_task evs) w = (Done (), emit evs w)"
  by (simp_all add: act_def look_def log_task_def returned_def split_beta)

declare run_task.simps(2) [simp del]

lemma task_induct [case_names Finished Atomic, induct type: task]:
  assumes "\<And>x. P (Finished x)" and "\<And>f. (\<And>w. P (fst (f w))) \<Longrightarrow> P (Atomic f)"
  shows "P t"
proof (rule task.induct [of P])
  fix f :: "world \<Rightarrow> 'a task \<times> world"
  assume "\<And>x y. x \<in> range f \<Longrightarrow> y \<in> Basic_BNFs.fsts x \<Longrightarrow> P y"
  then have "P (fst (f w))" for w by (meson fsts.intros rangeI)
  then show "P (Atomic f)" by (rule assms(2))
qed (rule assms(1))

lemma run_then: "run_task (then_task t k) w = continue (run_task t w) (\<lambda>r. run_task (k r))"
proof (induction t arbitrary: w)
  case (Finished x)
  show ?case by (cases x) simp_all
qed simp

section \<open>Grants\<close>

definition engine_task ::
  "engine_decide \<Rightarrow> ('a \<Rightarrow> action) \<Rightarrow> policy_context \<Rightarrow> 'a \<Rightarrow> (authorization_error + 'a granted) task" where
  "engine_task decide dyn ctx a =
     (let kind = audit_kind (dyn a);
          res = audit_resource_of (dyn a);
          (report, evs) = decide ctx (dyn a)
      in then_task (log_task evs) (\<lambda>_.
           case report_outcome report of
             OutcomeAllow n i r \<Rightarrow>
               then_task (act fetch_grant_id) (\<lambda>gid.
               give (Ok (granted_new (grant_record_allow gid kind res n i r) a)))
           | OutcomeDeny (SourcePolicy n i) r \<Rightarrow>
               (let r' = (case r of Some s \<Rightarrow> Some s | None \<Rightarrow> Some ''policy denied action'')
                in give (Err (Denied (authorization_deny_from_record
                     (grant_record_deny_from_policy kind res n i r')))))
           | OutcomeDeny NoMatchingPolicy r \<Rightarrow>
               (let r' = (case r of Some s \<Rightarrow> Some s | None \<Rightarrow> Some ''No matching policy.'')
                in give (Err (Denied (authorization_deny_from_record
                     (grant_record_deny_without_match kind res r')))))))"

definition grant_events :: "(authorization_error + 'a granted) \<Rightarrow> audit_event list" where
  "grant_events result =
     (case result of
        Ok g \<Rightarrow> record_grant (granted_record g)
      | Err e \<Rightarrow> (case deny_record e of Some r \<Rightarrow> record_grant r | None \<Rightarrow> []))"

definition grant_task ::
  "policy_pipeline \<Rightarrow> ('a \<Rightarrow> action) \<Rightarrow> policy_context \<Rightarrow> 'a \<Rightarrow> (authorization_error + 'a granted) task" where
  "grant_task pl dyn ctx a =
     then_task (log_task [action_grant_span (audit_kind (dyn a))]) (\<lambda>_.
     then_task (engine_task (pipeline_decide pl) dyn ctx a) (\<lambda>granted.
     then_task (log_task (grant_events granted)) (\<lambda>_.
     then_task (log_task [SpanExit]) (\<lambda>_. give granted))))"

lemma run_engine: "run_task (engine_task decide dyn ctx a) w = returned (grant_with_engine decide dyn ctx a w)"
  by (auto simp: engine_task_def grant_with_engine_def run_then returned_def Let_def split_beta
      split: policy_outcome.split grant_source.split)

lemma run_grant: "run_task (grant_task pl dyn ctx a) w = returned (pipeline_grant pl dyn ctx a w)"
  by (auto simp: grant_task_def pipeline_grant_def run_then run_engine returned_def grant_events_def
      Let_def split_beta split: sum.split option.split)

section \<open>The access facades\<close>

text \<open>The rest of a facade call after a grant, or the error of the denial.\<close>

definition granted_task ::
  "policy_pipeline \<Rightarrow> ('a \<Rightarrow> action) \<Rightarrow> policy_context \<Rightarrow> 'a
   \<Rightarrow> ('a granted \<Rightarrow> (execution_error + 'r) task) \<Rightarrow> (execution_error + 'r) task" where
  "granted_task pl dyn ctx a k =
     then_task (grant_task pl dyn ctx a) (\<lambda>r.
       case r of Err e \<Rightarrow> give (Err (ExecAuthorization e)) | Ok g \<Rightarrow> k g)"

definition read_file_task :: "policy_pipeline \<Rightarrow> fs_access \<Rightarrow> string \<Rightarrow> (execution_error + string) task" where
  "read_file_task pl acc p =
     then_task (look (\<lambda>w. resolve_under_authorization (fs w) (access_workspace_root acc) p)) (\<lambda>r.
       case r of
         Err e \<Rightarrow> give (Err (ExecAuthorization e))
       | Ok canonical \<Rightarrow>
           granted_task pl ActFs (access_policy_context acc) (fs_action_new canonical) (\<lambda>parent.
           granted_task pl ActFsRead (access_policy_context acc) (fs_read_action_new parent) (\<lambda>granted.
           act (std_fs_read_file granted))))"

definition write_file_task ::
  "policy_pipeline \<Rightarrow> fs_access \<Rightarrow> string \<Rightarrow> string \<Rightarrow> (execution_error + unit) task" where
  "write_file_task pl acc p content =
     then_task (look (\<lambda>w. resolve_write_under_authorization (fs w) (access_workspace_root acc) p)) (\<lambda>r.
       case r of
         Err e \<Rightarrow> give (Err (ExecAuthorization e))
       | Ok canonical \<Rightarrow>
           granted_task pl ActFs (access_policy_context acc) (fs_action_new canonical) (\<lambda>parent.
           granted_task pl ActFsWrite (access_policy_context acc) (fs_write_action_new parent content) (\<lambda>granted.
           act (std_fs_write_file granted))))"

definition fetch_url_task ::
  "policy_pipeline \<Rightarrow> network_backend \<Rightarrow> policy_context \<Rightarrow> string \<Rightarrow> (execution_error + bytes) task" where
  "fetch_url_task pl backend ctx url =
     granted_task pl ActNetworkFetch ctx (network_fetch_action_new url)
       (\<lambda>granted. give (backend_fetch_url backend granted))"

definition session_load_task ::
  "policy_pipeline \<Rightarrow> session_access \<Rightarrow> string \<Rightarrow> (execution_error + bytes option) task" where
  "session_load_task pl acc session_id =
     granted_task pl ActSessionLoad (session_policy_context acc)
       (session_load_action_new (monty_session_key_new (session_workspace_root acc) session_id))
       (\<lambda>granted. act (store_load granted))"

definition session_save_task ::
  "policy_pipeline \<Rightarrow> session_access \<Rightarrow> string \<Rightarrow> bytes \<Rightarrow> (execution_error + unit) task" where
  "session_save_task pl acc session_id bs =
     granted_task pl ActSessionSave (session_policy_context acc)
       (session_save_action_new (monty_session_key_new (session_workspace_root acc) session_id) bs)
       (\<lambda>granted. act (store_save granted))"

lemma returned_pair [simp]: "returned (r, w) = (Done r, w)"
  by (simp add: returned_def)

lemma run_granted:
  "run_task (granted_task pl dyn ctx a k) w =
     (case pipeline_grant pl dyn ctx a w of
        (Err e, w1) \<Rightarrow> (Done (Err (ExecAuthorization e)), w1)
      | (Ok g, w1) \<Rightarrow> run_task (k g) w1)"
  by (simp add: granted_task_def run_then run_grant returned_def split: prod.split sum.split)

lemma run_read_file: "run_task (read_file_task pl acc p) w = returned (fs_access_read_file pl acc p w)"
  by (simp add: read_file_task_def fs_access_read_file_def run_then run_granted Let_def
      split: sum.split prod.split)

lemma run_write_file:
  "run_task (write_file_task pl acc p content) w = returned (fs_access_write_file pl acc p content w)"
  by (simp add: write_file_task_def fs_access_write_file_def run_then run_granted Let_def
      split: sum.split prod.split)

lemma run_fetch_url:
  "run_task (fetch_url_task pl backend ctx url) w = returned (network_access_fetch_url pl backend ctx url w)"
  by (simp add: fetch_url_task_def network_access_fetch_url_def run_granted Let_def
      split: sum.split prod.split)

lemma run_session_load:
  "run_task (session_load_task pl acc sid) w = returned (session_access_load pl acc sid w)"
  by (simp add: session_load_task_def session_access_load_def run_granted Let_def
      split: sum.split prod.split)

lemma run_session_save:
  "run_task (session_save_task pl acc sid bs) w = returned (session_access_save pl acc sid bs w)"
  by (simp add: session_save_task_def session_access_save_def run_granted Let_def
      split: sum.split prod.split)

section \<open>Tools and invocations\<close>

type_synonym task_invoker =
  "string \<Rightarrow> invocation_params \<Rightarrow> json \<Rightarrow> (tool_error + tool_outcome) task"

text \<open>\<open>ctx.fs()\<close>, and a call of the facade that it returns.\<close>

definition with_fs_task :: "tool_context \<Rightarrow> (fs_access \<Rightarrow> 'r task) \<Rightarrow> 'r task" where
  "with_fs_task ctx k = then_task (Atomic (\<lambda>w. (Finished (cx_fs ctx w), w))) k"

definition invoke_tool_task ::
  "task_invoker \<Rightarrow> tool_context \<Rightarrow> string \<Rightarrow> capabilities option \<Rightarrow> json
   \<Rightarrow> (tool_error + tool_outcome) task" where
  "invoke_tool_task nest ctx path caps_override payload =
     (let parent = cx_effective_capabilities ctx;
          run = (\<lambda>effective.
            then_task (log_task (nested_scope_event ctx path caps_override (Some effective) False))
              (\<lambda>_. nest path (invocation_params_new (cx_root ctx) (Some effective)) payload))
      in case caps_override of
           Some caps \<Rightarrow>
             if \<not> caps_contains parent caps then
               then_task (log_task (nested_scope_event ctx path (Some caps) None True))
                 (\<lambda>_. give (Err (ToolAuthorization (Denied (authorization_deny_new
                        ''nested invocation attempted to expand capabilities'')))))
             else run caps
         | None \<Rightarrow> run parent)"

primrec prog_task :: "app \<Rightarrow> task_invoker \<Rightarrow> tool_context \<Rightarrow> 'a tool_prog \<Rightarrow> (tool_error + 'a) task" where
  "prog_task a nest ctx (Return r) = give r"
| "prog_task a nest ctx (CallReadFile p k) =
     then_task (with_fs_task ctx (\<lambda>acc. read_file_task (app_policy a) acc p)) (\<lambda>r. prog_task a nest ctx (k r))"
| "prog_task a nest ctx (CallWriteFile p c k) =
     then_task (with_fs_task ctx (\<lambda>acc. write_file_task (app_policy a) acc p c)) (\<lambda>r. prog_task a nest ctx (k r))"
| "prog_task a nest ctx (CallFetchUrl u k) =
     then_task (fetch_url_task (app_policy a) (runtime_network (app_kernel a)) (cx_policy_context ctx) u)
       (\<lambda>r. prog_task a nest ctx (k r))"
| "prog_task a nest ctx (CallSessionLoad s k) =
     then_task (session_load_task (app_policy a) (cx_monty_sessions ctx) s) (\<lambda>r. prog_task a nest ctx (k r))"
| "prog_task a nest ctx (CallSessionSave s bs k) =
     then_task (session_save_task (app_policy a) (cx_monty_sessions ctx) s bs) (\<lambda>r. prog_task a nest ctx (k r))"
| "prog_task a nest ctx (CallInvokeTool p c j k) =
     then_task (invoke_tool_task nest ctx p c j) (\<lambda>r. prog_task a nest ctx (k r))"
| "prog_task a nest ctx (EmitAudit evs p) = then_task (log_task evs) (\<lambda>_. prog_task a nest ctx p)"
| "prog_task a nest ctx (ToolPanics m) = Finished (Panicked m)"
| "prog_task a nest ctx StepBound = Finished OutOfFuel"

definition app_task_with :: "app \<Rightarrow> task_invoker \<Rightarrow> task_invoker" where
  "app_task_with a nest path params payload =
     (case app_tools a path of
        None \<Rightarrow> give (Err (UnknownTool (debug_str path)))
      | Some t \<Rightarrow>
          (let reg = tool_registration_of t; name = tool_name (reg_spec reg) in
           then_task (look (\<lambda>w. app_tool_context_new (fs w) path reg params)) (\<lambda>r.
             case r of
               Err e \<Rightarrow> give (Err (ToolAuthorization e))
             | Ok ctx \<Rightarrow>
                 then_task (log_task (record_tool_capabilities_override path name
                   (capabilities_of (reg_spec reg)) (cx_effective_capabilities ctx))) (\<lambda>_.
                 then_task (log_task [tool_invocation_span path name]) (\<lambda>_.
                 then_task (prog_task a nest ctx (registered_tool_invoke t ctx payload)) (\<lambda>result.
                 then_task (log_task (invocation_result_events result @ [SpanExit])) (\<lambda>_.
                 give result)))))))"

primrec app_task :: "nat \<Rightarrow> app \<Rightarrow> task_invoker" where
  "app_task 0 a = (\<lambda>path params payload. Finished OutOfFuel)"
| "app_task (Suc n) a = app_task_with a (app_task n a)"

section \<open>A task run alone\<close>

lemma run_with_fs: "run_task (with_fs_task ctx k) w = 
   (case cx_fs ctx w of Done acc \<Rightarrow> run_task (k acc) w | Panicked m \<Rightarrow> (Panicked m, w) | OutOfFuel \<Rightarrow> (OutOfFuel, w))"
  by (simp add: with_fs_task_def split: exec.split)

lemma run_invoke_tool:
  assumes "\<And>path params payload w. run_task (nest' path params payload) w = nest path params payload w"
  shows "run_task (invoke_tool_task nest' ctx path co payload) w = cx_invoke_tool nest ctx path co payload w"
  using assms by (simp add: invoke_tool_task_def cx_invoke_tool_def Let_def split: option.split)

lemma run_prog_task:
  assumes "\<And>path params payload w. run_task (nest' path params payload) w = nest path params payload w"
  shows "run_task (prog_task a nest' ctx p) = run_prog a nest ctx p"
  by (induction p)
    (rule ext, simp add: run_then run_with_fs with_fs_def run_read_file run_write_file run_fetch_url
      run_session_load run_session_save run_invoke_tool [OF assms] split: exec.split)+

lemma run_app_task:
  "run_task (app_task n a path params payload) w = app_invoke n a path params payload w"
proof (induction n arbitrary: path params payload w)
  case (Suc n)
  show ?case
    by (simp add: app_task_with_def app_invoke_with_def run_then run_prog_task [OF Suc] Let_def
        fun_eq_iff continue_def split: option.split sum.split prod.split exec.split)
qed simp

end
