(* ===== verification/Concurrent.thy ===== *)
theory Concurrent
  imports Tasks Invocation_Safety
begin

text \<open>
  Concurrent invocations: a pool of tasks over one world, of which any unfinished one takes the
  next step (the choice is the scheduler's, so every interleaving is a run). The invariants
  follow the rely and guarantee method: each task keeps its guarantee (\<open>effect\<close>) under any steps
  of the others that keep the shape of the tree (\<open>undisturbed\<close>), and every guarantee is such a
  step.
\<close>

section \<open>Pools\<close>

inductive pool_step :: "'r task list \<times> world \<Rightarrow> 'r task list \<times> world \<Rightarrow> bool" where
  step: "i < length ts \<Longrightarrow> ts ! i = Atomic f \<Longrightarrow> pool_step (ts, w) (ts[i := fst (f w)], snd (f w))"

inductive_cases pool_stepE: "pool_step (ts, w) p"

abbreviation pool_run :: "'r task list \<times> world \<Rightarrow> 'r task list \<times> world \<Rightarrow> bool" where
  "pool_run \<equiv> pool_step\<^sup>*\<^sup>*"

definition all_finished :: "'r task list \<Rightarrow> bool" where
  "all_finished ts \<longleftrightarrow> list_all (\<lambda>t. case t of Finished x \<Rightarrow> True | Atomic f \<Rightarrow> False) ts"

lemma pool_progress: "all_finished ts \<longleftrightarrow> \<not> (\<exists>p. pool_step (ts, w) p)"
proof
  assume "all_finished ts"
  then show "\<not> (\<exists>p. pool_step (ts, w) p)"
    by (fastforce simp: all_finished_def list_all_length elim: pool_stepE)
next
  assume stuck: "\<not> (\<exists>p. pool_step (ts, w) p)"
  have "\<exists>x. ts ! i = Finished x" if "i < length ts" for i
    using stuck that by (cases "ts ! i") (auto intro: pool_step.step)
  then show "all_finished ts"
    by (fastforce simp: all_finished_def list_all_length)
qed

section \<open>Every run ends\<close>

definition later_task :: "('r task \<times> 'r task) set" where
  "later_task = {(fst (f w), Atomic f) | f w. True}"

lemma wf_later_task: "wf later_task"
proof (rule wfI_pf)
  fix A :: "'r task set" assume A: "A \<subseteq> later_task `` A"
  have "t \<notin> A" for t
  proof (induction t)
    case (Finished x)
    show ?case using A by (auto simp: later_task_def)
  next
    case (Atomic f)
    then show ?case using A by (fastforce simp: later_task_def)
  qed
  then show "A = {}" by blast
qed

lemma pool_step_later: "pool_step (ts, w) (ts', w') \<Longrightarrow> (ts', ts) \<in> listrel1 later_task"
proof (erule pool_stepE)
  fix i f
  assume "i < length ts" "ts ! i = Atomic f" "(ts', w') = (ts[i := fst (f w)], snd (f w))"
  then show "(ts', ts) \<in> listrel1 later_task"
    unfolding listrel1_iff_update later_task_def
    by (intro exI [of _ "Atomic f"] exI [of _ i]) (auto, metis list_update_id)
qed

text \<open>A step of a pool is a step towards its end, whatever the scheduler does.\<close>

lemma wf_pool: "wf {(p', p). pool_step p p'}"
proof (rule wf_subset)
  show "wf (inv_image (listrel1 later_task) fst)"
    by (simp add: wf_listrel1_iff wf_later_task)
  show "{(p', p). pool_step p p'} \<subseteq> inv_image (listrel1 later_task) fst"
    by (auto simp: inv_image_def dest: pool_step_later)
qed

lemma pool_finishes: "\<exists>ts' w'. pool_run (ts, w) (ts', w') \<and> all_finished ts'"
proof -
  have "\<exists>q. pool_run p q \<and> all_finished (fst q)" for p :: "'r task list \<times> world"
  proof (induction p rule: wf_induct_rule [OF wf_pool])
    case (1 p)
    obtain ts w where p: "p = (ts, w)" by fastforce
    show ?case
    proof (cases "all_finished ts")
      case True
      with p show ?thesis by auto
    next
      case False
      with p obtain p' where step: "pool_step p p'" using pool_progress [of ts w] by blast
      with 1 obtain q where "pool_run p' q" "all_finished (fst q)" by blast
      with step show ?thesis by (meson converse_rtranclp_into_rtranclp)
    qed
  qed
  then show ?thesis by fastforce
qed


section \<open>Rely and guarantee\<close>

text \<open>
  \<open>sat rely guar calm Q t w\<close>: from \<open>w\<close>, when the others only make \<open>rely\<close> steps, every step of the
  task is a \<open>guar\<close> step and its result, if it has one, satisfies \<open>Q\<close>; when \<open>calm\<close>, it does not panic.
\<close>

primrec sat ::
  "(world \<Rightarrow> world \<Rightarrow> bool) \<Rightarrow> (world \<Rightarrow> world \<Rightarrow> bool) \<Rightarrow> bool \<Rightarrow> ('r \<Rightarrow> world \<Rightarrow> bool) \<Rightarrow> 'r task \<Rightarrow> world \<Rightarrow> bool"
  where
  "sat rely guar calm Q (Finished x) = (\<lambda>w. \<forall>w1. rely w w1 \<longrightarrow>
     (case x of Done r \<Rightarrow> Q r w1 | Panicked m \<Rightarrow> \<not> calm | OutOfFuel \<Rightarrow> True))"
| "sat rely guar calm Q (Atomic f) = (\<lambda>w. \<forall>w1. rely w w1 \<longrightarrow>
     (\<lambda>(p, w2). guar w1 w2 \<and> p w2) ((map_prod (sat rely guar calm Q) id \<circ> f) w1))"

lemma sat_Atomic [simp]:
  "sat rely guar calm Q (Atomic f) w \<longleftrightarrow>
     (\<forall>w1. rely w w1 \<longrightarrow> guar w1 (snd (f w1)) \<and> sat rely guar calm Q (fst (f w1)) (snd (f w1)))"
  by (simp add: split_beta)

declare sat.simps(2) [simp del]

locale rely_guarantee =
  fixes rely :: "world \<Rightarrow> world \<Rightarrow> bool"
    and guar :: "'i \<Rightarrow> world \<Rightarrow> world \<Rightarrow> bool"
  assumes rely_refl: "rely w w"
    and rely_trans: "rely w w' \<Longrightarrow> rely w' w'' \<Longrightarrow> rely w w''"
    and guar_rely: "guar i w w' \<Longrightarrow> rely w w'"
begin

lemma sat_disturbed: "sat rely g calm Q t w \<Longrightarrow> rely w w1 \<Longrightarrow> sat rely g calm Q t w1"
  by (cases t) (auto intro: rely_trans)

lemma sat_done: "Q r w \<Longrightarrow> (\<And>w1. rely w w1 \<Longrightarrow> Q r w \<Longrightarrow> Q r w1) \<Longrightarrow> sat rely g calm Q (give r) w"
  by simp

lemma sat_then:
  assumes "sat rely (guar i) calm Q t w"
    and "\<And>r w1. rely w w1 \<Longrightarrow> Q r w1 \<Longrightarrow> sat rely (guar i) calm Q' (k r) w1"
  shows "sat rely (guar i) calm Q' (then_task t k) w"
  using assms
proof (induction t arbitrary: w)
  case (Finished x)
  then show ?case using rely_refl by (cases x) auto
next
  case (Atomic f)
  show ?case
    unfolding then_task_simps sat_Atomic
  proof (intro allI impI)
    fix w1 assume w1: "rely w w1"
    with Atomic.prems(1) have g: "guar i w1 (snd (f w1))"
      and s: "sat rely (guar i) calm Q (fst (f w1)) (snd (f w1))" by auto
    have "rely w (snd (f w1))" using w1 guar_rely [OF g] by (rule rely_trans)
    then have "sat rely (guar i) calm Q' (then_task (fst (f w1)) k) (snd (f w1))"
      using Atomic.IH [OF s] Atomic.prems(2) rely_trans by blast
    with g show "guar i w1 (snd (then_task (fst (f w1)) k, snd (f w1)))
        \<and> sat rely (guar i) calm Q' (fst (then_task (fst (f w1)) k, snd (f w1)))
            (snd (then_task (fst (f w1)) k, snd (f w1)))" by simp
  qed
qed

lemma pool_sound:
  assumes "pool_run (ts, w) (ts', w')"
    and "\<And>i. i < length ts \<Longrightarrow> sat rely (guar (ix i)) calm (Q i) (ts ! i) w"
  shows "length ts' = length ts
    \<and> (\<forall>i < length ts. sat rely (guar (ix i)) calm (Q i) (ts' ! i) w')
    \<and> (\<lambda>w w'. \<exists>i < length ts. guar (ix i) w w')\<^sup>*\<^sup>* w w'"
  using assms(1)
proof (induction "(ts', w')" arbitrary: ts' w' rule: rtranclp_induct)
  case base
  then show ?case using assms(2) by simp
next
  case (step p)
  obtain us v where p: "p = (us, v)" by fastforce
  from step.hyps(3) [OF p] have IH: "length us = length ts"
    "\<forall>i < length ts. sat rely (guar (ix i)) calm (Q i) (us ! i) v"
    "(\<lambda>w w'. \<exists>i < length ts. guar (ix i) w w')\<^sup>*\<^sup>* w v" by auto
  from step.hyps(2) [unfolded p] obtain j f where j: "j < length us" "us ! j = Atomic f"
    and q: "ts' = us[j := fst (f v)]" "w' = snd (f v)" by (auto elim: pool_stepE)
  from IH(1,2) j rely_refl have g: "guar (ix j) v w'"
    and s: "sat rely (guar (ix j)) calm (Q j) (fst (f v)) w'" using q(2) by force+
  have "sat rely (guar (ix i)) calm (Q i) (ts' ! i) w'" if "i < length ts" for i
    using s sat_disturbed [OF IH(2) [rule_format, OF that] guar_rely [OF g]] q(1) j(1)
    by (cases "i = j") simp_all
  moreover have "(\<lambda>w w'. \<exists>i < length ts. guar (ix i) w w')\<^sup>*\<^sup>* w w'"
    using IH(1,3) g j(1) by (metis (mono_tags, lifting) rtranclp.rtrancl_into_rtrancl)
  ultimately show ?case using IH(1) q(1) by simp
qed

end

section \<open>The guarantee of an invocation\<close>

text \<open>The steps of an invocation with capabilities \<open>c\<close> in the workspace \<open>rs\<close>: one write under the root
  with \<open>FsWrite\<close>, one save of a session of the workspace, or neither files nor sessions.\<close>

definition effect :: "capabilities \<times> string list \<Rightarrow> world \<Rightarrow> world \<Rightarrow> bool" where
  "effect i w w' \<longleftrightarrow>
     sessions w' = sessions w \<and> write_effect (fst i) (snd i) (fs w) (fs w')
   \<or> fs w' = fs w
     \<and> (\<exists>sid bs. save_raw (sessions w) (monty_session_key_new (path_of_names (snd i)) sid) bs = (Ok (), sessions w'))"

definition undisturbed :: "world \<Rightarrow> world \<Rightarrow> bool" where
  "undisturbed w w' \<longleftrightarrow> (fs_wf (fs w) \<longrightarrow> fs_wf (fs w') \<and> same_shape (fs w) (fs w'))"

lemma write_effect_shape: "fs_wf fsys \<Longrightarrow> write_effect c rs fsys fsys' \<Longrightarrow> fs_wf fsys' \<and> same_shape fsys fsys'"
  using write_effect_wf by (auto simp: write_effect_def intro: fs_write_same_shape)

interpretation rg: rely_guarantee undisturbed effect
  by unfold_locales
    (auto simp: undisturbed_def effect_def dest: write_effect_shape same_shape_trans)

lemma effect_quiet: "fs w' = fs w \<Longrightarrow> sessions w' = sessions w \<Longrightarrow> effect i w w'"
  by (simp add: effect_def write_effect_def)

lemma effect_narrow: "caps_contains c c' \<Longrightarrow> effect (c', rs) w w' \<Longrightarrow> effect (c, rs) w w'"
  by (auto simp: effect_def write_effect_def dest: allows_mono)

lemma sat_narrow:
  "caps_contains c c' \<Longrightarrow> sat undisturbed (effect (c', rs)) calm Q t w \<Longrightarrow> sat undisturbed (effect (c, rs)) calm Q t w"
  by (induction t arbitrary: w) (auto intro: effect_narrow)

abbreviation sat_effect where
  "sat_effect c rs \<equiv> sat undisturbed (effect (c, rs))"

lemma effect_intros:
  "effect i w (emit evs w)" "effect i w (snd (fetch_grant_id w))" "effect i w w"
  "effect i w (snd (std_fs_read_file gr w))" "effect i w (snd (store_load gl w))"
  by (simp_all add: effect_quiet fetch_grant_id_def std_fs_read_file_def store_load_def Let_def)

text \<open>A granted action lies in the envelope of the context.\<close>

definition granted_in :: "policy_pipeline \<Rightarrow> ('a \<Rightarrow> action) \<Rightarrow> policy_context \<Rightarrow> 'a \<Rightarrow> (authorization_error + 'a granted) \<Rightarrow> bool" where
  "granted_in pl dyn ctx a r \<longleftrightarrow>
     (\<forall>g. r = Ok g \<longrightarrow> into_action g = a
        \<and> (has_envelope pl \<longrightarrow> caps_contains (ctx_capabilities ctx) (action_capabilities (dyn a))))"

lemma sat_engine:
  "sat_effect c rs calm (\<lambda>r w. granted_in pl dyn ctx a r) (engine_task (pipeline_decide pl) dyn ctx a) w"
proof -
  have ok: "granted_in pl dyn ctx a (Ok (granted_new rec a))"
    if "report_outcome (fst (pipeline_decide pl ctx (dyn a))) = OutcomeAllow n i r" for rec n i r
    using kernel_gate.gate [OF _ that] by (simp add: granted_in_def granted_new_def into_action_def)
  have err: "granted_in pl dyn ctx a (Err e)" for e by (simp add: granted_in_def)
  show ?thesis
    by (auto simp: engine_task_def Let_def split_beta effect_intros ok err
        split: policy_outcome.split grant_source.split)
qed

lemma sat_grant:
  "sat_effect c rs calm (\<lambda>r w. granted_in pl dyn ctx a r) (grant_task pl dyn ctx a) w"
  by (auto simp: grant_task_def effect_intros intro!: rg.sat_then [OF sat_engine])

lemma sat_granted:
  assumes "\<And>g w1. undisturbed w w1 \<Longrightarrow> into_action g = a \<Longrightarrow>
      (has_envelope pl \<Longrightarrow> caps_contains (ctx_capabilities ctx) (action_capabilities (dyn a))) \<Longrightarrow>
      sat_effect c rs calm (\<lambda>r w. True) (k g) w1"
  shows "sat_effect c rs calm (\<lambda>r w. True) (granted_task pl dyn ctx a k) w"
  unfolding granted_task_def
  by (rule rg.sat_then [OF sat_grant]) (auto simp: granted_in_def intro!: assms split: sum.split)

lemma sat_act: "(\<And>w1. effect (c, rs) w1 (snd (f w1))) \<Longrightarrow> sat_effect c rs calm (\<lambda>r w. True) (act f) w"
  by (simp add: act_def)

lemma sat_read_file: "sat_effect c rs calm (\<lambda>r w. True) (read_file_task pl acc p) w"
  by (auto simp: read_file_task_def effect_intros intro!: sat_granted sat_act split: sum.split)

lemma sat_fetch_url: "sat_effect c rs calm (\<lambda>r w. True) (fetch_url_task pl backend ctx u) w"
  by (auto simp: fetch_url_task_def intro!: sat_granted)

lemma sat_session_load: "sat_effect c rs calm (\<lambda>r w. True) (session_load_task pl acc sid) w"
  by (auto simp: session_load_task_def effect_intros intro!: sat_granted sat_act)

lemma effect_store_save:
  assumes "into_action g = session_save_action_new (monty_session_key_new (path_of_names rs) sid) bs"
  shows "effect (c, rs) w (snd (store_save g w))"
  using assms by (auto simp: store_save_def session_save_action_new_def effect_def write_effect_def
      save_raw_def Let_def)

lemma sat_session_save:
  assumes "session_workspace_root acc = path_of_names rs"
  shows "sat_effect c rs calm (\<lambda>r w. True) (session_save_task pl acc sid bs) w"
  unfolding session_save_task_def assms
  by (rule sat_granted, rule sat_act, rule effect_store_save) simp

lemma effect_std_write:
  assumes "into_action g = \<lparr>write_path = p, write_content = content\<rparr>" and "cpath p = path_of_names ns"
    and "\<forall>n \<in> set ns. good_name n" and "prefix rs ns" and "allows c FsWrite"
  shows "effect (c, rs) w (snd (std_fs_write_file g w))"
proof -
  obtain r fsys' where wr: "fs_write (fs w) (path_of_names ns) content = (r, fsys')" by fastforce
  have "write_effect c rs (fs w) fsys'"
  proof (cases r)
    case (Inl e)
    with wr fs_write_frame show ?thesis by (simp add: write_effect_def)
  next
    case (Inr u)
    with wr assms(3-5) show ?thesis by (auto simp: write_effect_def)
  qed
  with wr show ?thesis
    by (simp add: effect_def std_fs_write_file_def write_canonical_def assms(1,2) Let_def)
qed

lemma sat_write_file:
  assumes env: "has_envelope pl" and wf: "fs_wf (fs w)" and at: "root_at (fs w) (access_workspace_root acc) rs"
  shows "sat_effect (ctx_capabilities (access_policy_context acc)) rs calm (\<lambda>r w. True)
    (write_file_task pl acc p content) w"
proof -
  let ?pctx = "access_policy_context acc"
  have "sat_effect (ctx_capabilities ?pctx) rs calm (\<lambda>r w. True)
      (granted_task pl ActFs ?pctx (fs_action_new c) (\<lambda>parent.
       granted_task pl ActFsWrite ?pctx (fs_write_action_new parent content) (\<lambda>granted.
       act (std_fs_write_file granted)))) w1"
    if res: "resolve_write_under_authorization (fs w1) (access_workspace_root acc) p = Ok c"
      and w1: "undisturbed w w1" for c w1
  proof -
    from w1 wf have wf1: "fs_wf (fs w1)" and "same_shape (fs w) (fs w1)" by (auto simp: undisturbed_def)
    with at have "root_at (fs w1) (access_workspace_root acc) rs" using same_shape_root_at by blast
    then obtain ns where ns: "cpath c = path_of_names ns" "\<forall>n \<in> set ns. good_name n" "prefix rs ns"
      using resolve_write_under_authorization_Ok [OF wf1 _ res] by metis
    show ?thesis
    proof (rule sat_granted, rule sat_granted, rule sat_act)
      fix g1 g2 w2
      assume g1: "into_action g1 = fs_action_new c" and g2: "into_action g2 = fs_write_action_new g1 content"
        and caps: "has_envelope pl \<Longrightarrow> caps_contains (ctx_capabilities ?pctx)
          (action_capabilities (ActFsWrite (fs_write_action_new g1 content)))"
      have "into_action g2 = \<lparr>write_path = c, write_content = content\<rparr>"
        using g1 g2 by (simp add: fs_write_action_new_def fs_action_new_def)
      moreover have "allows (ctx_capabilities ?pctx) FsWrite"
        using caps [OF env] by (simp add: allows_def fs_write_capabilities_def)
      ultimately show "effect (ctx_capabilities ?pctx, rs) w2 (snd (std_fs_write_file g2 w2))"
        using ns by (intro effect_std_write)
    qed
  qed
  then show ?thesis
    by (auto simp: write_file_task_def effect_intros split: sum.split)
qed

lemma sat_log:
  "(\<And>w1. undisturbed w w1 \<Longrightarrow> sat_effect c rs calm Q (k ()) (emit evs w1)) \<Longrightarrow>
   sat_effect c rs calm Q (then_task (log_task evs) k) w"
  by (simp add: effect_intros)

lemma sat_look:
  "(\<And>w1. undisturbed w w1 \<Longrightarrow> sat_effect c rs calm Q (k (h w1)) w1) \<Longrightarrow>
   sat_effect c rs calm Q (then_task (look h) k) w"
  by (simp add: effect_intros)

lemma undisturbed_emit:
  "undisturbed w w1 \<Longrightarrow> undisturbed (emit evs w1) w2 \<Longrightarrow> undisturbed w w2"
  using same_shape_trans by (auto simp: undisturbed_def)

section \<open>Roots under interference\<close>

lemma walk_same_shape:
  "(\<And>ns. t ns = Some Directory \<longleftrightarrow> t' ns = Some Directory) \<Longrightarrow>
   (\<And>ns target. t ns = Some (Symlink target) \<longleftrightarrow> t' ns = Some (Symlink target)) \<Longrightarrow>
   (\<And>ns. t ns \<noteq> None \<Longrightarrow> t' ns \<noteq> None) \<Longrightarrow>
   walk False t links cur todo = Ok r \<Longrightarrow> walk False t' links cur todo = Ok r"
proof (induction "False" t links cur todo rule: walk.induct)
  case (2 t links cur x xs)
  from "2.prems"(4) have dir: "t cur = Some Directory" by (auto simp: walk.simps(2) split: if_splits)
  then have dir': "t' cur = Some Directory" using "2.prems"(1) by simp
  show ?case
  proof (cases "x = [] \<or> x = ''.'' \<or> x = ''..''")
    case True
    then show ?thesis
      using "2.hyps"(1,2) "2.prems" dir dir' by (auto simp: walk.simps(2) split: if_splits)
  next
    case False
    with dir "2.prems"(4) obtain nd where nd: "t (cur @ [x]) = Some nd"
      by (auto simp: walk.simps(2) split: option.splits if_splits)
    show ?thesis
    proof (cases nd)
      case (RegularFile s)
      with nd "2.prems"(1-3) [of "cur @ [x]"] obtain s' where "t' (cur @ [x]) = Some (RegularFile s')"
        by (metis fs_node.exhaust fs_node.distinct(1,3) option.exhaust option.inject)
      with nd RegularFile False dir dir' "2.hyps"(3) "2.prems" show ?thesis
        by (simp add: walk.simps(2))
    next
      case Directory
      with nd False dir "2.prems"(4) have "walk False t links (cur @ [x]) xs = Ok r"
        by (simp add: walk.simps(2))
      with "2.hyps"(4) [of nd] "2.prems"(1-3) nd Directory False dir
      have "walk False t' links (cur @ [x]) xs = Ok r" by blast
      moreover have "t' (cur @ [x]) = Some Directory" using nd Directory "2.prems"(1) by simp
      ultimately show ?thesis using False dir' by (simp add: walk.simps(2))
    next
      case (Symlink target)
      with nd False dir "2.prems"(4) obtain links' where links: "links = Suc links'"
        and "walk False t links' (if is_absolute target then [] else cur) (split_on (CHR ''/'') target @ xs) = Ok r"
        by (auto simp: walk.simps(2) split: nat.splits)
      with "2.hyps"(5) [of nd target links'] "2.prems"(1-3) nd Symlink False dir
      have "walk False t' links' (if is_absolute target then [] else cur) (split_on (CHR ''/'') target @ xs) = Ok r"
        by blast
      moreover have "t' (cur @ [x]) = Some (Symlink target)" using nd Symlink "2.prems"(2) by simp
      ultimately show ?thesis using False dir' links by (simp add: walk.simps(2))
    qed
  qed
qed simp

lemma resolve_same_shape:
  "same_shape fsys fsys' \<Longrightarrow> fs_resolve False fsys p = Ok rs \<Longrightarrow> fs_resolve False fsys' p = Ok rs"
  using walk_same_shape [of "nodes fsys" "nodes fsys'"]
  by (auto simp: same_shape_def fs_resolve_def split: if_splits)

text \<open>What an invocation needs of the world, and keeps needing: the root it was given leads to
  \<open>rs\<close>; and, to be \<open>calm\<close>, a device on which canonicalization does not fail.\<close>

definition starts_at :: "bool \<Rightarrow> string list \<Rightarrow> string \<Rightarrow> world \<Rightarrow> bool" where
  "starts_at calm rs p w \<longleftrightarrow>
     fs_wf (fs w) \<and> fs_resolve False (fs w) p = Ok rs \<and> (calm \<longrightarrow> canonicalize_stable (fs w))"

lemma starts_at_stable: "starts_at calm rs p w \<Longrightarrow> undisturbed w w' \<Longrightarrow> starts_at calm rs p w'"
  using resolve_same_shape stable_same_shape by (auto simp: starts_at_def undisturbed_def)

definition runs_at :: "bool \<Rightarrow> string list \<Rightarrow> tool_context \<Rightarrow> world \<Rightarrow> bool" where
  "runs_at calm rs ctx w \<longleftrightarrow>
     fs_wf (fs w) \<and> root_at (fs w) (cx_workspace_root ctx) rs \<and> (calm \<longrightarrow> canonicalize_stable (fs w))"

lemma runs_at_emit [simp]: "runs_at calm rs ctx (emit evs w) = runs_at calm rs ctx w"
  by (simp add: runs_at_def)

lemma runs_at_stable: "runs_at calm rs ctx w \<Longrightarrow> undisturbed w w' \<Longrightarrow> runs_at calm rs ctx w'"
  using same_shape_root_at stable_same_shape by (auto simp: runs_at_def undisturbed_def)

lemma starts_nested: "runs_at calm rs ctx w \<Longrightarrow> starts_at calm rs (cx_root ctx) w"
  using fs_resolve_names [of "fs w" rs False]
  by (simp add: runs_at_def starts_at_def root_at_def cx_root_def fs_wf_def)

lemma context_at:
  assumes "starts_at calm rs (params_workspace_root params) w" and "app_tools a path = Some t"
    and "app_tool_context_new (fs w) path (tool_registration_of t) params = Ok ctx"
  shows "runs_at calm rs ctx w \<and> cx_effective_capabilities ctx = effective_capabilities a path params"
proof -
  from app_tool_context_new_Ok [OF assms(2,3)] have
    root: "canonical_root_existing (fs w) (params_workspace_root params) = Ok (cx_workspace_root ctx)"
    and caps: "cx_effective_capabilities ctx = effective_capabilities a path params" by auto
  have wf: "fs_wf (fs w)" and res: "fs_resolve False (fs w) (params_workspace_root params) = Ok rs"
    using assms(1) by (auto simp: starts_at_def)
  have real: "real_node (nodes (fs w)) rs" by (rule fs_resolve_real [OF wf res])
  have "c = path_of_names rs" if "fs_canonicalize (fs w) (params_workspace_root params) = Ok c" for c
    using that res by (auto simp: fs_canonicalize_def split: option.splits)
  moreover have "\<forall>n \<in> set rs. good_name n" by (rule real_node_names [OF _ real]) (use wf in \<open>simp add: fs_wf_def\<close>)
  ultimately have "root_at (fs w) (cx_workspace_root ctx) rs"
    by (rule canonical_root_existing_names [OF wf root])
  with caps assms(1) show ?thesis by (simp add: runs_at_def starts_at_def)
qed

section \<open>Invocations keep their guarantee\<close>

lemma sat_with_fs:
  assumes "runs_at calm rs ctx w"
    and "\<And>acc w1. fs_wf (fs w1) \<Longrightarrow> root_at (fs w1) (access_workspace_root acc) rs \<Longrightarrow>
      access_policy_context acc = cx_policy_context ctx \<Longrightarrow> sat_effect c rs calm Q (k acc) w1"
  shows "sat_effect c rs calm Q (with_fs_task ctx k) w"
proof -
  have "sat_effect c rs calm Q (stopped k (cx_fs ctx w1)) w1" if "undisturbed w w1" for w1
  proof -
    have at: "runs_at calm rs ctx w1" by (rule runs_at_stable [OF assms(1) that])
    show ?thesis
    proof (cases "cx_fs ctx w1")
      case (Done acc)
      with at fs_access_new_at [of w1 ctx rs acc] assms(2) show ?thesis by (simp add: runs_at_def)
    next
      case (Panicked m)
      with at cx_fs_runs [of w1 ctx rs] show ?thesis by (auto simp: runs_at_def)
    qed simp
  qed
  then show ?thesis by (simp add: with_fs_task_def effect_intros)
qed

definition nest_sat :: "bool \<Rightarrow> string list \<Rightarrow> task_invoker \<Rightarrow> bool" where
  "nest_sat calm rs nest \<longleftrightarrow>
     (\<forall>path params payload w c. capabilities_override params = Some c \<longrightarrow>
        starts_at calm rs (params_workspace_root params) w \<longrightarrow>
        sat_effect c rs calm (\<lambda>r w. True) (nest path params payload) w)"

lemma sat_invoke_tool:
  assumes nest: "nest_sat calm rs nest" and at: "runs_at calm rs ctx w"
  shows "sat_effect (cx_effective_capabilities ctx) rs calm (\<lambda>r w. True)
    (invoke_tool_task nest ctx path co payload) w"
proof -
  let ?parent = "cx_effective_capabilities ctx"
  have run: "sat_effect ?parent rs calm (\<lambda>r w. True)
      (then_task (log_task evs) (\<lambda>_. nest path (invocation_params_new (cx_root ctx) (Some c)) payload)) w"
    if c: "caps_contains ?parent c" for c evs
  proof -
    have "sat_effect c rs calm (\<lambda>r w. True) (nest path (invocation_params_new (cx_root ctx) (Some c)) payload) w1"
      if "runs_at calm rs ctx w1" for w1
      using nest starts_nested [OF that] by (simp add: nest_sat_def invocation_params_new_def)
    then show ?thesis
      by (intro sat_log sat_narrow [OF c]) (simp add: runs_at_stable [OF at])
  qed
  then show ?thesis
    by (auto simp: invoke_tool_task_def Let_def effect_intros split: option.split)
qed

lemma sat_prog:
  assumes nest: "nest_sat calm rs nest" and env: "has_envelope (app_policy a)"
  shows "calm \<longrightarrow> panic_free p \<Longrightarrow> runs_at calm rs ctx w \<Longrightarrow>
    sat_effect (cx_effective_capabilities ctx) rs calm (\<lambda>r w. True) (prog_task a nest ctx p) w"
proof (induction p arbitrary: w)
  case (CallReadFile p k)
  show ?case
    unfolding prog_task.simps
    by (rule rg.sat_then [OF sat_with_fs [OF CallReadFile.prems(2) sat_read_file]])
      (use CallReadFile in \<open>auto intro: runs_at_stable\<close>)
next
  case (CallWriteFile p c k)
  have wr: "sat_effect (cx_effective_capabilities ctx) rs calm (\<lambda>r w. True) (write_file_task (app_policy a) acc p c) w1"
    if "fs_wf (fs w1)" "root_at (fs w1) (access_workspace_root acc) rs"
      "access_policy_context acc = cx_policy_context ctx" for acc w1
    using sat_write_file [OF env that(1,2)] that(3) by simp
  show ?case
    unfolding prog_task.simps
    by (rule rg.sat_then [OF sat_with_fs [OF CallWriteFile.prems(2) wr]])
      (use CallWriteFile in \<open>auto intro: runs_at_stable\<close>)
next
  case (CallFetchUrl u k)
  show ?case
    unfolding prog_task.simps
    by (rule rg.sat_then [OF sat_fetch_url]) (use CallFetchUrl in \<open>auto intro: runs_at_stable\<close>)
next
  case (CallSessionLoad s k)
  show ?case
    unfolding prog_task.simps
    by (rule rg.sat_then [OF sat_session_load]) (use CallSessionLoad in \<open>auto intro: runs_at_stable\<close>)
next
  case (CallSessionSave s bs k)
  have "session_workspace_root (cx_monty_sessions ctx) = path_of_names rs"
    using CallSessionSave.prems(2)
    by (simp add: runs_at_def root_at_def cx_monty_sessions_def session_access_new_def cx_root_def)
  then show ?case
    unfolding prog_task.simps
    by (intro rg.sat_then [OF sat_session_save]) (use CallSessionSave in \<open>auto intro: runs_at_stable\<close>)
next
  case (CallInvokeTool path c j k)
  show ?case
    unfolding prog_task.simps
    by (rule rg.sat_then [OF sat_invoke_tool [OF nest CallInvokeTool.prems(2)]])
      (use CallInvokeTool in \<open>auto intro: runs_at_stable\<close>)
next
  case (EmitAudit evs p)
  show ?case
    unfolding prog_task.simps
    by (rule sat_log, rule EmitAudit.IH) (use EmitAudit.prems in \<open>auto intro: runs_at_stable\<close>)
qed auto

lemma sat_app:
  assumes env: "has_envelope (app_policy a)"
    and tools: "calm \<longrightarrow> (\<forall>path t ctx payload. app_tools a path = Some t \<longrightarrow> panic_free (tool_adapter t ctx payload))"
  shows "starts_at calm rs (params_workspace_root params) w \<Longrightarrow>
    sat_effect (effective_capabilities a path params) rs calm (\<lambda>r w. True) (app_task n a path params payload) w"
proof (induction n arbitrary: path params payload w)
  case (Suc n)
  have nest: "nest_sat calm rs (app_task n a)"
    using Suc.IH by (fastforce simp: nest_sat_def effective_capabilities_def)
  show ?case
  proof (cases "app_tools a path")
    case (Some t)
    let ?c = "effective_capabilities a path params"
    let ?rest = "\<lambda>ctx. then_task (prog_task a (app_task n a) ctx (registered_tool_invoke t ctx payload))
      (\<lambda>result. then_task (log_task (invocation_result_events result @ [SpanExit])) (\<lambda>_. give result))"
    have rest: "sat_effect ?c rs calm (\<lambda>r w. True) (?rest ctx) w1"
      if "runs_at calm rs ctx w1" "cx_effective_capabilities ctx = ?c" for ctx w1
    proof -
      have "calm \<longrightarrow> panic_free (registered_tool_invoke t ctx payload)"
        using tools Some by (auto simp: registered_tool_invoke_def)
      from sat_prog [OF nest env this that(1)] that(2)
      have "sat_effect ?c rs calm (\<lambda>r w. True)
          (prog_task a (app_task n a) ctx (registered_tool_invoke t ctx payload)) w1" by simp
      then show ?thesis by (rule rg.sat_then) (simp add: effect_intros)
    qed
    have "sat_effect ?c rs calm (\<lambda>r w. True)
        (then_task (log_task evs) (\<lambda>_. then_task (log_task evs') (\<lambda>_. ?rest ctx))) w1"
      if "runs_at calm rs ctx w1" "cx_effective_capabilities ctx = ?c" for ctx evs evs' w1
      by (intro sat_log rest that(2))
        (simp only: runs_at_emit, (rule runs_at_stable [OF that(1) undisturbed_emit]; assumption))
    then have started: "sat_effect ?c rs calm (\<lambda>r w. True)
        (then_task (log_task evs) (\<lambda>_. then_task (log_task evs') (\<lambda>_. ?rest ctx))) w1"
      if "undisturbed w w1" "app_tool_context_new (fs w1) path (tool_registration_of t) params = Ok ctx"
      for ctx evs evs' w1
      using context_at [OF starts_at_stable [OF Suc.prems that(1)] Some that(2)] by blast
    show ?thesis
      unfolding app_task.simps app_task_with_def Some option.case Let_def
    proof (rule sat_look)
      fix w1 assume w1: "undisturbed w w1"
      show "sat_effect ?c rs calm (\<lambda>r w. True)
          (case app_tool_context_new (fs w1) path (tool_registration_of t) params of
             Err e \<Rightarrow> give (Err (ToolAuthorization e))
           | Ok ctx \<Rightarrow>
               then_task (log_task (record_tool_capabilities_override path
                 (tool_name (reg_spec (tool_registration_of t)))
                 (capabilities_of (reg_spec (tool_registration_of t))) (cx_effective_capabilities ctx)))
               (\<lambda>_. then_task (log_task [tool_invocation_span path (tool_name (reg_spec (tool_registration_of t)))])
               (\<lambda>_. ?rest ctx))) w1"
        using started [OF w1] by (cases "app_tool_context_new (fs w1) path (tool_registration_of t) params") simp_all
    qed
  qed (simp add: app_task_with_def)
qed simp

end
