(* ===== verification/Concurrent_Laws.thy ===== *)
theory Concurrent_Laws
  imports Concurrent Audit_Monitor Invocation_Depth "HOL-Library.Multiset"
begin

text \<open>
  What concurrent invocations of one host keep, in every interleaving: files change only under
  the roots of the calls that may write, sessions only in the workspaces of the calls; with the
  built-in tools every run ends, with a result for every call if no canonicalization is refused; and the grant identifiers that the
  calls leave in the common audit log are the values of the counter, each once.
\<close>

section \<open>Calls\<close>

type_synonym call = "string \<times> invocation_params \<times> json"

definition call_task :: "nat \<Rightarrow> app \<Rightarrow> call \<Rightarrow> (tool_error + tool_outcome) task" where
  "call_task n a c = (case c of (path, params, payload) \<Rightarrow> app_task n a path params payload)"

definition call_capabilities :: "app \<Rightarrow> call \<Rightarrow> capabilities" where
  "call_capabilities a c = (case c of (path, params, payload) \<Rightarrow> effective_capabilities a path params)"

text \<open>The workspace root of the call exists and is the directory with these names.\<close>

definition call_at :: "world \<Rightarrow> call \<Rightarrow> string list \<Rightarrow> bool" where
  "call_at w c rs \<longleftrightarrow>
     (case c of (path, params, payload) \<Rightarrow> fs_resolve False (fs w) (params_workspace_root params) = Ok rs)"

abbreviation calls_pool :: "nat \<Rightarrow> app \<Rightarrow> call list \<Rightarrow> (tool_error + tool_outcome) task list" where
  "calls_pool n a calls \<equiv> map (call_task n a) calls"

section \<open>Effects of a pool of calls\<close>

definition call_index :: "app \<Rightarrow> call list \<Rightarrow> string list list \<Rightarrow> nat \<Rightarrow> capabilities \<times> string list" where
  "call_index a calls roots i = (call_capabilities a (calls ! i), roots ! i)"

lemma calls_sat:
  assumes "has_envelope (app_policy a)"
    and "calm \<longrightarrow> (\<forall>path t ctx payload. app_tools a path = Some t \<longrightarrow> panic_free (tool_adapter t ctx payload))"
    and "fs_wf (fs w)" and "calm \<longrightarrow> canonicalize_stable (fs w)"
    and "list_all2 (call_at w) calls roots" and i: "i < length calls"
  shows "sat undisturbed (effect (call_index a calls roots i)) calm (\<lambda>r w. True) (calls_pool n a calls ! i) w"
proof -
  obtain path params payload where c: "calls ! i = (path, params, payload)" by (cases "calls ! i")
  from list_all2_nthD [OF assms(5) i] c assms(3,4)
  have "starts_at calm (roots ! i) (params_workspace_root params) w"
    by (simp add: call_at_def starts_at_def)
  from sat_app [OF assms(1,2) this] i c
  show ?thesis by (simp add: call_task_def call_index_def call_capabilities_def)
qed

lemma calls_effects:
  assumes "has_envelope (app_policy a)" and "fs_wf (fs w)" and "list_all2 (call_at w) calls roots"
    and run: "pool_run (calls_pool n a calls, w) (ts, w')"
  shows "(\<lambda>w w'. \<exists>i < length calls. effect (call_index a calls roots i) w w')\<^sup>*\<^sup>* w w'"
  using rg.pool_sound [OF run, of "call_index a calls roots" False "\<lambda>i r w. True"]
    calls_sat [of a False] assms(1-3) by simp

lemma calls_confined:
  assumes "has_envelope (app_policy a)" and "fs_wf (fs w)"
    and "list_all2 (\<lambda>c rs. call_at w c rs \<and> links_contained (fs w) rs) calls roots"
    and "pool_run (calls_pool n a calls, w) (ts, w')"
  shows "fs_wf (fs w') \<and> same_shape (fs w) (fs w') \<and> (\<forall>ms. nodes (fs w') ms = nodes (fs w) ms
     \<or> list_ex (\<lambda>(c, rs). prefix rs ms \<and> allows (call_capabilities a c) FsWrite) (zip calls roots))"
proof -
  let ?may = "\<lambda>ms. \<exists>i < length calls. prefix (roots ! i) ms \<and> allows (call_capabilities a (calls ! i)) FsWrite"
  from assms(3) have at: "list_all2 (call_at w) calls roots"
    and links: "\<forall>i < length calls. links_contained (fs w) (roots ! i)"
    by (auto simp: list_all2_conv_all_nth)
  from calls_effects [OF assms(1,2) at assms(4)]
  have "fs_wf (fs w') \<and> same_shape (fs w) (fs w') \<and> (\<forall>i < length calls. links_contained (fs w') (roots ! i))
    \<and> (\<forall>ms. nodes (fs w') ms = nodes (fs w) ms \<or> ?may ms)"
  proof (induction rule: rtranclp_induct)
    case base
    show ?case using assms(2) links by simp
  next
    case (step v v')
    then obtain i where i: "i < length calls"
      and "effect (call_capabilities a (calls ! i), roots ! i) v v'" by (auto simp: call_index_def)
    then have eff: "write_effect (call_capabilities a (calls ! i)) (roots ! i) (fs v) (fs v')"
      by (auto simp: effect_def write_effect_def)
    from step.IH have wf: "fs_wf (fs v)" by blast
    have "nodes (fs v') ms = nodes (fs v) ms \<or> ?may ms" for ms
      using step.IH i write_effect_outside [OF wf eff] write_effect_needs_FsWrite [OF eff] by metis
    moreover have "links_contained (fs v') rs" if "links_contained (fs v) rs" for rs
      using eff that wf links_contained_write by (auto simp: write_effect_def)
    ultimately show ?case
      using step.IH write_effect_shape [OF wf eff] same_shape_trans by metis
  qed
  with list_all2_lengthD [OF at] show ?thesis by (fastforce simp: list_ex_length)
qed

text \<open>C8: if the workspace roots exist and no link under a root leads out of it at the start
  (\<open>links_contained\<close>), then in every interleaving of any calls a node of the file system changes
  only under the root of a call whose effective capabilities include \<open>FsWrite\<close>.\<close>

theorem concurrent_confinement:
  assumes "has_envelope (app_policy a)" and "fs_wf (fs w)"
    and "list_all2 (\<lambda>c rs. call_at w c rs \<and> links_contained (fs w) rs) calls roots"
    and "pool_run (calls_pool n a calls, w) (ts, w')"
    and "nodes (fs w') ms \<noteq> nodes (fs w) ms"
  shows "list_ex (\<lambda>(c, rs). prefix rs ms \<and> allows (call_capabilities a c) FsWrite) (zip calls roots)"
  using calls_confined [OF assms(1-4)] assms(5) by blast

lemma effect_other_sessions: "effect (c, rs) w w' \<Longrightarrow> other_sessions_kept c rs w w'"
proof -
  assume "effect (c, rs) w w'"
  then consider "sessions w' = sessions w"
    | sid bs where "sessions w' = (sessions w)
        \<lparr>session_map := (session_map (sessions w)) ((components (path_of_names rs), sid) \<mapsto> bs)\<rparr>"
    by (auto simp: effect_def save_raw_def session_key_order_def monty_session_key_new_def
        split: if_splits) (drule sym, simp)
  then show ?thesis by cases (auto simp: other_sessions_kept_def path_eq_def)
qed

text \<open>C32: in every interleaving of any calls, the Monty sessions of every workspace that is the root
  of none of them stay as they were, and the store is not poisoned.\<close>

theorem concurrent_sessions_kept:
  assumes "has_envelope (app_policy a)" and "fs_wf (fs w)"
    and "list_all2 (call_at w) calls roots"
    and "\<not> list_ex (\<lambda>rs. path_eq other (path_of_names rs)) roots"
    and "pool_run (calls_pool n a calls, w) (ts, w')"
  shows "load_raw (sessions w') (monty_session_key_new other sid)
       = load_raw (sessions w) (monty_session_key_new other sid)"
proof -
  let ?keeps = "\<lambda>w w'. poisoned (sessions w') = poisoned (sessions w)
      \<and> session_map (sessions w') (components other, sid) = session_map (sessions w) (components other, sid)"
  have "?keeps w w'"
    using calls_effects [OF assms(1-3,5)]
  proof (induction rule: rtranclp_induct)
    case (step v v')
    then obtain i where i: "i < length calls"
      and eff: "effect (call_capabilities a (calls ! i), roots ! i) v v'" by (auto simp: call_index_def)
    have "\<not> path_eq other (path_of_names (roots ! i))"
      using assms(3,4) i by (auto simp: list_ex_iff list_all2_lengthD)
    with step.IH effect_other_sessions [OF eff] show ?case by (simp add: other_sessions_kept_def)
  qed simp
  then show ?thesis
    by (simp add: load_raw_def session_key_order_def monty_session_key_new_def)
qed

section \<open>Tasks that end with a result\<close>

text \<open>A task that no steps of its own or of others lead to the depth bound.\<close>

primrec fueled :: "'r task \<Rightarrow> bool" where
  "fueled (Finished x) \<longleftrightarrow> x \<noteq> OutOfFuel"
| "fueled (Atomic f) \<longleftrightarrow> (\<forall>w. (\<lambda>(p, w'). p) ((map_prod fueled id \<circ> f) w))"

lemma fueled_simps [simp]:
  "fueled (Atomic f) \<longleftrightarrow> (\<forall>w. fueled (fst (f w)))"
  "fueled (act g)" "fueled (look h)" "fueled (log_task evs)"
  by (simp_all add: split_beta act_def look_def log_task_def)

declare fueled.simps(2) [simp del]

lemma fueled_then: "fueled t \<Longrightarrow> (\<And>r. fueled (k r)) \<Longrightarrow> fueled (then_task t k)"
proof (induction t)
  case (Finished x)
  then show ?case by (cases x) simp_all
qed simp

lemma then_assoc: "then_task (then_task t k) k' = then_task t (\<lambda>r. then_task (k r) k')"
proof (induction t)
  case (Finished x)
  show ?case by (cases x) simp_all
qed (simp add: fun_eq_iff)

lemma prog_task_bind:
  "prog_task a nest ctx (bind_prog p f) = then_task (prog_task a nest ctx p) (\<lambda>r. prog_task a nest ctx (f r))"
  by (induction p) (simp_all add: then_assoc rangeI)

lemma fueled_grant: "fueled (grant_task pl dyn ctx a)"
  by (auto simp: grant_task_def engine_task_def Let_def split_beta
      intro!: fueled_then split: policy_outcome.split grant_source.split)

lemma fueled_granted: "(\<And>g. fueled (k g)) \<Longrightarrow> fueled (granted_task pl dyn ctx a k)"
  unfolding granted_task_def by (rule fueled_then [OF fueled_grant]) (simp split: sum.split)

lemma fueled_facades:
  "fueled (read_file_task pl acc p)" "fueled (write_file_task pl acc p c)"
  by (auto simp: read_file_task_def write_file_task_def intro!: fueled_granted split: sum.split)

lemma fueled_with_fs: "(\<And>acc. fueled (k acc)) \<Longrightarrow> fueled (with_fs_task ctx k)"
  by (simp add: with_fs_task_def cx_fs_def fs_access_new_def split: sum.split)

lemma fueled_invoke_tool:
  "(\<And>params. fueled (nest p params j)) \<Longrightarrow> fueled (invoke_tool_task nest ctx p c j)"
  by (simp add: invoke_tool_task_def Let_def split: option.split)

lemma fueled_adapter:
  assumes "\<And>input. impl_parse_input inner payload = Ok input \<Longrightarrow>
      fueled (prog_task a nest ctx (impl_execute inner ctx input))"
  shows "fueled (prog_task a nest ctx (adapter_invoke spans inner ctx payload))"
  using assms
  by (auto simp: adapter_invoke_def Let_def prog_task_bind intro!: fueled_then split: sum.split)

lemma builtin_tool_fueled:
  assumes t: "builtin_tool path = Some t"
    and nest: "\<And>p params j. size j < size payload \<Longrightarrow> fueled (nest p params j)"
  shows "fueled (prog_task a nest ctx (registered_tool_invoke t ctx payload))"
proof -
  have "fueled (prog_task a nest ctx (read_file_execute ctx rin))" for rin
    by (auto simp: read_file_execute_def intro!: fueled_then fueled_with_fs fueled_facades split: sum.split)
  moreover have "fueled (prog_task a nest ctx (write_file_execute ctx win))" for win
    by (auto simp: write_file_execute_def intro!: fueled_then fueled_with_fs fueled_facades split: sum.split)
  moreover have "fueled (prog_task a nest ctx (double_execute ctx (p, inner)))"
    if "double_parse_input payload = Ok (p, inner)" for p inner
    using nest [OF double_parse_smaller [OF that]]
    by (auto simp: double_execute_def intro!: fueled_then fueled_invoke_tool split: sum.split)
  ultimately show ?thesis
    using t by (auto simp: builtin_tool_def registered_tool_invoke_def ReadFileTool_def
        WriteFileTool_def Double_def intro!: fueled_adapter split: if_splits)
qed

lemma builtin_call_fueled: "size payload < n \<Longrightarrow> fueled (app_task n (builtin_app ops) path params payload)"
proof (induction n arbitrary: path params payload)
  case (Suc n)
  show ?case
  proof (cases "builtin_tool path")
    case (Some t)
    have "fueled (prog_task (builtin_app ops) (app_task n (builtin_app ops)) ctx (registered_tool_invoke t ctx payload))"
      for ctx by (rule builtin_tool_fueled [OF Some]) (use Suc in auto)
    with Some show ?thesis
      by (auto simp: app_task_with_def Let_def intro!: fueled_then split: sum.split)
  qed (simp add: app_task_with_def)
qed simp

lemma pool_fueled:
  assumes "pool_run (ts, w) (ts', w')" and "list_all fueled ts"
  shows "list_all fueled ts'"
  using assms(1)
proof (induction "(ts', w')" arbitrary: ts' w' rule: rtranclp_induct)
  case (step p)
  then show ?case
    by (cases p) (fastforce elim!: pool_stepE simp: list_all_length nth_list_update)
qed (use assms(2) in simp)

text \<open>C9: with the built-in tools and any policies, any number of concurrent invocations whose
  workspace roots exist come to an end under every scheduler: no run goes on for ever, and where
  no step is left every invocation has ended above the depth bound; it has returned a result or an
  error and not panicked, if the device refuses no canonicalization (\<open>canonicalize_stable\<close>).\<close>

theorem concurrent_calls_return:
  assumes "fs_wf (fs w)" and "list_all2 (call_at w) calls roots"
    and "list_all (\<lambda>c. size (snd (snd c)) < n) calls"
  shows "(\<nexists>run. run 0 = (calls_pool n (builtin_app ops) calls, w) \<and> (\<forall>i. pool_step (run i) (run (Suc i))))
    \<and> (\<forall>ts w'. pool_run (calls_pool n (builtin_app ops) calls, w) (ts, w') \<and> (\<nexists>p. pool_step (ts, w') p) \<longrightarrow>
         list_all (\<lambda>t. \<exists>x. t = Finished x \<and> x \<noteq> OutOfFuel
           \<and> (canonicalize_stable (fs w) \<longrightarrow> (\<exists>result. x = Done result))) ts)"
proof
  show "\<nexists>run. run 0 = (calls_pool n (builtin_app ops) calls, w) \<and> (\<forall>i. pool_step (run i) (run (Suc i)))"
    using wf_pool [THEN wf_iff_no_infinite_down_chain [THEN iffD1]] by blast
  show "\<forall>ts w'. pool_run (calls_pool n (builtin_app ops) calls, w) (ts, w') \<and> (\<nexists>p. pool_step (ts, w') p) \<longrightarrow>
      list_all (\<lambda>t. \<exists>x. t = Finished x \<and> x \<noteq> OutOfFuel
        \<and> (canonicalize_stable (fs w) \<longrightarrow> (\<exists>result. x = Done result))) ts"
  proof (intro allI impI, elim conjE)
    fix ts w'
    assume run: "pool_run (calls_pool n (builtin_app ops) calls, w) (ts, w')" and "\<nexists>p. pool_step (ts, w') p"
    then have fin: "all_finished ts" using pool_progress by blast
    have "list_all fueled (calls_pool n (builtin_app ops) calls)"
      using assms(3) builtin_call_fueled by (fastforce simp: list_all_length call_task_def split: prod.split)
    with run have fuel: "list_all fueled ts" by (rule pool_fueled)
    have calm: "\<forall>i < length ts. sat undisturbed (effect (call_index (builtin_app ops) calls roots i)) True
        (\<lambda>r w. True) (ts ! i) w'" if "canonicalize_stable (fs w)"
      using rg.pool_sound [OF run, of "call_index (builtin_app ops) calls roots" True "\<lambda>i r w. True"]
        calls_sat [OF builtin_app_envelope _ assms(1) _ assms(2), of True] builtin_tools_panic_free that
      by simp
    have "\<exists>x. ts ! i = Finished x \<and> x \<noteq> OutOfFuel
        \<and> (canonicalize_stable (fs w) \<longrightarrow> (\<exists>result. x = Done result))" if i: "i < length ts" for i
    proof -
      from fin i obtain x where x: "ts ! i = Finished x"
        by (cases "ts ! i") (auto simp: all_finished_def list_all_length split: task.splits)
      from fuel i have "fueled (ts ! i)" by (simp add: list_all_length)
      then have "x \<noteq> OutOfFuel" by (simp add: x)
      moreover have "\<exists>result. x = Done result" if "canonicalize_stable (fs w)"
        using calm [OF that, rule_format, OF i] rg.rely_refl [of w'] \<open>x \<noteq> OutOfFuel\<close>
        unfolding x by (cases x) auto
      ultimately show ?thesis using x by blast
    qed
    then show "list_all (\<lambda>t. \<exists>x. t = Finished x \<and> x \<noteq> OutOfFuel
        \<and> (canonicalize_stable (fs w) \<longrightarrow> (\<exists>result. x = Done result))) ts" by (simp add: list_all_length)
  qed
qed

section \<open>Grant identifiers of concurrent calls\<close>

text \<open>
  The identifiers of a step: those that it records, and the one that it takes from the counter.
  A task \<open>settles\<close> a multiset of identifiers when it records these, which it took before, and all
  that it takes from here on, each once.
\<close>

definition books :: "world \<Rightarrow> world \<Rightarrow> u64 multiset \<Rightarrow> u64 multiset \<Rightarrow> bool" where
  "books w w' open' left \<longleftrightarrow> (\<exists>evs taken. audit_log w' = audit_log w @ evs
     \<and> next_grant_id w' = next_grant_id w + of_nat taken
     \<and> mset (recorded_ids evs) + left = open' + mset (ids_from (next_grant_id w) taken))"

primrec settles :: "'r task \<Rightarrow> u64 multiset \<Rightarrow> bool" where
  "settles (Finished x) = (\<lambda>open'. open' = {#})"
| "settles (Atomic f) = (\<lambda>open'. \<forall>w. \<exists>left. (\<lambda>(p, w'). books w w' open' left \<and> p left)
     ((map_prod settles id \<circ> f) w))"

lemma settles_Atomic [simp]:
  "settles (Atomic f) open' \<longleftrightarrow> (\<forall>w. \<exists>left. books w (snd (f w)) open' left \<and> settles (fst (f w)) left)"
  by (simp add: split_beta)

declare settles.simps(2) [simp del]

lemma settles_then: "settles t open' \<Longrightarrow> (\<And>r. settles (k r) {#}) \<Longrightarrow> settles (then_task t k) open'"
proof (induction t arbitrary: open')
  case (Finished x)
  then show ?case by (cases x) simp_all
next
  case (Atomic f)
  show ?case
    unfolding then_task_simps settles_Atomic
  proof
    fix w
    from Atomic.prems(1) obtain left where
      left: "books w (snd (f w)) open' left" "settles (fst (f w)) left" by auto
    from left(1) Atomic.IH [OF left(2)] Atomic.prems(2)
    show "\<exists>left. books w (snd (then_task (fst (f w)) k, snd (f w))) open' left
        \<and> settles (fst (then_task (fst (f w)) k, snd (f w))) left" by auto
  qed
qed

lemma recorded_ids_append: "recorded_ids (xs @ ys) = recorded_ids xs @ recorded_ids ys"
  by (induction xs rule: recorded_ids.induct) simp_all

lemma books_same:
  "audit_log w' = audit_log w \<Longrightarrow> next_grant_id w' = next_grant_id w \<Longrightarrow> books w w' open' open'"
  unfolding books_def by (intro exI [of _ "[]"] exI [of _ 0]) (simp add: ids_from_simps)

lemma books_emit: "open' = mset (recorded_ids evs) + left \<Longrightarrow> books w (emit evs w) open' left"
  unfolding books_def by (intro exI [of _ evs] exI [of _ 0]) (simp add: ids_from_simps)

lemma settles_log:
  "settles (k ()) left \<Longrightarrow> open' = mset (recorded_ids evs) + left \<Longrightarrow> settles (then_task (log_task evs) k) open'"
  unfolding then_task_simps settles_Atomic by (auto intro!: exI [of _ left] books_emit)

lemma settles_quiet_log:
  "recorded_ids evs = [] \<Longrightarrow> settles (k ()) open' \<Longrightarrow> settles (then_task (log_task evs) k) open'"
  by (rule settles_log) simp_all

lemma settles_look: "(\<And>r. settles (k r) open') \<Longrightarrow> settles (then_task (look h) k) open'"
  by (auto intro: books_same)

lemma settles_act:
  "(\<And>w. audit_log (snd (g w)) = audit_log w \<and> next_grant_id (snd (g w)) = next_grant_id w) \<Longrightarrow>
   settles (act g) {#}"
  by (auto simp: act_def intro!: books_same)

lemma settles_fetch:
  assumes "\<And>gid. settles (k gid) {#grant_id_get gid#}"
  shows "settles (then_task (act fetch_grant_id) (\<lambda>gid. k gid)) {#}"
proof -
  have "books w (snd (fetch_grant_id w)) {#} {#next_grant_id w#}" for w
    unfolding books_def
    by (intro exI [of _ "[]"] exI [of _ 1]) (simp add: fetch_grant_id_def ids_from_def)
  with assms [of "GrantId _"] show ?thesis by (auto simp: fetch_grant_id_def grant_id_from_raw_def)
qed

text \<open>Events that leave the counter of the monitor alone record no identifiers.\<close>

lemma moves_no_ids:
  assumes "moves d evs d'"
  shows "recorded_ids evs = []"
proof (rule ccontr)
  assume "recorded_ids evs \<noteq> []"
  moreover have "\<exists>k. recorded_ids evs = ids_from n k" for n
    using assms monitor_ids unfolding moves_def by blast
  then obtain j k where "recorded_ids evs = ids_from 0 j" "recorded_ids evs = ids_from 1 k" by metis
  ultimately show False by (cases j; cases k) (simp_all add: ids_from_simps)
qed

lemma decision_no_ids: "recorded_ids (snd (pipeline_decide pl ctx a)) = []"
  by (rule moves_no_ids [of "[undecided]" _ "[undecided]"])
    (use accepted_decision [of "[]" _ pl ctx a] in \<open>simp add: moves_def accepted_def\<close>)

lemma record_grant_ids:
  "recorded_ids (record_grant r) = (case rec_decision r of GrantAllow g \<Rightarrow> [grant_id_get g] | GrantDeny \<Rightarrow> [])"
  by (simp add: record_grant_def Let_def split_beta recorded_ids_append
      split: grant_decision.split grant_source.split option.split)

lemma grant_events_ids:
  "recorded_ids (grant_events (Ok (granted_new (grant_record_allow gid kind res n i r) a))) = [grant_id_get gid]"
  "recorded_ids (grant_events (Err (Denied (authorization_deny_from_record
     (grant_record_deny_from_policy kind res n i r))))) = []"
  "recorded_ids (grant_events (Err (Denied (authorization_deny_from_record
     (grant_record_deny_without_match kind res r))))) = []"
  by (simp_all add: grant_events_def granted_new_def record_grant_ids authorization_deny_from_record_def
      grant_record_allow_def grant_record_deny_from_policy_def grant_record_deny_without_match_def)

lemma settles_grant_end:
  "open' = mset (recorded_ids evs) \<Longrightarrow>
   settles (then_task (log_task evs) (\<lambda>_. then_task (log_task [SpanExit]) (\<lambda>_. give result))) open'"
  by (rule settles_log [where left = "{#}"], rule settles_quiet_log) simp_all

lemma settles_grant: "settles (grant_task pl dyn ctx a) {#}"
  supply then_task_simps [simp del]
  unfolding grant_task_def engine_task_def
  by (auto simp: split_beta Let_def decision_no_ids action_grant_span_def grant_events_ids then_assoc
      intro!: settles_quiet_log settles_fetch settles_grant_end
      split: policy_outcome.split grant_source.split)

declare then_task_simps [simp del]

lemma settles_granted: "(\<And>g. settles (k g) {#}) \<Longrightarrow> settles (granted_task pl dyn ctx a k) {#}"
  unfolding granted_task_def by (rule settles_then [OF settles_grant]) (simp split: sum.split)

lemma backend_books:
  "audit_log (snd (std_fs_read_file gr w)) = audit_log w \<and> next_grant_id (snd (std_fs_read_file gr w)) = next_grant_id w"
  "audit_log (snd (std_fs_write_file gw w)) = audit_log w \<and> next_grant_id (snd (std_fs_write_file gw w)) = next_grant_id w"
  "audit_log (snd (store_load gl w)) = audit_log w \<and> next_grant_id (snd (store_load gl w)) = next_grant_id w"
  "audit_log (snd (store_save gs w)) = audit_log w \<and> next_grant_id (snd (store_save gs w)) = next_grant_id w"
  by (simp_all add: std_fs_read_file_def std_fs_write_file_def store_load_def store_save_def
      Let_def split_beta)

lemma settles_facades:
  "settles (read_file_task pl acc p) {#}" "settles (write_file_task pl acc p c) {#}"
  "settles (fetch_url_task pl backend ctx u) {#}"
  "settles (session_load_task pl sacc sid) {#}" "settles (session_save_task pl sacc sid bs) {#}"
  by (auto simp: read_file_task_def write_file_task_def fetch_url_task_def session_load_task_def
      session_save_task_def backend_books
      intro!: settles_look settles_granted settles_act split: sum.split)

lemma settles_with_fs: "(\<And>acc. settles (k acc) {#}) \<Longrightarrow> settles (with_fs_task ctx k) {#}"
  unfolding with_fs_task_def
  by (rule settles_then) (auto simp: cx_fs_def fs_access_new_def intro!: books_same split: sum.split)

lemma settles_invoke_tool:
  assumes "\<And>params. settles (nest p params j) {#}"
  shows "settles (invoke_tool_task nest ctx p c j) {#}"
  using assms moves_no_ids [OF moves_nested_event [of "[]"]]
  by (auto simp: invoke_tool_task_def Let_def intro!: settles_quiet_log split: option.split)

text \<open>The tools of an application that record no grant identifiers of their own.\<close>

primrec quiet :: "'a tool_prog \<Rightarrow> bool" where
  "quiet (Return r) = True"
| "quiet (CallReadFile p k) = (\<forall>r. quiet (k r))"
| "quiet (CallWriteFile p c k) = (\<forall>r. quiet (k r))"
| "quiet (CallFetchUrl u k) = (\<forall>r. quiet (k r))"
| "quiet (CallSessionLoad s k) = (\<forall>r. quiet (k r))"
| "quiet (CallSessionSave s bs k) = (\<forall>r. quiet (k r))"
| "quiet (CallInvokeTool p c j k) = (\<forall>r. quiet (k r))"
| "quiet (EmitAudit evs p) = (recorded_ids evs = [] \<and> quiet p)"
| "quiet (ToolPanics m) = True"
| "quiet StepBound = True"

definition quiet_tools :: "app \<Rightarrow> bool" where
  "quiet_tools a \<longleftrightarrow>
     (\<forall>path t ctx payload. app_tools a path = Some t \<longrightarrow> quiet (tool_adapter t ctx payload))"

lemma quiet_emits: "emits d p d' \<Longrightarrow> quiet p"
  by (induction p arbitrary: d) (auto dest: moves_no_ids)

lemma quiet_balanced: "balanced_tools a \<Longrightarrow> quiet_tools a"
  unfolding quiet_tools_def balanced_tools_def by (blast intro: quiet_emits)

lemma settles_prog:
  assumes "\<And>p params j. settles (nest p params j) {#}"
  shows "quiet p \<Longrightarrow> settles (prog_task a nest ctx p) {#}"
  by (induction p)
    (auto intro!: settles_then settles_quiet_log settles_with_fs settles_facades settles_invoke_tool assms)

lemma settles_log_task: "recorded_ids evs = [] \<Longrightarrow> settles (log_task evs) {#}"
  by (auto simp: log_task_def intro!: books_emit)

lemma settles_app: "quiet_tools a \<Longrightarrow> settles (app_task n a path params payload) {#}"
proof (induction n arbitrary: path params payload)
  case (Suc n)
  show ?case
  proof (cases "app_tools a path")
    case (Some t)
    have prog: "settles (prog_task a (app_task n a) ctx (registered_tool_invoke t ctx payload)) {#}" for ctx
      using Suc.prems Some
      by (intro settles_prog Suc.IH) (auto simp: quiet_tools_def registered_tool_invoke_def)
    have "recorded_ids (record_tool_capabilities_override path name c1 c2) = []"
      "recorded_ids [tool_invocation_span path name] = []" for name c1 c2
      by (simp_all add: record_tool_capabilities_override_def tool_invocation_span_def)
    moreover have "recorded_ids (invocation_result_events result @ [SpanExit]) = []" for result
      by (rule moves_no_ids [OF moves_end])
    ultimately show ?thesis
      using Some
      by (auto simp: app_task_with_def Let_def
          intro!: settles_look settles_log_task settles_then prog split: sum.split)
  qed (simp add: app_task_with_def)
qed simp

lemma ids_from_add: "ids_from n (j + k) = ids_from n j @ ids_from (n + of_nat j) k"
  by (induction j arbitrary: n) (simp_all add: ids_from_simps ac_simps)

lemma sum_list_exchange:
  "i < length xs \<Longrightarrow> sum_list (xs[i := x]) + xs ! i = sum_list xs + (x :: 'a :: comm_monoid_add)"
  by (induction xs arbitrary: i) (auto simp: ac_simps nth_Cons split: nat.split)

text \<open>The ledger of a pool: what its tasks have recorded and what they still hold is what they took.\<close>

definition pool_books :: "world \<Rightarrow> 'r task list \<Rightarrow> world \<Rightarrow> bool" where
  "pool_books w0 ts w \<longleftrightarrow> (\<exists>evs k held. audit_log w = audit_log w0 @ evs
     \<and> next_grant_id w = next_grant_id w0 + of_nat k \<and> list_all2 settles ts held
     \<and> mset (recorded_ids evs) + sum_list held = mset (ids_from (next_grant_id w0) k))"

lemma pool_books_step:
  assumes "pool_books w0 ts w" and "pool_step (ts, w) (ts', w')"
  shows "pool_books w0 ts' w'"
proof -
  from assms(2) obtain i f where i: "i < length ts" "ts ! i = Atomic f"
    and q: "ts' = ts[i := fst (f w)]" "w' = snd (f w)" by (auto elim: pool_stepE)
  from assms(1) obtain evs k held where IH: "audit_log w = audit_log w0 @ evs"
    "next_grant_id w = next_grant_id w0 + of_nat k" "list_all2 settles ts held"
    "mset (recorded_ids evs) + sum_list held = mset (ids_from (next_grant_id w0) k)"
    unfolding pool_books_def by blast
  from list_all2_nthD [OF IH(3) i(1)] i(2) obtain left where
    b: "books w w' (held ! i) left" and s: "settles (fst (f w)) left" using q(2) by auto
  from b obtain evs' taken where b': "audit_log w' = audit_log w @ evs'"
    "next_grant_id w' = next_grant_id w + of_nat taken"
    "mset (recorded_ids evs') + left = held ! i + mset (ids_from (next_grant_id w) taken)"
    unfolding books_def by blast
  have len: "i < length held" using IH(3) i(1) by (simp add: list_all2_lengthD)
  have "list_all2 settles ts' (held[i := left])"
    unfolding q(1) by (rule list_all2_update_cong [OF IH(3) s])
  moreover have "mset (recorded_ids (evs @ evs')) + sum_list (held[i := left])
      = mset (ids_from (next_grant_id w0) (k + taken))"
  proof -
    have "mset (recorded_ids (evs @ evs')) + sum_list (held[i := left]) + held ! i
        = (mset (recorded_ids evs) + sum_list held) + (mset (recorded_ids evs') + left)"
      using sum_list_exchange [OF len, of left] by (simp add: recorded_ids_append ac_simps)
    also have "\<dots> = mset (ids_from (next_grant_id w0) (k + taken)) + held ! i"
      by (simp add: IH(2,4) b'(3) ids_from_add)
    finally show ?thesis by simp
  qed
  ultimately show ?thesis
    unfolding pool_books_def using IH(1,2) b'(1,2)
    by (intro exI [of _ "evs @ evs'"] exI [of _ "k + taken"] exI [of _ "held[i := left]"]) simp
qed

lemma pool_books_run:
  assumes "pool_run (ts, w) (ts', w')" and "list_all (\<lambda>t. settles t {#}) ts"
  shows "pool_books w ts' w'"
  using assms(1)
proof (induction "(ts', w')" arbitrary: ts' w' rule: rtranclp_induct)
  case base
  have "list_all2 settles ts (map (\<lambda>_. {#}) ts)"
    using assms(2) by (simp add: list_all2_conv_all_nth list_all_length)
  then show ?case
    unfolding pool_books_def
    by (intro exI [of _ "[]"] exI [of _ 0] exI [of _ "map (\<lambda>_. {#}) ts"])
      (simp add: ids_from_simps)
next
  case (step p)
  then show ?case using pool_books_step by (cases p) blast
qed

text \<open>C31: however concurrent calls interleave, of tools that record no grant identifiers themselves, the
  identifiers that they record in the common audit log are distinct up to \<open>2^64\<close> grants and taken
  from the counter in a row; when all calls have ended, every identifier that was taken is recorded
  exactly once.\<close>

theorem concurrent_grant_ids:
  assumes "quiet_tools a" and "pool_run (calls_pool n a calls, w) (ts, w')"
  shows "\<exists>evs k. audit_log w' = audit_log w @ evs \<and> next_grant_id w' = next_grant_id w + of_nat k
     \<and> mset (recorded_ids evs) \<subseteq># mset (ids_from (next_grant_id w) k)
     \<and> (k \<le> 2 ^ 64 \<longrightarrow> distinct (recorded_ids evs))
     \<and> (all_finished ts \<longrightarrow> mset (recorded_ids evs) = mset (ids_from (next_grant_id w) k))"
proof -
  have "list_all (\<lambda>t. settles t {#}) (calls_pool n a calls)"
    using settles_app [OF assms(1)] by (simp add: list_all_length call_task_def split: prod.split)
  from pool_books_run [OF assms(2) this] obtain evs k held where
    log: "audit_log w' = audit_log w @ evs" "next_grant_id w' = next_grant_id w + of_nat k"
    and held: "list_all2 settles ts held"
    and total: "mset (recorded_ids evs) + sum_list held = mset (ids_from (next_grant_id w) k)"
    unfolding pool_books_def by blast
  have "mset (recorded_ids evs) \<subseteq># mset (ids_from (next_grant_id w) k)"
    using total by (metis mset_subset_eq_add_left)
  moreover have "distinct (recorded_ids evs)" if "k \<le> 2 ^ 64"
  proof -
    obtain hs where "mset hs = sum_list held" using ex_mset by blast
    with total have "mset (recorded_ids evs @ hs) = mset (ids_from (next_grant_id w) k)" by simp
    from mset_eq_imp_distinct_iff [OF this] distinct_ids_from [OF that] show ?thesis by simp
  qed
  moreover have "all_finished ts \<Longrightarrow> sum_list held = {#}"
    using held
    by (induction ts held rule: list_all2_induct)
      (auto simp: all_finished_def split: task.splits)
  then have "mset (recorded_ids evs) = mset (ids_from (next_grant_id w) k)" if "all_finished ts"
    using total that by simp
  ultimately show ?thesis using log by blast
qed

section \<open>Sequential runs as pool runs\<close>

lemma pool_run_one:
  "i < length ts \<Longrightarrow> ts ! i = t \<Longrightarrow>
   pool_run (ts, w) (ts[i := Finished (fst (run_task t w))], snd (run_task t w))"
proof (induction t arbitrary: ts w)
  case (Finished x)
  then have "ts[i := Finished x] = ts" by (metis list_update_id)
  then show ?case by simp
next
  case (Atomic f)
  let ?ts = "ts[i := fst (f w)]"
  have "pool_step (ts, w) (?ts, snd (f w))" by (rule pool_step.step [OF Atomic.prems])
  moreover have "pool_run (?ts, snd (f w))
      (?ts[i := Finished (fst (run_task (fst (f w)) (snd (f w))))], snd (run_task (fst (f w)) (snd (f w))))"
    by (rule Atomic.IH) (use Atomic.prems in simp_all)
  ultimately show ?case by (simp add: converse_rtranclp_into_rtranclp)
qed

text \<open>One call of a pool run to its end, while the others wait.\<close>

lemma pool_run_call:
  assumes "i < length calls" and "calls ! i = (path, params, payload)"
    and "app_invoke n a path params payload w = (r, w')"
  shows "pool_run (calls_pool n a calls, w) ((calls_pool n a calls)[i := Finished r], w')"
  using pool_run_one [of i "calls_pool n a calls" "app_task n a path params payload" w] assms
  by (simp add: call_task_def run_app_task)

section \<open>Two calls on the sample tree\<close>

text \<open>A call that writes \<open>/ws/hello.txt\<close>, and one that reads it with \<open>FsRead\<close> only.\<close>

definition sample_calls :: "call list" where
  "sample_calls =
     [(''write_file'', invocation_params_new ''/ws'' None, write_payload),
      (''read_file'', invocation_params_new ''/ws'' (Some (caps_from_slice [FsRead])),
         JObject [(''path'', JString ''hello.txt'')])]"

lemma sample_calls_at: "list_all2 (call_at (initial_world sample_fs)) sample_calls [[''ws''], [''ws'']]"
  by code_simp

lemma sample_calls_small: "list_all (\<lambda>c. size (snd (snd c)) < 40) sample_calls"
  by code_simp

lemma sample_write:
  obtains r w' where "pool_run (calls_pool 1 workspace_app sample_calls, initial_world sample_fs)
      ((calls_pool 1 workspace_app sample_calls)[0 := Finished r], w')"
    and "nodes (fs w') [''ws'', ''hello.txt''] = Some (RegularFile ''data'')"
proof -
  let ?run = "app_invoke 1 workspace_app ''write_file'' (invocation_params_new ''/ws'' None) write_payload
      (initial_world sample_fs)"
  have "nodes (fs (snd ?run)) [''ws'', ''hello.txt''] = Some (RegularFile ''data'')" by code_simp
  moreover have "pool_run (calls_pool 1 workspace_app sample_calls, initial_world sample_fs)
      ((calls_pool 1 workspace_app sample_calls)[0 := Finished (fst ?run)], snd ?run)"
    by (rule pool_run_call) (simp_all add: sample_calls_def)
  ultimately show ?thesis by (rule that [rotated])
qed

theorem concurrent_confinement_witness:
  "list_ex (\<lambda>(c, rs). prefix rs [''ws'', ''hello.txt''] \<and> allows (call_capabilities workspace_app c) FsWrite)
     (zip sample_calls [[''ws''], [''ws'']])"
proof (rule sample_write)
  fix r w'
  assume run: "pool_run (calls_pool 1 workspace_app sample_calls, initial_world sample_fs)
      ((calls_pool 1 workspace_app sample_calls)[0 := Finished r], w')"
    and stored: "nodes (fs w') [''ws'', ''hello.txt''] = Some (RegularFile ''data'')"
  have at: "list_all2 (\<lambda>c rs. call_at (initial_world sample_fs) c rs \<and> links_contained (fs (initial_world sample_fs)) rs)
      sample_calls [[''ws''], [''ws'']]"
    using sample_calls_at by (simp add: sample_calls_def sample_fs_links)
  have "nodes sample_fs [''ws'', ''hello.txt''] = Some (RegularFile ''hello'')" by code_simp
  with stored have "nodes (fs w') [''ws'', ''hello.txt''] \<noteq> nodes (fs (initial_world sample_fs)) [''ws'', ''hello.txt'']"
    by simp
  from concurrent_confinement [OF workspace_app_envelope sample_world_wf at run this] show ?thesis .
qed

theorem concurrent_sessions_kept_witness:
  "\<exists>ts w'. pool_run (calls_pool 1 workspace_app sample_calls, initial_world sample_fs) (ts, w')
     \<and> nodes (fs w') [''ws'', ''hello.txt''] = Some (RegularFile ''data'')
     \<and> load_raw (sessions w') (monty_session_key_new ''/etc'' ''s'') = Ok None"
proof (rule sample_write)
  fix r w'
  assume run: "pool_run (calls_pool 1 workspace_app sample_calls, initial_world sample_fs)
      ((calls_pool 1 workspace_app sample_calls)[0 := Finished r], w')"
    and stored: "nodes (fs w') [''ws'', ''hello.txt''] = Some (RegularFile ''data'')"
  have "\<not> list_ex (\<lambda>rs. path_eq ''/etc'' (path_of_names rs)) [[''ws''], [''ws'']]" by code_simp
  from concurrent_sessions_kept [OF workspace_app_envelope sample_world_wf sample_calls_at this run, of "''s''"]
  have "load_raw (sessions w') (monty_session_key_new ''/etc'' ''s'') = Ok None"
    by (simp add: load_raw_def session_store_new_def)
  with run stored show ?thesis by blast
qed

theorem concurrent_calls_return_witness:
  "\<exists>ts w'. pool_run (calls_pool 40 workspace_app sample_calls, initial_world sample_fs) (ts, w')
     \<and> list_all (\<lambda>t. \<exists>result. t = give result) ts"
proof -
  obtain ts w' where run: "pool_run (calls_pool 40 workspace_app sample_calls, initial_world sample_fs) (ts, w')"
    and fin: "all_finished ts" using pool_finishes by blast
  from fin have "\<nexists>p. pool_step (ts, w') p" using pool_progress by blast
  with concurrent_calls_return [OF sample_world_wf sample_calls_at sample_calls_small] run
  have "list_all (\<lambda>t. \<exists>x. t = Finished x \<and> x \<noteq> OutOfFuel
      \<and> (canonicalize_stable (fs (initial_world sample_fs)) \<longrightarrow> (\<exists>result. x = Done result))) ts"
    unfolding workspace_app_def by blast
  then have "list_all (\<lambda>t. \<exists>result. t = give result) ts"
    by (auto simp: list_all_iff sample_fs_stable)
  with run show ?thesis by blast
qed

theorem concurrent_grant_ids_witness:
  "\<exists>ts w' k. pool_run (calls_pool 40 workspace_app sample_calls, initial_world sample_fs) (ts, w')
     \<and> all_finished ts \<and> next_grant_id w' = 1 + of_nat k
     \<and> mset (recorded_ids (audit_log w')) = mset (ids_from 1 k)"
proof -
  obtain ts w' where run: "pool_run (calls_pool 40 workspace_app sample_calls, initial_world sample_fs) (ts, w')"
    and fin: "all_finished ts" using pool_finishes by blast
  from concurrent_grant_ids [OF quiet_balanced [OF workspace_app_balanced] run] run fin show ?thesis by auto
qed

end
