(* ===== verification/Directories.thy ===== *)
theory Directories
  imports File_System
begin

text \<open>
  \<open>std::fs::create_dir_all\<close> and \<open>std::fs::remove_dir_all\<close>, with which the demo and the tests make
  and remove their workspaces, over the tree of \<open>File_System\<close>; and the fact that the two are
  inverse on a fresh name, whatever happened under that name in between.

  A removal that the device refuses (\<open>io_fault\<close>) removes nothing here.
\<close>

section \<open>Entries\<close>

text \<open>The place that a path names when a link in the last position is not followed.\<close>

definition last_entry :: "string \<Rightarrow> string list" where
  "last_entry p = rev (dropWhile (\<lambda>x. x = []) (rev (split_on (CHR ''/'') p)))"

definition fs_entry :: "file_system \<Rightarrow> string \<Rightarrow> io_error + string list" where
  "fs_entry fs p =
     (if p = [] then Err NotFound
      else let parts = last_entry p in
        if parts = [] then Ok []
        else case walk False (nodes fs) max_symlinks (if is_absolute p then [] else cwd fs) (butlast parts) of
               Err e \<Rightarrow> Err e
             | Ok d \<Rightarrow>
                 if nodes fs d \<noteq> Some Directory then Err NotADirectory
                 else if last parts = ''.'' then Ok d
                 else if last parts = ''..'' then Ok (butlast d)
                 else Ok (d @ [last parts]))"

definition fs_is_dir :: "file_system \<Rightarrow> string \<Rightarrow> bool" where
  "fs_is_dir fs p \<longleftrightarrow> io_fault fs OpMetadata p = None
     \<and> (case fs_resolve False fs p of Err e \<Rightarrow> False | Ok ns \<Rightarrow> nodes fs ns = Some Directory)"

section \<open>Creation\<close>

definition fs_mkdir :: "file_system \<Rightarrow> string \<Rightarrow> (io_error + unit) \<times> file_system" where
  "fs_mkdir fs p =
     (case io_fault fs OpCreateDir p of
        Some e \<Rightarrow> (Err e, fs)
      | None \<Rightarrow>
          (case fs_entry fs p of
             Err e \<Rightarrow> (Err e, fs)
           | Ok ns \<Rightarrow>
               if nodes fs ns \<noteq> None then (Err AlreadyExists, fs)
               else (Ok (), fs\<lparr>nodes := (nodes fs)(ns \<mapsto> Directory)\<rparr>)))"

text \<open>The parents of the path are created from the last one that exists; \<open>rcs\<close> are the components of
  the path in reverse order.\<close>

fun create_dirs ::
  "path_component list \<Rightarrow> string \<Rightarrow> file_system \<Rightarrow> (io_error + unit) \<times> file_system" where
  "create_dirs [] p fs = (Ok (), fs)"
| "create_dirs (c # rcs) p fs =
     (case fs_mkdir fs p of
        (Ok _, fs1) \<Rightarrow> (Ok (), fs1)
      | (Err e, fs1) \<Rightarrow>
          if e \<noteq> NotFound then (if fs_is_dir fs1 p then Ok () else Err e, fs1)
          else if c = RootDir then (Err (OtherIo ''failed to create whole tree''), fs1)
          else
            (case create_dirs rcs (path_of_components (rev rcs)) fs1 of
               (Err e', fs2) \<Rightarrow> (Err e', fs2)
             | (Ok _, fs2) \<Rightarrow>
                 (case fs_mkdir fs2 p of
                    (Ok _, fs3) \<Rightarrow> (Ok (), fs3)
                  | (Err e', fs3) \<Rightarrow> (if fs_is_dir fs3 p then Ok () else Err e', fs3))))"

definition fs_create_dir_all :: "file_system \<Rightarrow> string \<Rightarrow> (io_error + unit) \<times> file_system" where
  "fs_create_dir_all fs p = (if p = [] then (Ok (), fs) else create_dirs (rev (components p)) p fs)"

section \<open>Removal\<close>

text \<open>Links in the tree are removed, not followed. The root and paths that end in a dot can be
  emptied, but not removed.\<close>

definition fs_remove_dir_all :: "file_system \<Rightarrow> string \<Rightarrow> (io_error + unit) \<times> file_system" where
  "fs_remove_dir_all fs p =
     (case io_fault fs OpRemoveDirAll p of
        Some e \<Rightarrow> (Err e, fs)
      | None \<Rightarrow>
          (case fs_entry fs p of
             Err e \<Rightarrow> (Err e, fs)
           | Ok ns \<Rightarrow>
               (case nodes fs ns of
                  None \<Rightarrow> (Err NotFound, fs)
                | Some (RegularFile _) \<Rightarrow> (Err NotADirectory, fs)
                | Some (Symlink _) \<Rightarrow> (Ok (), fs\<lparr>nodes := (nodes fs)(ns := None)\<rparr>)
                | Some Directory \<Rightarrow>
                    if last_entry p = [] \<or> last (last_entry p) \<in> {''.'', ''..''} then
                      (Err (OtherIo ''directory not removed''),
                       fs\<lparr>nodes := (\<lambda>ms. if strict_prefix ns ms then None else nodes fs ms)\<rparr>)
                    else (Ok (), fs\<lparr>nodes := (\<lambda>ms. if prefix ns ms then None else nodes fs ms)\<rparr>))))"

section \<open>Directories with canonical paths\<close>

lemma last_entry_names:
  assumes "\<forall>n \<in> set ns. good_name n" and "ns \<noteq> []"
  shows "last_entry (path_of_names ns) = [] # ns"
proof -
  have "last ns \<noteq> []" using assms by (auto simp: good_name_def)
  then have "dropWhile (\<lambda>x. x = []) (rev ns) = rev ns" using assms(2)
    by (cases ns rule: rev_cases) simp_all
  moreover from this \<open>last ns \<noteq> []\<close> have "dropWhile (\<lambda>x. x = []) (rev ns @ [[]]) = rev ns @ [[]]"
    using assms(2) by (cases ns rule: rev_cases) simp_all
  ultimately show ?thesis
    using split_on_path_of_names [OF good_name_no_sep [OF assms(1)]] assms(2)
    by (simp add: last_entry_def)
qed

lemma fs_entry_names:
  assumes "tree_wf (nodes fs)" and "nodes fs ns = Some Directory" and "good_name x"
  shows "fs_entry fs (path_of_names (ns @ [x])) = Ok (ns @ [x])"
proof -
  have good: "\<forall>n \<in> set (ns @ [x]). good_name n" using tree_wf_names [OF assms(1,2)] assms(3) by simp
  have "walk False (nodes fs) max_symlinks [] ([] # ns) = Ok ns"
    using walk_self [of "nodes fs" "[]" ns] assms(1,2) tree_wf_root [OF assms(1)]
    by (simp add: walk.simps(2))
  with last_entry_names [OF good] assms(2,3) show ?thesis
    by (auto simp: fs_entry_def good_name_def butlast_append)
qed

lemma create_dir_all_fresh:
  assumes "tree_wf (nodes fs)" and "nodes fs ns = Some Directory" and "good_name x"
    and "nodes fs (ns @ [x]) = None" and "io_fault fs OpCreateDir (path_of_names (ns @ [x])) = None"
  shows "fs_create_dir_all fs (path_of_names (ns @ [x]))
       = (Ok (), fs\<lparr>nodes := (nodes fs)(ns @ [x] \<mapsto> Directory)\<rparr>)"
proof -
  have good: "\<forall>n \<in> set (ns @ [x]). good_name n" using tree_wf_names [OF assms(1,2)] assms(3) by simp
  have "fs_mkdir fs (path_of_names (ns @ [x])) = (Ok (), fs\<lparr>nodes := (nodes fs)(ns @ [x] \<mapsto> Directory)\<rparr>)"
    using fs_entry_names [OF assms(1-3)] assms(4,5) by (simp add: fs_mkdir_def)
  then show ?thesis
    by (simp add: fs_create_dir_all_def components_path_of_names [OF good])
qed

lemma remove_dir_all_names:
  assumes "tree_wf (nodes fs)" and "nodes fs (ns @ [x]) = Some Directory"
    and "io_fault fs OpRemoveDirAll (path_of_names (ns @ [x])) = None"
  shows "fs_remove_dir_all fs (path_of_names (ns @ [x]))
       = (Ok (), fs\<lparr>nodes := (\<lambda>ms. if prefix (ns @ [x]) ms then None else nodes fs ms)\<rparr>)"
proof -
  have good: "\<forall>n \<in> set (ns @ [x]). good_name n" by (rule tree_wf_names [OF assms(1,2)])
  then have x: "good_name x" by simp
  from fs_entry_names [OF assms(1) tree_wf_parent [OF assms(1,2)] x] assms(2,3)
    last_entry_names [OF good] x show ?thesis
    by (auto simp: fs_remove_dir_all_def good_name_def)
qed

text \<open>A new directory in a well-formed tree.\<close>

lemma tree_wf_mkdir:
  assumes "tree_wf t" and "t ns = Some Directory" and "good_name x"
  shows "tree_wf (t(ns @ [x] \<mapsto> Directory))"
proof -
  let ?t = "t(ns @ [x] \<mapsto> Directory)"
  have "\<forall>n \<in> set ms. good_name n" if "?t ms = Some nd" for ms nd
    using that assms(3) tree_wf_names [OF assms(1,2)] tree_wf_names [OF assms(1), of ms]
    by (cases "ms = ns @ [x]") auto
  moreover have "?t ms = Some Directory" if "?t (ms @ [y]) = Some nd" for ms y nd
    using that assms(2) tree_wf_parent [OF assms(1), of ms y] by (cases "ms @ [y] = ns @ [x]") auto
  moreover have "?t [] = Some Directory" using tree_wf_root [OF assms(1)] by simp
  ultimately show ?thesis unfolding tree_wf_def by blast
qed

lemma fs_wf_mkdir:
  "fs_wf fs \<Longrightarrow> nodes fs ns = Some Directory \<Longrightarrow> good_name x \<Longrightarrow>
   fs_wf (fs\<lparr>nodes := (nodes fs)(ns @ [x] \<mapsto> Directory)\<rparr>)"
  using tree_wf_mkdir by (auto simp: fs_wf_def)

lemma tree_wf_free_below: "tree_wf t \<Longrightarrow> t ns = None \<Longrightarrow> prefix ns ms \<Longrightarrow> t ms = None"
  using tree_wf_prefix [of t ns] by (cases "t ms"; cases "ms = ns") (auto elim!: prefixE)

text \<open>A directory that was free before it was created is gone after its removal, with all that was
  put under it.\<close>

lemma fresh_dir_removed:
  assumes "tree_wf (nodes fs)" and "nodes fs ns = None"
    and "\<And>ms. \<not> prefix ns ms \<Longrightarrow> t ms = ((nodes fs)(ns \<mapsto> Directory)) ms"
  shows "(\<lambda>ms. if prefix ns ms then None else t ms) = nodes fs"
proof
  fix ms
  show "(if prefix ns ms then None else t ms) = nodes fs ms"
    using tree_wf_free_below [OF assms(1,2), of ms] assms(3) [of ms] by auto
qed

end
