(* ===== verification/Temp_Workspace.thy ===== *)
theory Temp_Workspace
  imports Directories Concurrent_Laws Service
begin

text \<open>
  \<open>TempWorkspace\<close> of \<open>crates/test-support/src/lib.rs\<close>: a directory with a fresh name under the
  directory for temporary files, removed when the value is dropped. The name is made from the
  process, a counter and the clock. The theorems: names of one process are distinct, a new
  workspace is an empty directory, and its removal undoes whatever invocations in it did.

  The counter \<open>NEXT_TEST_WORKSPACE_ID\<close> and the file system are passed and returned; the clock is
  the time since the epoch in nanoseconds, negative before it.
\<close>

section \<open>The workspace\<close>

record temp_workspace =
  temp_root :: string

definition temp_workspace_name :: "string \<Rightarrow> nat \<Rightarrow> u64 \<Rightarrow> int \<Rightarrow> string" where
  "temp_workspace_name label pid next clock =
     ''tool-plane-'' @ label @ ''-'' @ dec_nat pid @ ''-'' @ dec_u64 next @ ''-'' @ dec_nat (nat clock)"

text \<open>\<open>duration_since(UNIX_EPOCH).unwrap()\<close>; the message of the panic is kept without the duration.\<close>

definition nanos_since_epoch :: "int \<Rightarrow> int exec" where
  "nanos_since_epoch clock =
     unwrap (\<lambda>_. ''SystemTimeError'') (if clock < 0 then Err () else Ok clock)"

definition temp_workspace_with_prefix ::
  "string \<Rightarrow> nat \<Rightarrow> int \<Rightarrow> string \<Rightarrow> u64 \<times> file_system \<Rightarrow> temp_workspace exec \<times> u64 \<times> file_system" where
  "temp_workspace_with_prefix temp_dir pid clock label s =
     (let (next, fsys) = s in
      case nanos_since_epoch clock of
        Done nanos \<Rightarrow>
          (let root = path_join temp_dir (temp_workspace_name label pid next nanos);
               (created, fsys1) = fs_create_dir_all fsys root
           in (case unwrap debug_io_error created of
                 Done _ \<Rightarrow> Done \<lparr>temp_root = root\<rparr>
               | Panicked m \<Rightarrow> Panicked m
               | OutOfFuel \<Rightarrow> OutOfFuel,
               next + 1, fsys1))
      | Panicked m \<Rightarrow> (Panicked m, next + 1, fsys)
      | OutOfFuel \<Rightarrow> (OutOfFuel, next + 1, fsys))"

definition temp_workspace_new ::
  "string \<Rightarrow> nat \<Rightarrow> int \<Rightarrow> u64 \<times> file_system \<Rightarrow> temp_workspace exec \<times> u64 \<times> file_system" where
  "temp_workspace_new temp_dir pid clock s = temp_workspace_with_prefix temp_dir pid clock ''kernel-test'' s"

definition temp_workspace_drop :: "temp_workspace \<Rightarrow> file_system \<Rightarrow> file_system" where
  "temp_workspace_drop ws fsys = snd (fs_remove_dir_all fsys (temp_root ws))"

section \<open>Decimal names\<close>

lemma dec_nat_digit: "c \<in> set (dec_nat n) \<Longrightarrow> 48 \<le> (of_char c :: nat) \<and> (of_char c :: nat) \<le> 57"
proof (induction n rule: dec_nat.induct)
  case (1 n)
  have digit: "48 \<le> (of_char (char_of (48 + d) :: char) :: nat) \<and> (of_char (char_of (48 + d) :: char) :: nat) \<le> 57"
    if "d < 10" for d :: nat
    using that by simp
  show ?case
  proof (cases "n < 10")
    case True
    with "1.prems" digit [of n] show ?thesis by (simp add: dec_nat.simps)
  next
    case False
    with "1.prems" have "c \<in> set (dec_nat (n div 10)) \<or> c = char_of (48 + n mod 10)"
      by (auto simp: dec_nat.simps [of n])
    with "1.IH" [OF False] digit [of "n mod 10"] show ?thesis by auto
  qed
qed

lemma dec_nat_no_sep: "CHR ''-'' \<notin> set (dec_nat n)" "CHR ''/'' \<notin> set (dec_nat n)"
  using dec_nat_digit [of "CHR ''-''" n] dec_nat_digit [of "CHR ''/''" n] by auto

lemma dec_nat_nonempty [simp]: "dec_nat n \<noteq> []"
  by (simp add: dec_nat.simps [of n])

definition dec_value :: "string \<Rightarrow> nat" where
  "dec_value s = foldl (\<lambda>a c. 10 * a + (of_char c - 48)) 0 s"

lemma dec_value_dec_nat: "dec_value (dec_nat n) = n"
proof (induction n rule: dec_nat.induct)
  case (1 n)
  show ?case
  proof (cases "n < 10")
    case True
    then show ?thesis by (simp add: dec_nat.simps dec_value_def)
  next
    case False
    with "1.IH" show ?thesis by (simp add: dec_nat.simps [of n] dec_value_def)
  qed
qed

lemma dec_nat_inj: "dec_nat m = dec_nat n \<longleftrightarrow> m = n"
  by (metis dec_value_dec_nat)

text \<open>The last field of a name that is split at a separator.\<close>

lemma last_field:
  assumes "xs @ c # ys = xs' @ c # ys'" and "c \<notin> set ys" and "c \<notin> set ys'"
  shows "xs = xs' \<and> ys = ys'"
proof -
  have field: "takeWhile (\<lambda>d. d \<noteq> c) (rev (zs @ c # us)) = rev us" if "c \<notin> set us" for zs us
  proof -
    have "\<forall>x \<in> set us. x \<noteq> c" using that by auto
    then show ?thesis by (simp add: takeWhile_append)
  qed
  have "rev ys = rev ys'" using field [OF assms(2), of xs] field [OF assms(3), of xs'] assms(1) by simp
  with assms(1) show ?thesis by simp
qed

lemma temp_workspace_name_inj:
  assumes "temp_workspace_name label pid i clock = temp_workspace_name label' pid' j clock'"
  shows "i = j"
proof -
  have name: "temp_workspace_name q p k c
      = ((''tool-plane-'' @ q @ ''-'' @ dec_nat p) @ CHR ''-'' # dec_u64 k) @ CHR ''-'' # dec_nat (nat c)" for q p k c
    by (simp add: temp_workspace_name_def)
  have no: "CHR ''-'' \<notin> set (dec_u64 k)" for k by (simp add: dec_u64_def dec_nat_no_sep)
  from last_field [OF assms [unfolded name] dec_nat_no_sep(1) dec_nat_no_sep(1)]
  have "dec_u64 i = dec_u64 j" using last_field [OF _ no no] by blast
  then show ?thesis by (simp add: dec_u64_def dec_nat_inj word_unat_eq_iff)
qed

lemma temp_workspace_name_good: "CHR ''/'' \<notin> set label \<Longrightarrow> good_name (temp_workspace_name label pid next clock)"
  by (simp add: good_name_def temp_workspace_name_def dec_u64_def dec_nat_no_sep)

section \<open>Workspaces under a plain directory\<close>

text \<open>The outcome of a creation whose name is free.\<close>

lemma temp_workspace_created:
  assumes ws: "plain_workspace fsys ts" and label: "CHR ''/'' \<notin> set label" and "0 \<le> clock"
    and free: "nodes fsys (ts @ [temp_workspace_name label pid next clock]) = None"
  shows "temp_workspace_with_prefix (path_of_names ts) pid clock label (next, fsys)
    = (Done \<lparr>temp_root = path_of_names (ts @ [temp_workspace_name label pid next clock])\<rparr>, next + 1,
       fsys\<lparr>nodes := (nodes fsys)(ts @ [temp_workspace_name label pid next clock] \<mapsto> Directory)\<rparr>)"
proof -
  let ?x = "temp_workspace_name label pid next clock"
  have x: "good_name ?x" by (rule temp_workspace_name_good [OF label])
  have "fs_create_dir_all fsys (path_of_names (ts @ [?x]))
      = (Ok (), fsys\<lparr>nodes := (nodes fsys)(ts @ [?x] \<mapsto> Directory)\<rparr>)"
    using ws free x by (intro create_dir_all_fresh) (auto simp: plain_workspace_def fs_wf_def)
  with assms(3) path_join_name [OF x plain_workspace_names [OF ws]] show ?thesis
    by (simp add: temp_workspace_with_prefix_def nanos_since_epoch_def unwrap_def Let_def)
qed

lemma temp_workspace_plain:
  assumes "plain_workspace fsys ts" and "good_name x" and "nodes fsys (ts @ [x]) = None"
  shows "plain_workspace (fsys\<lparr>nodes := (nodes fsys)(ts @ [x] \<mapsto> Directory)\<rparr>) (ts @ [x])"
    and "links_contained (fsys\<lparr>nodes := (nodes fsys)(ts @ [x] \<mapsto> Directory)\<rparr>) (ts @ [x])"
proof -
  let ?fs = "fsys\<lparr>nodes := (nodes fsys)(ts @ [x] \<mapsto> Directory)\<rparr>"
  have wf: "fs_wf ?fs" using assms fs_wf_mkdir by (simp add: plain_workspace_def)
  with assms(1) show "plain_workspace ?fs (ts @ [x])" by (simp add: plain_workspace_def)
  have "nodes ?fs ns \<noteq> Some (Symlink target)" if "prefix (ts @ [x]) ns" for ns target
    using that assms(1,3) tree_wf_free_below [of "nodes fsys" "ts @ [x]" ns]
    by (auto simp: plain_workspace_def fs_wf_def)
  with wf show "links_contained ?fs (ts @ [x])" by (intro links_contained_no_links) simp_all
qed

text \<open>C38: workspaces of one process never share a directory: their names differ for different values of
  the counter, whatever prefixes, process numbers and clock readings they are made from.\<close>

theorem temp_workspaces_distinct:
  assumes "temp_workspace_with_prefix (path_of_names ts) pid clock label (i, fsys) = (Done ws, s)"
    and "temp_workspace_with_prefix (path_of_names ts) pid' clock' label' (j, fsys') = (Done ws', s')"
    and "i \<noteq> j"
  shows "temp_root ws \<noteq> temp_root ws'"
proof
  assume eq: "temp_root ws = temp_root ws'"
  have root: "temp_root v = path_join (path_of_names ts) (temp_workspace_name l p k c)"
    if "temp_workspace_with_prefix (path_of_names ts) p c l (k, g) = (Done v, r)" for v l p k c g r
    using that by (auto simp: temp_workspace_with_prefix_def nanos_since_epoch_def unwrap_def Let_def
        split: if_splits prod.splits sum.splits exec.splits)
  have same: "path_join q (temp_workspace_name l p k c) = path_join q (temp_workspace_name l' p' k' c') \<Longrightarrow> k = k'"
    for q l p k c l' p' k' c'
    using temp_workspace_name_inj [of l p k c l' p' k' c']
    by (auto simp: path_join_def is_absolute_def temp_workspace_name_def split: if_splits)
  from eq same have "i = j" unfolding root [OF assms(1)] root [OF assms(2)] by blast
  with assms(3) show False by simp
qed

text \<open>C24: a workspace leaves no trace: after any concurrent invocations of any tools in it, completed or
  not, dropping it restores the tree to what it was before the workspace was made.\<close>

theorem temp_workspace_leaves_no_trace:
  assumes env: "has_envelope (app_policy a)" and ws: "plain_workspace (fs w) ts"
    and label: "CHR ''/'' \<notin> set label" and clock: "0 \<le> clock"
    and free: "nodes (fs w) (ts @ [temp_workspace_name label pid next clock]) = None"
    and new: "temp_workspace_with_prefix (path_of_names ts) pid clock label (next, fs w) = (Done tw, next', fsys)"
    and calls: "list_all (\<lambda>(path, params, payload). params_workspace_root params = temp_root tw) calls"
    and run: "pool_run (calls_pool n a calls, w\<lparr>fs := fsys\<rparr>) (us, w')"
  shows "nodes (temp_workspace_drop tw (fs w')) = nodes (fs w)"
proof -
  define rs where "rs = ts @ [temp_workspace_name label pid next clock]"
  have x: "good_name (temp_workspace_name label pid next clock)" by (rule temp_workspace_name_good [OF label])
  from new temp_workspace_created [OF ws label clock free] have root: "temp_root tw = path_of_names rs"
    and fsys: "fsys = (fs w)\<lparr>nodes := (nodes (fs w))(rs \<mapsto> Directory)\<rparr>" by (auto simp: rs_def)
  from temp_workspace_plain [OF ws x free] have plain: "plain_workspace fsys rs" "links_contained fsys rs"
    by (simp_all add: fsys rs_def)
  have wf: "fs_wf fsys" using plain(1) by (simp add: plain_workspace_def)
  have at: "list_all2 (\<lambda>c rs. call_at (w\<lparr>fs := fsys\<rparr>) c rs \<and> links_contained (fs (w\<lparr>fs := fsys\<rparr>)) rs)
      calls (map (\<lambda>_. rs) calls)"
    using calls fs_resolve_names [of fsys rs False] plain
    by (fastforce simp: list_all2_conv_all_nth list_all_length call_at_def root plain_workspace_def fs_wf_def
        split: prod.splits)
  have "fs_wf (fs (w\<lparr>fs := fsys\<rparr>))" using wf by simp
  from calls_confined [OF env this at run] have wf': "fs_wf (fs w')" and shape: "same_shape fsys (fs w')"
    and outside: "\<And>ms. \<not> prefix rs ms \<Longrightarrow> nodes (fs w') ms = nodes fsys ms"
    by (auto simp: list_ex_length)
  from shape plain(1) have dir: "nodes (fs w') rs = Some Directory" and "\<And>p. io_fault (fs w') OpRemoveDirAll p = None"
    by (auto simp: same_shape_def plain_workspace_def)
  with remove_dir_all_names [of "fs w'" ts] wf' have "nodes (temp_workspace_drop tw (fs w'))
      = (\<lambda>ms. if prefix rs ms then None else nodes (fs w') ms)"
    by (simp add: temp_workspace_drop_def root rs_def fs_wf_def)
  also have "\<dots> = nodes (fs w)"
    using ws free outside by (intro fresh_dir_removed) (auto simp: plain_workspace_def fs_wf_def fsys rs_def)
  finally show ?thesis .
qed

section \<open>Two workspaces\<close>

lemma sample_temp_dir: "plain_workspace (plain_fs [([''tmp''], Directory)]) [''tmp'']"
  using plain_fs_wf [of "[([''tmp''], Directory)]"]
  by (simp add: plain_workspace_def) (simp add: tree_of_def entries_wf_def good_name_def)

lemma sample_temp_workspaces:
  "temp_workspace_with_prefix (path_of_names [''tmp'']) 7 5 ''kernel-test'' (i, plain_fs [([''tmp''], Directory)])
    = (Done \<lparr>temp_root = path_of_names ([''tmp''] @ [temp_workspace_name ''kernel-test'' 7 i 5])\<rparr>, i + 1,
       (plain_fs [([''tmp''], Directory)])\<lparr>nodes :=
          (tree_of [([''tmp''], Directory)])([''tmp''] @ [temp_workspace_name ''kernel-test'' 7 i 5] \<mapsto> Directory)\<rparr>)"
  by (subst temp_workspace_created [OF sample_temp_dir]) (simp_all add: tree_of_def)

theorem temp_workspaces_distinct_witness:
  "path_of_names ([''tmp''] @ [temp_workspace_name ''kernel-test'' 7 1 5])
   \<noteq> path_of_names ([''tmp''] @ [temp_workspace_name ''kernel-test'' 7 2 5])"
  using temp_workspaces_distinct [OF sample_temp_workspaces [of 1] sample_temp_workspaces [of 2]] by simp

theorem temp_workspace_leaves_no_trace_witness:
  "\<exists>tw next' fsys us w'.
     temp_workspace_with_prefix (path_of_names [''tmp'']) 7 5 ''kernel-test'' (1, plain_fs [([''tmp''], Directory)])
       = (Done tw, next', fsys)
   \<and> pool_run (calls_pool 40 workspace_app [(''write_file'', invocation_params_new (temp_root tw) None, write_payload)],
       (initial_world (plain_fs [([''tmp''], Directory)]))\<lparr>fs := fsys\<rparr>) (us, w')
   \<and> all_finished us
   \<and> nodes (temp_workspace_drop tw (fs w')) = tree_of [([''tmp''], Directory)]"
proof -
  let ?w = "initial_world (plain_fs [([''tmp''], Directory)])"
  obtain tw next' fsys where new: "temp_workspace_with_prefix (path_of_names [''tmp'']) 7 5 ''kernel-test''
      (1, fs ?w) = (Done tw, next', fsys)"
    using sample_temp_workspaces [of 1] by simp
  let ?calls = "[(''write_file'', invocation_params_new (temp_root tw) None, write_payload)]"
  obtain us w' where run: "pool_run (calls_pool 40 workspace_app ?calls, ?w\<lparr>fs := fsys\<rparr>) (us, w')"
    and fin: "all_finished us" using pool_finishes by blast
  have ws: "plain_workspace (fs ?w) [''tmp'']" using sample_temp_dir by simp
  have free: "nodes (fs ?w) ([''tmp''] @ [temp_workspace_name ''kernel-test'' 7 1 5]) = None"
    by (simp add: tree_of_def)
  have calls: "list_all (\<lambda>(path, params, payload). params_workspace_root params = temp_root tw) ?calls"
    by (simp add: invocation_params_new_def)
  from temp_workspace_leaves_no_trace [OF workspace_app_envelope ws _ _ free new calls run] new run fin
  show ?thesis by auto
qed

end
