(* ===== verification/Demo_Main.thy ===== *)
theory Demo_Main
  imports Demo_Laws Temp_Workspace
begin

text \<open>
  The demo as a process: \<open>examples/demo/main.rs\<close>, the configuration of \<open>tracing\<close> from the environment
  (\<open>tracing_config.rs\<close>), and the directory that \<open>scenario.rs\<close> makes and removes around the four
  invocations. The theorems: which subscriber the environment asks for, where the outcomes are
  printed, the root span of the log, and that the process leaves the file system as it was.

  The crates around \<open>tracing\<close> are parameters (\<open>tracing_api\<close>); subscribers are the layers they are
  built from. The console keeps what is printed, the text of the outcomes as the outcomes.
\<close>

section \<open>The configuration of tracing\<close>

datatype log_format = Human | Json

record 'p tracing_config =
  log_format :: log_format
  tracer_provider :: "'p option"

definition needs_root_span :: "'p tracing_config \<Rightarrow> bool" where
  "needs_root_span config \<longleftrightarrow> log_format config = Json \<or> tracer_provider config \<noteq> None"

text \<open>The formatting layers: plain text, and JSON with the current span and the list of spans.\<close>

datatype fmt_layer = TextLayer | JsonLayer

datatype otel_layer = OtelLayer string

record 'f subscriber =
  sub_filter :: 'f
  sub_fmt :: fmt_layer
  sub_otel :: "otel_layer option"

type_synonym environment = "string \<Rightarrow> string option"

record ('f, 'x, 'p) tracing_api =
  api_try_from_default_env :: "environment \<Rightarrow> string + 'f"
  api_filter_new :: "string \<Rightarrow> 'f"
  api_build_exporter :: "string \<Rightarrow> string + 'x"
  api_provider :: "string \<Rightarrow> 'x \<Rightarrow> 'p"
  api_set_global_default :: "'f subscriber \<Rightarrow> string + unit"
  api_shutdown :: "'p \<Rightarrow> string + unit"

datatype printed = Line string | Outcomes demo_outcomes

record console =
  stdout :: "printed list"
  stderr :: "printed list"

definition eprintln :: "printed \<Rightarrow> console \<Rightarrow> console" where
  "eprintln x con = con\<lparr>stderr := stderr con @ [x]\<rparr>"

definition println :: "printed \<Rightarrow> console \<Rightarrow> console" where
  "println x con = con\<lparr>stdout := stdout con @ [x]\<rparr>"

text \<open>\<open>expect\<close>, and the rest of a function after a value that may be a panic.\<close>

definition expect_ok :: "string \<Rightarrow> string + 'a \<Rightarrow> 'a exec" where
  "expect_ok msg r = (case r of Ok x \<Rightarrow> Done x | Err e \<Rightarrow> Panicked (msg @ '': '' @ e))"

fun bind_exec :: "'r exec \<Rightarrow> ('r \<Rightarrow> 's \<Rightarrow> 'a exec \<times> 's) \<Rightarrow> 's \<Rightarrow> 'a exec \<times> 's" where
  "bind_exec (Done r) k s = k r s"
| "bind_exec (Panicked m) k s = (Panicked m, s)"
| "bind_exec OutOfFuel k s = (OutOfFuel, s)"

definition init_otlp_tracer_provider ::
  "('f, 'x, 'p) tracing_api \<Rightarrow> environment \<Rightarrow> console \<Rightarrow> 'p exec \<times> console" where
  "init_otlp_tracer_provider api env con =
     (let endpoint = (case env ''OTEL_EXPORTER_OTLP_ENDPOINT'' of
                        Some e \<Rightarrow> e | None \<Rightarrow> ''http://localhost:4318/v1/traces'')
      in bind_exec (expect_ok ''failed to create OTLP span exporter'' (api_build_exporter api endpoint))
           (\<lambda>exporter con. (Done (api_provider api ''mvp-demo'' exporter), con))
           (eprintln (Line (''exporting OTel traces to '' @ endpoint)) con))"

definition init_tracing ::
  "('f, 'x, 'p) tracing_api \<Rightarrow> environment \<Rightarrow> console \<Rightarrow> ('p tracing_config \<times> 'f subscriber) exec \<times> console" where
  "init_tracing api env con =
     (let filter = (case api_try_from_default_env api env of
                      Ok f \<Rightarrow> f | Err _ \<Rightarrow> api_filter_new api (AUDIT_TARGET @ ''=debug''));
          format = (if env ''MVP_LOG_FORMAT'' = Some ''json'' then Json else Human);
          (provider, con1) =
            (if env ''MVP_TRACE_EXPORTER'' = Some ''otlp''
             then (let (p, con1) = init_otlp_tracer_provider api env con
                   in bind_exec p (\<lambda>p con. (Done (Some p), con)) con1)
             else (Done None, con))
      in bind_exec provider (\<lambda>tracer_provider con.
           let subscriber =
             (case (format, tracer_provider) of
                (Json, Some p) \<Rightarrow> \<lparr>sub_filter = filter, sub_fmt = JsonLayer, sub_otel = Some (OtelLayer ''mvp-demo'')\<rparr>
              | (Json, None) \<Rightarrow> \<lparr>sub_filter = filter, sub_fmt = JsonLayer, sub_otel = None\<rparr>
              | (Human, Some p) \<Rightarrow> \<lparr>sub_filter = filter, sub_fmt = TextLayer, sub_otel = Some (OtelLayer ''mvp-demo'')\<rparr>
              | (Human, None) \<Rightarrow> \<lparr>sub_filter = filter, sub_fmt = TextLayer, sub_otel = None\<rparr>)
           in bind_exec (expect_ok ''failed to install tracing subscriber'' (api_set_global_default api subscriber))
                (\<lambda>_ con. (Done (\<lparr>log_format = format, tracer_provider = tracer_provider\<rparr>, subscriber), con)) con) con1)"

section \<open>The scenario with its directory\<close>

definition demo_root_name :: "nat \<Rightarrow> int \<Rightarrow> string" where
  "demo_root_name pid nanos = ''tool-plane-demo-'' @ dec_nat pid @ ''-'' @ dec_nat (nat nanos)"

definition print_demo_outcomes :: "log_format \<Rightarrow> demo_outcomes \<Rightarrow> console \<Rightarrow> console" where
  "print_demo_outcomes format out con =
     (case format of Human \<Rightarrow> println (Outcomes out) con | Json \<Rightarrow> eprintln (Outcomes out) con)"

definition run_demo_in ::
  "nat \<Rightarrow> nat \<Rightarrow> nat \<Rightarrow> ('x, 'r, 's, 'l) monty_api \<Rightarrow> 'l \<Rightarrow> string \<Rightarrow> nat \<Rightarrow> int \<Rightarrow> log_format
   \<Rightarrow> world \<times> console \<Rightarrow> unit exec \<times> world \<times> console" where
  "run_demo_in depth now bound api limits_new temp_dir pid clock format =
     bind_exec (nanos_since_epoch clock) (\<lambda>nanos (w, con).
       let root = path_join temp_dir (demo_root_name pid nanos);
           (created, fs1) = fs_create_dir_all (fs w) root
       in bind_exec (unwrap debug_io_error created) (\<lambda>_ (w, con).
            let (result, w1) = run_demo depth now bound api limits_new root w
            in bind_exec result (\<lambda>outcomes (w, con).
                 let (removed, fs2) = fs_remove_dir_all (fs w) root
                 in bind_exec (unwrap debug_io_error removed) (\<lambda>_ s. (Done (), s))
                      (w\<lparr>fs := fs2\<rparr>, print_demo_outcomes format outcomes con))
               (w1, con))
          (w\<lparr>fs := fs1\<rparr>, con))"

section \<open>The process\<close>

text \<open>\<open>scenario\<close> is \<open>run_demo_in\<close> with its other arguments.\<close>

definition demo_span :: audit_event where
  "demo_span = SpanEnter AUDIT_TARGET ''demo'' []"

definition demo_main ::
  "('f, 'x, 'p) tracing_api \<Rightarrow> environment \<Rightarrow> (log_format \<Rightarrow> world \<times> console \<Rightarrow> unit exec \<times> world \<times> console)
   \<Rightarrow> world \<times> console \<Rightarrow> unit exec \<times> world \<times> console" where
  "demo_main api env scenario s =
     (let (started, con) = init_tracing api env (snd s)
      in bind_exec started (\<lambda>(config, subscriber) (w, con).
           let (result, w1, con1) =
             (if needs_root_span config then
                (let (result, w1, con1) = scenario (log_format config) (emit [demo_span] w, con)
                 in (result, emit [SpanExit] w1, con1))
              else scenario (log_format config) (w, con))
           in bind_exec result (\<lambda>_ (w, con).
                (Done (),
                 w,
                 case tracer_provider config of
                   None \<Rightarrow> con
                 | Some provider \<Rightarrow>
                     (case api_shutdown api provider of
                        Ok _ \<Rightarrow> con
                      | Err e \<Rightarrow> eprintln (Line (''failed to shutdown OTel tracer provider: '' @ e)) con)))
              (w1, con1))
         (fst s, con))"

section \<open>Laws\<close>

lemma demo_root_name_good: "good_name (demo_root_name pid nanos)"
  by (simp add: demo_root_name_def good_name_def dec_nat_no_sep)

lemma print_demo_outcomes_stdout [simp]:
  "stdout (print_demo_outcomes Json out con) = stdout con"
  "stdout (print_demo_outcomes Human out con) = stdout con @ [Outcomes out]"
  by (simp_all add: print_demo_outcomes_def println_def eprintln_def)

text \<open>The subscriber of the demo is the one that the environment names: JSON lines exactly for
  \<open>MVP_LOG_FORMAT=json\<close>, an OpenTelemetry layer exactly for \<open>MVP_TRACE_EXPORTER=otlp\<close>.\<close>

lemma init_otlp_result:
  assumes "init_otlp_tracer_provider api env con = (r, con')"
  shows "(case r of
      Done p \<Rightarrow> True
    | Panicked m \<Rightarrow> \<exists>endpoint e. api_build_exporter api endpoint = Err e
        \<and> m = ''failed to create OTLP span exporter: '' @ e
    | OutOfFuel \<Rightarrow> False) \<and> stdout con' = stdout con"
  using assms
  by (auto simp: init_otlp_tracer_provider_def expect_ok_def eprintln_def Let_def
      split: sum.splits option.splits)

text \<open>The four cases of the subscriber are one.\<close>

lemma subscriber_layers:
  "(case (format, provider) of
      (Json, Some p) \<Rightarrow> \<lparr>sub_filter = f, sub_fmt = JsonLayer, sub_otel = Some (OtelLayer n)\<rparr>
    | (Json, None) \<Rightarrow> \<lparr>sub_filter = f, sub_fmt = JsonLayer, sub_otel = None\<rparr>
    | (Human, Some p) \<Rightarrow> \<lparr>sub_filter = f, sub_fmt = TextLayer, sub_otel = Some (OtelLayer n)\<rparr>
    | (Human, None) \<Rightarrow> \<lparr>sub_filter = f, sub_fmt = TextLayer, sub_otel = None\<rparr>)
   = \<lparr>sub_filter = f, sub_fmt = (if format = Json then JsonLayer else TextLayer),
      sub_otel = map_option (\<lambda>_. OtelLayer n) provider\<rparr>"
  by (cases format; cases provider) simp_all

lemma init_tracing_result:
  "init_tracing api env con = (r, con') \<Longrightarrow>
   (case r of
      Done (config, subscriber) \<Rightarrow>
        log_format config = (if env ''MVP_LOG_FORMAT'' = Some ''json'' then Json else Human)
      \<and> (tracer_provider config \<noteq> None \<longleftrightarrow> env ''MVP_TRACE_EXPORTER'' = Some ''otlp'')
      \<and> subscriber =
          \<lparr>sub_filter = (case api_try_from_default_env api env of
                           Ok f \<Rightarrow> f | Err _ \<Rightarrow> api_filter_new api ''mvp::audit=debug''),
           sub_fmt = (if log_format config = Json then JsonLayer else TextLayer),
           sub_otel = map_option (\<lambda>_. OtelLayer ''mvp-demo'') (tracer_provider config)\<rparr>
      \<and> api_set_global_default api subscriber = Ok ()
    | Panicked m \<Rightarrow>
        (\<exists>endpoint e. env ''MVP_TRACE_EXPORTER'' = Some ''otlp'' \<and> api_build_exporter api endpoint = Err e
           \<and> m = ''failed to create OTLP span exporter: '' @ e)
      \<or> (\<exists>subscriber e. api_set_global_default api subscriber = Err e
           \<and> m = ''failed to install tracing subscriber: '' @ e)
    | OutOfFuel \<Rightarrow> False)
   \<and> stdout con' = stdout con"
  unfolding init_tracing_def subscriber_layers Let_def
  by (cases "env ''MVP_TRACE_EXPORTER'' = Some ''otlp''"; cases "init_otlp_tracer_provider api env con";
      cases "fst (init_otlp_tracer_provider api env con)")
    (auto simp: expect_ok_def AUDIT_TARGET_def dest: init_otlp_result split: sum.splits)

text \<open>The scenario with its directory, under a plain directory for temporary files.\<close>

lemma run_demo_in_returns:
  assumes ws: "plain_workspace (fs w) ts" and "0 \<le> clock"
    and free: "nodes (fs w) (ts @ [demo_root_name pid clock]) = None"
    and script: "runs_demo_script api l" and "\<not> poisoned (sessions w)"
    and "load_raw (sessions w) (monty_session_key_new (path_of_names (ts @ [demo_root_name pid clock])) ''demo'') = Ok None"
  shows "\<exists>out w'. run_demo_in (3 + n) now (4 + bound) api l (path_of_names ts) pid clock format (w, con)
      = (Done (), w', print_demo_outcomes format out con)
    \<and> expected_outcomes out \<and> fs w' = fs w"
proof -
  let ?x = "demo_root_name pid clock"
  let ?rs = "ts @ [?x]"
  let ?fs1 = "(fs w)\<lparr>nodes := (nodes (fs w))(?rs \<mapsto> Directory)\<rparr>"
  have wf: "tree_wf (nodes (fs w))" "fs_wf (fs w)" using ws by (auto simp: plain_workspace_def fs_wf_def)
  have join: "path_join (path_of_names ts) ?x = path_of_names ?rs"
    by (rule path_join_name [OF demo_root_name_good plain_workspace_names [OF ws]])
  have create: "fs_create_dir_all (fs w) (path_of_names ?rs) = (Ok (), ?fs1)"
    using ws free wf(1) demo_root_name_good
    by (intro create_dir_all_fresh) (auto simp: plain_workspace_def)
  have plain: "plain_workspace ?fs1 ?rs"
    by (rule temp_workspace_plain(1) [OF ws demo_root_name_good free])
  have hello: "nodes ?fs1 (?rs @ [''hello.txt'']) = None"
    using tree_wf_free_below [OF wf(1) free, of "?rs @ [''hello.txt'']"] by simp
  have "leaves (run_demo (Suc (Suc (Suc n))) now (4 + bound) api l (path_of_names ?rs) (w\<lparr>fs := ?fs1\<rparr>))
      expected_outcomes (with_hello ?fs1 ?rs)"
    using demo_leaves [of "w\<lparr>fs := ?fs1\<rparr>" ?rs api l n now bound] plain hello script assms(5,6) by simp
  then obtain out w2 where run: "run_demo (3 + n) now (4 + bound) api l (path_of_names ?rs) (w\<lparr>fs := ?fs1\<rparr>) = (Done out, w2)"
    and out: "expected_outcomes out" and fs2: "fs w2 = with_hello ?fs1 ?rs"
    by (auto simp: leaves_def yields_def eval_nat_numeral)
  have stored: "plain_workspace (with_hello ?fs1 ?rs) ?rs"
    unfolding with_hello_def by (rule plain_workspace_store [OF plain good_hello hello])
  then have "fs_remove_dir_all (fs w2) (path_of_names ?rs)
      = (Ok (), (fs w2)\<lparr>nodes := (\<lambda>ms. if prefix ?rs ms then None else nodes (fs w2) ms)\<rparr>)"
    unfolding fs2 by (intro remove_dir_all_names) (auto simp: plain_workspace_def fs_wf_def)
  moreover have "(\<lambda>ms. if prefix ?rs ms then None else nodes (fs w2) ms) = nodes (fs w)"
    by (rule fresh_dir_removed [OF wf(1) free]) (auto simp: fs2 with_hello_def)
  ultimately have "fs_remove_dir_all (fs w2) (path_of_names ?rs) = (Ok (), fs w)"
    by (simp add: fs2 with_hello_def)
  with run create join \<open>0 \<le> clock\<close>
  have "run_demo_in (3 + n) now (4 + bound) api l (path_of_names ts) pid clock format (w, con)
      = (Done (), w2\<lparr>fs := fs w\<rparr>, print_demo_outcomes format out con)"
    by (simp add: run_demo_in_def nanos_since_epoch_def unwrap_def)
  with out show ?thesis by fastforce
qed

text \<open>C37: the configuration of tracing follows the environment: the format is JSON exactly for
  \<open>MVP_LOG_FORMAT=json\<close>, there is an exporter exactly for \<open>MVP_TRACE_EXPORTER=otlp\<close>, the subscriber has
  the filter of the environment or else the audit target's, and the layers of the configuration; the
  only panics are the failures to build the exporter and to install the subscriber.\<close>

theorem tracing_follows_environment:
  assumes "init_tracing api env con = (r, con')"
  shows "case r of
      Done (config, subscriber) \<Rightarrow>
        log_format config = (if env ''MVP_LOG_FORMAT'' = Some ''json'' then Json else Human)
      \<and> (tracer_provider config \<noteq> None \<longleftrightarrow> env ''MVP_TRACE_EXPORTER'' = Some ''otlp'')
      \<and> subscriber =
          \<lparr>sub_filter = (case api_try_from_default_env api env of
                           Ok f \<Rightarrow> f | Err _ \<Rightarrow> api_filter_new api ''mvp::audit=debug''),
           sub_fmt = (if log_format config = Json then JsonLayer else TextLayer),
           sub_otel = map_option (\<lambda>_. OtelLayer ''mvp-demo'') (tracer_provider config)\<rparr>
      \<and> api_set_global_default api subscriber = Ok ()
    | Panicked m \<Rightarrow>
        (\<exists>endpoint e. env ''MVP_TRACE_EXPORTER'' = Some ''otlp'' \<and> api_build_exporter api endpoint = Err e
           \<and> m = ''failed to create OTLP span exporter: '' @ e)
      \<or> (\<exists>subscriber e. api_set_global_default api subscriber = Err e
           \<and> m = ''failed to install tracing subscriber: '' @ e)
    | OutOfFuel \<Rightarrow> False"
  using init_tracing_result [OF assms] by (rule conjunct1)

text \<open>The process when tracing starts.\<close>

lemma demo_process_started:
  assumes "init_tracing tapi env con = (Done (config, subscriber), con1)"
    and "plain_workspace (fs w) ts" and "0 \<le> clock"
    and "nodes (fs w) (ts @ [demo_root_name pid clock]) = None"
    and "runs_demo_script api l" and "\<not> poisoned (sessions w)"
    and "load_raw (sessions w) (monty_session_key_new (path_of_names (ts @ [demo_root_name pid clock])) ''demo'') = Ok None"
  shows "\<exists>out w' con'.
      demo_main tapi env (run_demo_in (3 + n) now (4 + bound) api l (path_of_names ts) pid clock) (w, con)
        = (Done (), w', con')
    \<and> expected_outcomes out \<and> fs w' = fs w
    \<and> stdout con' = stdout con @ (if log_format config = Json then [] else [Outcomes out])
    \<and> (Outcomes out \<in> set (stderr con') \<or> log_format config = Human)"
proof -
  let ?w0 = "if needs_root_span config then emit [demo_span] w else w"
  let ?scenario = "run_demo_in (3 + n) now (4 + bound) api l (path_of_names ts) pid clock"
  have "\<exists>out w1. ?scenario (log_format config) (?w0, con1) = (Done (), w1, print_demo_outcomes (log_format config) out con1)
      \<and> expected_outcomes out \<and> fs w1 = fs ?w0"
    by (rule run_demo_in_returns) (use assms(2-7) in simp_all)
  then obtain out w1 where run: "?scenario (log_format config) (?w0, con1)
      = (Done (), w1, print_demo_outcomes (log_format config) out con1)"
    and out: "expected_outcomes out" and same: "fs w1 = fs w" by auto
  have con1: "stdout con1 = stdout con" using init_tracing_result [OF assms(1)] by simp
  obtain con' where shut: "con' = (case tracer_provider config of
      None \<Rightarrow> print_demo_outcomes (log_format config) out con1
    | Some provider \<Rightarrow>
        (case api_shutdown tapi provider of
           Ok _ \<Rightarrow> print_demo_outcomes (log_format config) out con1
         | Err e \<Rightarrow> eprintln (Line (''failed to shutdown OTel tracer provider: '' @ e))
                     (print_demo_outcomes (log_format config) out con1)))" by blast
  have "stdout con' = stdout (print_demo_outcomes (log_format config) out con1)"
    "set (stderr (print_demo_outcomes (log_format config) out con1)) \<subseteq> set (stderr con')"
    by (auto simp: shut eprintln_def split: option.splits sum.splits)
  with con1 have printed: "stdout con' = stdout con @ (if log_format config = Json then [] else [Outcomes out])"
    "Outcomes out \<in> set (stderr con') \<or> log_format config = Human"
    by (cases "log_format config"; auto simp: print_demo_outcomes_def eprintln_def println_def)+
  let ?w' = "if needs_root_span config then emit [SpanExit] w1 else w1"
  have "demo_main tapi env ?scenario (w, con) = (Done (), ?w', con')"
    using run by (cases "needs_root_span config") (simp_all add: demo_main_def assms(1) shut)
  with out same printed show ?thesis by fastforce
qed


section \<open>A concrete process\<close>

definition sample_tracing_api :: "(string, string, string) tracing_api" where
  "sample_tracing_api =
     \<lparr>api_try_from_default_env = (\<lambda>env. case env ''RUST_LOG'' of Some s \<Rightarrow> Ok s | None \<Rightarrow> Err ''not set''),
      api_filter_new = (\<lambda>s. s), api_build_exporter = (\<lambda>endpoint. Ok endpoint),
      api_provider = (\<lambda>name exporter. name), api_set_global_default = (\<lambda>_. Ok ()),
      api_shutdown = (\<lambda>_. Err ''timeout'')\<rparr>"

definition sample_environment :: environment where
  "sample_environment = [''MVP_LOG_FORMAT'' \<mapsto> ''json'', ''MVP_TRACE_EXPORTER'' \<mapsto> ''otlp'']"

abbreviation quiet :: console where
  "quiet \<equiv> \<lparr>stdout = [], stderr = []\<rparr>"

lemma sample_init:
  "init_tracing sample_tracing_api sample_environment quiet =
     (Done (\<lparr>log_format = Json, tracer_provider = Some ''mvp-demo''\<rparr>,
            \<lparr>sub_filter = ''mvp::audit=debug'', sub_fmt = JsonLayer, sub_otel = Some (OtelLayer ''mvp-demo'')\<rparr>),
      quiet\<lparr>stderr := [Line ''exporting OTel traces to http://localhost:4318/v1/traces'']\<rparr>)"
  by code_simp

theorem tracing_follows_environment_witness:
  "tracer_provider (fst (\<lparr>log_format = Json, tracer_provider = Some ''mvp-demo''\<rparr>, ''ok'')) \<noteq> None
   \<and> api_set_global_default sample_tracing_api
       \<lparr>sub_filter = ''mvp::audit=debug'', sub_fmt = JsonLayer, sub_otel = Some (OtelLayer ''mvp-demo'')\<rparr> = Ok ()"
  using tracing_follows_environment [OF sample_init] by simp


end
