(* ===== verification/Access_Tests.thy ===== *)
theory Access_Tests
  imports App Test_Support Directories
begin

text \<open>
  The tests of the access crates (\<open>access-fs/src/tests.rs\<close>, \<open>access-network/src/tests.rs\<close> and the
  tests in \<open>access-monty/src/store.rs\<close>) as programs over the model: a test is true when all its
  assertions hold and nothing that it unwraps is an error. That they are true is a check of the
  model against what the authors expect of the code.

  A test runs in a directory under \<open>/tmp\<close>, named as by the first workspace of process 1 at time 1.
\<close>

text \<open>No assertion looks at the audit log or at the numbers in messages: evaluation leaves them as they
  are.\<close>

declare record_grant_def [code del] record_policy_grant_def [code del] dec_u64_def [code del]
  debug_str_def [code del] starts_with_predicate_def [code del] equals_predicate_def [code del]
  envelope_predicate_def [code del]

section \<open>Steps of a test\<close>

text \<open>\<open>expecting\<close> goes on with a value that is no panic, \<open>unwrapping\<close> with one that is no error.\<close>

definition expecting :: "'r exec \<Rightarrow> ('r \<Rightarrow> bool) \<Rightarrow> bool" where
  "expecting x k = (case x of Done r \<Rightarrow> k r | Panicked m \<Rightarrow> False | OutOfFuel \<Rightarrow> False)"

definition unwrapping :: "'e + 'r \<Rightarrow> ('r \<Rightarrow> bool) \<Rightarrow> bool" where
  "unwrapping r k = (case r of Ok x \<Rightarrow> k x | Err e \<Rightarrow> False)"

fun is_denied :: "(execution_error + 'r) exec \<Rightarrow> bool" where
  "is_denied (Done (Inl (ExecAuthorization (Denied d)))) = True"
| "is_denied _ = False"

fun is_outside :: "(execution_error + 'r) exec \<Rightarrow> bool" where
  "is_outside (Done (Inl (ExecAuthorization OutsideWorkspace))) = True"
| "is_outside _ = False"

text \<open>\<open>std::fs::write\<close> and \<open>std::fs::create_dir_all\<close>, unwrapped, before a test starts.\<close>

datatype prepared = Dir string | File string string

fun prepare :: "string \<Rightarrow> prepared list \<Rightarrow> file_system \<Rightarrow> (file_system \<Rightarrow> bool) \<Rightarrow> bool" where
  "prepare root [] fsys k = k fsys"
| "prepare root (Dir p # ps) fsys k =
     (let (r, fsys') = fs_create_dir_all fsys (path_join root p)
      in unwrapping r (\<lambda>_. prepare root ps fsys' k))"
| "prepare root (File p content # ps) fsys k =
     (let (r, fsys') = fs_write fsys (path_join root p) content
      in unwrapping r (\<lambda>_. prepare root ps fsys' k))"

definition in_workspace :: "string \<Rightarrow> prepared list \<Rightarrow> (string \<Rightarrow> file_system \<Rightarrow> bool) \<Rightarrow> bool" where
  "in_workspace name files k =
     (let root = path_join ''/tmp'' (name @ ''-1-1-1'');
          (r, fsys) = fs_create_dir_all (plain_fs [([''tmp''], Directory)]) root
      in unwrapping r (\<lambda>_. prepare root files fsys (k root)))"

section \<open>The file system\<close>

definition fs_test_policy :: policy_pipeline where
  "fs_test_policy =
     pipeline_append TFsAction (box_policy as_fs_action AllowWorkspaceFsPolicy)
       (pipeline_prepend_inbound CapabilityEnvelopePolicy pipeline_new)"

definition fs_test_ctx :: "capabilities \<Rightarrow> capabilities \<Rightarrow> string \<Rightarrow> file_system \<Rightarrow> (tool_context \<Rightarrow> bool) \<Rightarrow> bool" where
  "fs_test_ctx declared effective root fsys k =
     expecting (test_registration 0 declared) (\<lambda>reg.
     unwrapping (canonical_root_existing fsys root) (\<lambda>canonical.
     k \<lparr>cx_tool_path = ''test_tool'', cx_registration = reg, cx_effective_capabilities = effective,
        cx_workspace_root = canonical\<rparr>))"

definition fs_test ::
  "prepared list \<Rightarrow> (string \<Rightarrow> file_system \<Rightarrow> (policy_pipeline \<Rightarrow> policy_pipeline) exec)
   \<Rightarrow> capability \<Rightarrow> capability list \<Rightarrow> (string \<Rightarrow> policy_pipeline \<Rightarrow> tool_context \<Rightarrow> world \<Rightarrow> bool) \<Rightarrow> bool" where
  "fs_test files policy declared effective k =
     in_workspace ''mvp-access-fs-test'' files (\<lambda>root fsys.
     expecting (policy root fsys) (\<lambda>add.
     fs_test_ctx (caps_from_slice [declared]) (caps_from_slice effective) root fsys (\<lambda>ctx.
     k root (add fs_test_policy) ctx (initial_world fsys))))"

text \<open>\<open>ctx.fs().read_file(path).await\<close> and \<open>ctx.fs().write_file(path, content).await\<close>.\<close>

definition test_read :: "policy_pipeline \<Rightarrow> tool_context \<Rightarrow> string \<Rightarrow> world \<Rightarrow> (execution_error + string) exec \<times> world" where
  "test_read pl ctx p w = with_fs ctx (\<lambda>acc. fs_access_read_file pl acc p) w"

definition test_write ::
  "policy_pipeline \<Rightarrow> tool_context \<Rightarrow> string \<Rightarrow> string \<Rightarrow> world \<Rightarrow> (execution_error + unit) exec \<times> world" where
  "test_write pl ctx p content w = with_fs ctx (\<lambda>acc. fs_access_write_file pl acc p content) w"

definition file_is :: "world \<Rightarrow> string \<Rightarrow> string \<Rightarrow> bool" where
  "file_is w p content \<longleftrightarrow> unwrapping (fs_read_to_string (fs w) p) (\<lambda>s. s = content)"

definition map_exec :: "('a \<Rightarrow> 'b) \<Rightarrow> 'a exec \<Rightarrow> 'b exec" where
  "map_exec f x = (case x of Done r \<Rightarrow> Done (f r) | Panicked m \<Rightarrow> Panicked m | OutOfFuel \<Rightarrow> OutOfFuel)"

definition canonicalized :: "file_system \<Rightarrow> string \<Rightarrow> (string \<Rightarrow> 'r exec) \<Rightarrow> 'r exec" where
  "canonicalized fsys p k = (case fs_canonicalize fsys p of Ok c \<Rightarrow> k c | Err e \<Rightarrow> Panicked (debug_io_error e))"

abbreviation reads :: "fs_read_action policy \<Rightarrow> policy_pipeline \<Rightarrow> policy_pipeline" where
  "reads p \<equiv> pipeline_append TFsReadAction (box_policy as_fs_read p)"

abbreviation writes :: "fs_write_action policy \<Rightarrow> policy_pipeline \<Rightarrow> policy_pipeline" where
  "writes p \<equiv> pipeline_append TFsWriteAction (box_policy as_fs_write p)"

definition exact_file_policy_only_allows_one_path :: bool where
  "exact_file_policy_only_allows_one_path =
     fs_test [File ''allowed.txt'' ''ok'', File ''blocked.txt'' ''no'']
       (\<lambda>root fsys. canonicalized fsys (path_join root ''allowed.txt'') (\<lambda>target.
          map_exec reads (allow_exact_file_read_new fsys target)))
       FsRead [FsRead]
       (\<lambda>root pl ctx w.
          let (allowed, w1) = test_read pl ctx ''allowed.txt'' w;
              (denied, w2) = test_read pl ctx ''blocked.txt'' w1
          in expecting allowed is_ok \<and> is_denied denied)"

definition prefix_policy_allows_reads_under_prefix :: bool where
  "prefix_policy_allows_reads_under_prefix =
     fs_test [Dir ''src'', File ''src/main.rs'' ''fn main() {}'', File ''root.txt'' ''no'']
       (\<lambda>root fsys. canonicalized fsys (path_join root ''src'') (\<lambda>src.
          map_exec reads (allow_file_read_prefix_new fsys src)))
       FsRead [FsRead]
       (\<lambda>root pl ctx w.
          let (allowed, w1) = test_read pl ctx ''src/main.rs'' w;
              (denied, w2) = test_read pl ctx ''root.txt'' w1
          in expecting allowed is_ok \<and> is_denied denied)"

definition workspace_policy_allows_reads_inside_workspace :: bool where
  "workspace_policy_allows_reads_inside_workspace =
     fs_test [Dir ''a/b'', File ''a/b/file.txt'' ''all''] (\<lambda>root fsys. Done (reads AllowWorkspaceReadPolicy))
       FsRead [FsRead]
       (\<lambda>root pl ctx w. expecting (fst (test_read pl ctx ''a/b/file.txt'' w)) (\<lambda>r.
          unwrapping r (\<lambda>content. content = ''all'')))"

definition effective_capabilities_can_shrink_read_access :: bool where
  "effective_capabilities_can_shrink_read_access =
     fs_test [File ''hello.txt'' ''hello''] (\<lambda>root fsys. Done (reads AllowWorkspaceReadPolicy))
       FsRead []
       (\<lambda>root pl ctx w. is_denied (fst (test_read pl ctx ''hello.txt'' w)))"

definition exact_file_write_policy_only_allows_one_path :: bool where
  "exact_file_write_policy_only_allows_one_path =
     fs_test [File ''allowed.txt'' ''before'', File ''blocked.txt'' ''blocked'']
       (\<lambda>root fsys. canonicalized fsys (path_join root ''allowed.txt'') (\<lambda>target.
          map_exec writes (allow_exact_file_write_new fsys target)))
       FsWrite [FsWrite]
       (\<lambda>root pl ctx w.
          let (allowed, w1) = test_write pl ctx ''allowed.txt'' ''ok'' w;
              (denied, w2) = test_write pl ctx ''blocked.txt'' ''no'' w1
          in expecting allowed is_ok \<and> file_is w1 (path_join root ''allowed.txt'') ''ok'' \<and> is_denied denied)"

definition exact_file_write_policy_normalizes_missing_target_parent :: bool where
  "exact_file_write_policy_normalizes_missing_target_parent =
     fs_test []
       (\<lambda>root fsys. map_exec writes (allow_exact_file_write_new fsys (path_join root ''created.txt'')))
       FsWrite [FsWrite]
       (\<lambda>root pl ctx w.
          let (created, w1) = test_write pl ctx ''created.txt'' ''ok'' w
          in expecting created is_ok \<and> file_is w1 (path_join root ''created.txt'') ''ok'')"

definition prefix_policy_allows_writes_under_prefix :: bool where
  "prefix_policy_allows_writes_under_prefix =
     fs_test [Dir ''out'', File ''out/ok.txt'' ''before'', File ''root.txt'' ''blocked'']
       (\<lambda>root fsys. canonicalized fsys (path_join root ''out'') (\<lambda>out.
          map_exec writes (allow_file_write_prefix_new fsys out)))
       FsWrite [FsWrite]
       (\<lambda>root pl ctx w.
          let (allowed, w1) = test_write pl ctx ''out/ok.txt'' ''ok'' w;
              (denied, w2) = test_write pl ctx ''root.txt'' ''no'' w1
          in expecting allowed is_ok \<and> file_is w1 (path_join root ''out/ok.txt'') ''ok'' \<and> is_denied denied)"

definition workspace_policy_allows_writes_inside_workspace :: bool where
  "workspace_policy_allows_writes_inside_workspace =
     fs_test [Dir ''a/b''] (\<lambda>root fsys. Done (writes AllowWorkspaceWritePolicy))
       FsWrite [FsWrite]
       (\<lambda>root pl ctx w.
          let (written, w1) = test_write pl ctx ''a/b/file.txt'' ''written'' w
          in expecting written is_ok \<and> file_is w1 (path_join root ''a/b/file.txt'') ''written'')"

definition effective_capabilities_can_shrink_write_access :: bool where
  "effective_capabilities_can_shrink_write_access =
     fs_test [File ''hello.txt'' ''hello''] (\<lambda>root fsys. Done (writes AllowWorkspaceWritePolicy))
       FsWrite []
       (\<lambda>root pl ctx w. is_denied (fst (test_write pl ctx ''hello.txt'' ''nope'' w)))"

definition write_can_create_new_file_inside_workspace :: bool where
  "write_can_create_new_file_inside_workspace =
     fs_test [Dir ''nested''] (\<lambda>root fsys. Done (writes AllowWorkspaceWritePolicy))
       FsWrite [FsWrite]
       (\<lambda>root pl ctx w.
          let (created, w1) = test_write pl ctx ''nested/new.txt'' ''created'' w
          in expecting created is_ok \<and> file_is w1 (path_join root ''nested/new.txt'') ''created'')"

text \<open>The removal of an older \<open>tool-plane-outside-write.txt\<close> finds none.\<close>

definition write_rejects_targets_outside_workspace :: bool where
  "write_rejects_targets_outside_workspace =
     fs_test [] (\<lambda>root fsys. Done (writes AllowWorkspaceWritePolicy))
       FsWrite [FsWrite]
       (\<lambda>root pl ctx w.
          let outside = path_join ''/tmp'' ''tool-plane-outside-write.txt'';
              (denied, w1) = test_write pl ctx outside ''blocked'' w
          in is_outside denied \<and> \<not> fs_exists (fs w1) outside)"

lemma exact_file_policy_only_allows_one_path_ok: "exact_file_policy_only_allows_one_path"
  by code_simp

lemma prefix_policy_allows_reads_under_prefix_ok: "prefix_policy_allows_reads_under_prefix"
  by code_simp

lemma workspace_policy_allows_reads_inside_workspace_ok: "workspace_policy_allows_reads_inside_workspace"
  by code_simp

lemma effective_capabilities_can_shrink_read_access_ok: "effective_capabilities_can_shrink_read_access"
  by code_simp

lemma exact_file_write_policy_only_allows_one_path_ok: "exact_file_write_policy_only_allows_one_path"
  by code_simp

lemma exact_file_write_policy_normalizes_missing_target_parent_ok: "exact_file_write_policy_normalizes_missing_target_parent"
  by code_simp

lemma prefix_policy_allows_writes_under_prefix_ok: "prefix_policy_allows_writes_under_prefix"
  by code_simp

lemma workspace_policy_allows_writes_inside_workspace_ok: "workspace_policy_allows_writes_inside_workspace"
  by code_simp

lemma effective_capabilities_can_shrink_write_access_ok: "effective_capabilities_can_shrink_write_access"
  by code_simp

lemma write_can_create_new_file_inside_workspace_ok: "write_can_create_new_file_inside_workspace"
  by code_simp

lemma write_rejects_targets_outside_workspace_ok: "write_rejects_targets_outside_workspace"
  by code_simp

section \<open>The network\<close>

text \<open>The context of these tests keeps its root as a path.\<close>

definition network_test_policy :: policy_pipeline where
  "network_test_policy = pipeline_prepend_inbound CapabilityEnvelopePolicy pipeline_new"

definition network_test ::
  "(string \<times> bytes) list \<Rightarrow> (policy_pipeline \<Rightarrow> policy_pipeline) \<Rightarrow> capability list
   \<Rightarrow> (policy_pipeline \<Rightarrow> network_backend \<Rightarrow> policy_context \<Rightarrow> world \<Rightarrow> bool) \<Rightarrow> bool" where
  "network_test responses policy caps k =
     in_workspace ''mvp-access-network-test'' [] (\<lambda>root fsys.
     expecting (test_registration 0 (caps_from_slice caps)) (\<lambda>reg.
     unwrapping (fs_canonicalize fsys root) (\<lambda>canonical.
     k (policy network_test_policy) (static_network_backend_new responses)
       \<lparr>ctx_capabilities = caps_from_slice caps, ctx_workspace_root = canonical\<rparr> (initial_world fsys))))"

text \<open>\<open>ctx.network().fetch_url(url).await\<close>.\<close>

definition test_fetch ::
  "policy_pipeline \<Rightarrow> network_backend \<Rightarrow> policy_context \<Rightarrow> string \<Rightarrow> world \<Rightarrow> (execution_error + bytes) exec" where
  "test_fetch pl net ctx url w = Done (fst (network_access_fetch_url pl net ctx url w))"

definition byte_string :: "string \<Rightarrow> bytes" where
  "byte_string s = map (\<lambda>c. of_nat (of_char c)) s"

definition url_fetch_grant_fetches_exact_url :: bool where
  "url_fetch_grant_fetches_exact_url =
     network_test [(''https://example.test/hello'', byte_string ''hello'')]
       (pipeline_append TNetworkFetchAction
         (box_policy as_network_fetch (AllowExactUrlFetchPolicy ''https://example.test/hello'')))
       [NetworkFetch]
       (\<lambda>pl net ctx w. expecting (test_fetch pl net ctx ''https://example.test/hello'' w) (\<lambda>r.
          unwrapping r (\<lambda>body. body = byte_string ''hello'')))"

definition domain_policy_allows_matching_subdomain :: bool where
  "domain_policy_allows_matching_subdomain =
     network_test [(''https://docs.example.test/index'', byte_string ''docs'')]
       (pipeline_append TNetworkFetchAction
         (box_policy as_network_fetch (AllowDomainFetchPolicy ''example.test'')))
       [NetworkFetch]
       (\<lambda>pl net ctx w. expecting (test_fetch pl net ctx ''https://docs.example.test/index'' w) (\<lambda>r.
          unwrapping r (\<lambda>body. body = byte_string ''docs'')))"

definition network_requires_matching_policy :: bool where
  "network_requires_matching_policy =
     network_test [] (\<lambda>pl. pl) []
       (\<lambda>pl net ctx w. is_denied (test_fetch pl net ctx ''https://example.test/hello'' w))"

section \<open>Sessions\<close>

definition session_test_policy :: policy_pipeline where
  "session_test_policy =
     pipeline_append TMontySessionSaveAction (box_policy as_session_save AllowMontySessionPolicy_save)
       (pipeline_append TMontySessionLoadAction (box_policy as_session_load AllowMontySessionPolicy_load)
         (pipeline_prepend_inbound CapabilityEnvelopePolicy pipeline_new))"

definition session_test_access :: "string \<Rightarrow> session_access" where
  "session_test_access root =
     session_access_new root \<lparr>ctx_capabilities = caps_empty, ctx_workspace_root = root\<rparr>"

definition memory_store_round_trips_session_bytes :: bool where
  "memory_store_round_trips_session_bytes =
     (let access = session_test_access ''/tmp/workspace-a'';
          (saved, w) = session_access_save session_test_policy access ''default'' (byte_string ''state'')
            (initial_world (plain_fs []));
          (loaded, w') = session_access_load session_test_policy access ''default'' w
      in unwrapping saved (\<lambda>_. unwrapping loaded (\<lambda>bs. bs = Some (byte_string ''state''))))"

definition session_keys_are_scoped_by_workspace :: bool where
  "session_keys_are_scoped_by_workspace =
     (let workspace_a = session_test_access ''/tmp/workspace-a'';
          workspace_b = session_test_access ''/tmp/workspace-b'';
          (saved, w) = session_access_save session_test_policy workspace_a ''default'' (byte_string ''a'')
            (initial_world (plain_fs []));
          (loaded, w') = session_access_load session_test_policy workspace_b ''default'' w
      in unwrapping saved (\<lambda>_. unwrapping loaded (\<lambda>bs. bs = None)))"

lemma url_fetch_grant_fetches_exact_url_ok: "url_fetch_grant_fetches_exact_url"
  by code_simp

lemma domain_policy_allows_matching_subdomain_ok: "domain_policy_allows_matching_subdomain"
  by code_simp

lemma network_requires_matching_policy_ok: "network_requires_matching_policy"
  by code_simp

lemma memory_store_round_trips_session_bytes_ok: "memory_store_round_trips_session_bytes"
  by code_simp

lemma session_keys_are_scoped_by_workspace_ok: "session_keys_are_scoped_by_workspace"
  by code_simp

end
