(* ===== verification/Host_Tests.thy ===== *)
theory Host_Tests
  imports Access_Tests Tool_Builtin
begin

text \<open>
  The tests of the hosts: those of the application (in \<open>app/src/lib.rs\<close>), of the built-in tools on
  the test host (in \<open>tool-builtin/src\<close>), and the two under \<open>kernel/tests\<close>, which show that other
  crates can use the interfaces: a host whose tool paths are an enumeration, and a service with an
  action, a policy and a policy engine of its own. The last two are stated for all inputs.
\<close>

section \<open>Tools of the tests\<close>

definition NoopTool :: "(unit, tool_outcome) tool_impl" where
  "NoopTool =
     \<lparr>impl_spec = \<lparr>tool_name = ''noop'', description = ''Return a public no-op outcome.'',
                   capabilities_of = caps_empty\<rparr>,
      impl_parse_input = (\<lambda>payload. Ok ()),
      impl_execute = (\<lambda>ctx input. Return (Ok \<lparr>out_payload = json_object [(''ok'', JBool True)],
                                               out_classification = Public\<rparr>)),
      impl_into_outcome = (\<lambda>out. out)\<rparr>"

definition ReadWorkspaceFileTool :: "(string, tool_outcome) tool_impl" where
  "ReadWorkspaceFileTool =
     \<lparr>impl_spec = \<lparr>tool_name = ''read_workspace_file'',
                   description = ''Read a workspace file through fs access.'',
                   capabilities_of = caps_from_slice [FsRead]\<rparr>,
      impl_parse_input = required_str ''path'',
      impl_execute = (\<lambda>ctx input. CallReadFile input (\<lambda>r. case map_err ToolExecution r of
          Err e \<Rightarrow> Return (Err e)
        | Ok content \<Rightarrow> Return (Ok \<lparr>out_payload = json_object [(''content'', JString content)],
                                     out_classification = WorkspaceLocal\<rparr>))),
      impl_into_outcome = (\<lambda>out. out)\<rparr>"

definition EscalatingInvokeTool :: "(string \<times> json, tool_outcome) tool_impl" where
  "EscalatingInvokeTool =
     \<lparr>impl_spec = \<lparr>tool_name = ''escalate_invoke'',
                   description = ''Attempt to expand nested invocation capabilities.'',
                   capabilities_of = caps_empty\<rparr>,
      impl_parse_input = (\<lambda>payload.
        and_then (required_str ''name'' payload) (\<lambda>name.
        and_then (ok_or (MissingField ''payload'') (json_get ''payload'' payload)) (\<lambda>inner.
        Ok (name, inner)))),
      impl_execute = (\<lambda>ctx input.
        CallInvokeTool (fst input) (Some (caps_from_slice [FsRead])) (snd input) Return),
      impl_into_outcome = (\<lambda>out. out)\<rparr>"

section \<open>The application\<close>

definition register_rejects_duplicate_tool_names :: bool where
  "register_rejects_duplicate_tool_names =
     (let (first, a) = app_register 0 ''noop'' NoopTool app_new;
          (duplicate, a') = app_register 0 ''noop'' NoopTool a
      in is_ok first \<and> duplicate = Err (DuplicateTool (debug_str ''noop'')))"

definition invoke_returns_unknown_tool_for_unregistered_name :: bool where
  "invoke_returns_unknown_tool_for_unregistered_name =
     in_workspace ''mvp-app-test-unknown-tool'' [] (\<lambda>root fsys.
       fst (app_invoke 1 app_new ''missing'' (invocation_params_new root None) (JObject []) (initial_world fsys))
         = Done (Err (UnknownTool (debug_str ''missing''))))"

definition read_workspace_app :: app where
  "read_workspace_app =
     app_register_policy (Append TFsReadAction (box_policy as_fs_read AllowWorkspaceReadPolicy))
       (app_register_policy (Append TFsAction (box_policy as_fs_action AllowWorkspaceFsPolicy))
         (snd (app_register 0 ''read_workspace_file'' ReadWorkspaceFileTool app_new)))"

definition app_read_test ::
  "string \<Rightarrow> string \<Rightarrow> capabilities option \<Rightarrow> ((tool_error + tool_outcome) exec \<Rightarrow> bool) \<Rightarrow> bool" where
  "app_read_test name content override k =
     in_workspace name [File ''hello.txt'' content] (\<lambda>root fsys.
       k (fst (app_invoke 1 read_workspace_app ''read_workspace_file'' (invocation_params_new root override)
            (json_object [(''path'', JString ''hello.txt'')]) (initial_world fsys))))"

definition outcome_is :: "json \<Rightarrow> output_classification \<Rightarrow> (tool_error + tool_outcome) exec \<Rightarrow> bool" where
  "outcome_is payload classification r \<longleftrightarrow>
     expecting r (\<lambda>r. unwrapping r (\<lambda>out.
       out_payload out = payload \<and> out_classification out = classification))"

definition declared_capabilities_apply_when_override_is_absent :: bool where
  "declared_capabilities_apply_when_override_is_absent =
     app_read_test ''mvp-app-test-default-capabilities'' ''hello from app'' None
       (outcome_is (json_object [(''content'', JString ''hello from app'')]) WorkspaceLocal)"

definition top_level_override_can_shrink_effective_capabilities :: bool where
  "top_level_override_can_shrink_effective_capabilities =
     app_read_test ''mvp-app-test-capability-shrink'' ''blocked by envelope'' (Some caps_empty)
       (\<lambda>r. case r of
          Done (Err (ToolExecution (ExecAuthorization e))) \<Rightarrow>
            denied_reason e = Some ''action exceeds declared capability envelope''
        | _ \<Rightarrow> False)"

section \<open>The built-in tools on the test host\<close>

definition mock_test ::
  "string \<Rightarrow> prepared list \<Rightarrow> mock_kernel \<Rightarrow> string \<Rightarrow> capabilities option \<Rightarrow> json
   \<Rightarrow> (string \<Rightarrow> (tool_error + tool_outcome) exec \<times> world \<Rightarrow> bool) \<Rightarrow> bool" where
  "mock_test name files m path override payload k =
     in_workspace name files (\<lambda>root fsys.
       k root (mock_invoke 2 m path (invocation_params_new root override) payload (initial_world fsys)))"

definition mock_append :: "action_type \<Rightarrow> policy_any \<Rightarrow> mock_kernel \<Rightarrow> mock_kernel" where
  "mock_append T p m = m\<lparr>mock_policy := pipeline_append T p (mock_policy m)\<rparr>"

definition with_reads :: "mock_kernel \<Rightarrow> mock_kernel" where
  "with_reads m = mock_append TFsReadAction (box_policy as_fs_read AllowWorkspaceReadPolicy)
     (snd (mock_register 0 ''read_file'' ReadFileTool m))"

definition read_file_goes_through_kernel_pipeline :: bool where
  "read_file_goes_through_kernel_pipeline =
     mock_test ''tool-plane-builtin-read-file'' [File ''hello.txt'' ''hello from tool plane'']
       (with_reads mock_kernel_new) ''read_file'' None (json_object [(''path'', JString ''hello.txt'')])
       (\<lambda>root rw. outcome_is (json_object [(''content'', JString ''hello from tool plane'')]) WorkspaceLocal (fst rw))"

definition write_test_payload :: "string \<Rightarrow> string \<Rightarrow> json" where
  "write_test_payload p content = json_object [(''path'', JString p), (''content'', JString content)]"

definition write_file_goes_through_kernel_pipeline :: bool where
  "write_file_goes_through_kernel_pipeline =
     mock_test ''tool-plane-builtin-write-file'' [Dir ''nested'']
       (mock_append TFsWriteAction (box_policy as_fs_write AllowWorkspaceWritePolicy)
         (snd (mock_register 0 ''write_file'' WriteFileTool mock_kernel_new)))
       ''write_file'' None (write_test_payload ''nested/hello.txt'' ''hello from write tool'')
       (\<lambda>root rw. file_is (snd rw) (path_join root ''nested/hello.txt'') ''hello from write tool''
          \<and> outcome_is (json_object [(''ok'', JBool True)]) Public (fst rw))"

definition write_file_requires_matching_policy :: bool where
  "write_file_requires_matching_policy =
     mock_test ''tool-plane-builtin-write-file-denied'' []
       (snd (mock_register 0 ''write_file'' WriteFileTool mock_kernel_new))
       ''write_file'' None (write_test_payload ''hello.txt'' ''blocked'')
       (\<lambda>root rw. (case fst rw of
            Done (Err (ToolExecution (ExecAuthorization (Denied d)))) \<Rightarrow> True | _ \<Rightarrow> False)
          \<and> \<not> fs_exists (fs (snd rw)) (path_join root ''hello.txt''))"

definition double_inherits_top_level_capability_override :: bool where
  "double_inherits_top_level_capability_override =
     mock_test ''tool-plane-builtin-double-inherit'' [File ''hello.txt'' ''hello through double'']
       (with_reads (snd (mock_register 0 ''double'' Double mock_kernel_new)))
       ''double'' (Some (caps_from_slice [FsRead]))
       (json_object [(''path'', JString ''read_file''),
          (''payload'', json_object [(''path'', JString ''hello.txt'')])])
       (\<lambda>root rw. outcome_is (json_object [(''content'', JString ''hello through double'')]) WorkspaceLocal (fst rw))"

definition nested_override_cannot_expand_parent_effective_capabilities :: bool where
  "nested_override_cannot_expand_parent_effective_capabilities =
     mock_test ''tool-plane-builtin-double-escalate'' [File ''hello.txt'' ''blocked'']
       (with_reads (snd (mock_register 0 ''escalate_invoke'' EscalatingInvokeTool mock_kernel_new)))
       ''escalate_invoke'' None
       (json_object [(''name'', JString ''read_file''),
          (''payload'', json_object [(''path'', JString ''hello.txt'')])])
       (\<lambda>root rw. case fst rw of Done (Err (ToolAuthorization (Denied d))) \<Rightarrow> True | _ \<Rightarrow> False)"

lemma register_rejects_duplicate_tool_names_ok: "register_rejects_duplicate_tool_names"
  by code_simp

lemma invoke_returns_unknown_tool_for_unregistered_name_ok: "invoke_returns_unknown_tool_for_unregistered_name"
  by code_simp

lemma declared_capabilities_apply_when_override_is_absent_ok: "declared_capabilities_apply_when_override_is_absent"
  by code_simp

lemma top_level_override_can_shrink_effective_capabilities_ok: "top_level_override_can_shrink_effective_capabilities"
  by code_simp

lemma read_file_goes_through_kernel_pipeline_ok: "read_file_goes_through_kernel_pipeline"
  by code_simp

lemma write_file_goes_through_kernel_pipeline_ok: "write_file_goes_through_kernel_pipeline"
  by code_simp

lemma write_file_requires_matching_policy_ok: "write_file_requires_matching_policy"
  by code_simp

lemma double_inherits_top_level_capability_override_ok: "double_inherits_top_level_capability_override"
  by code_simp

lemma nested_override_cannot_expand_parent_effective_capabilities_ok:
  "nested_override_cannot_expand_parent_effective_capabilities"
  by code_simp

section \<open>All of them\<close>

lemmas test_results =
  exact_file_policy_only_allows_one_path_ok
  prefix_policy_allows_reads_under_prefix_ok
  workspace_policy_allows_reads_inside_workspace_ok
  effective_capabilities_can_shrink_read_access_ok
  exact_file_write_policy_only_allows_one_path_ok
  exact_file_write_policy_normalizes_missing_target_parent_ok
  prefix_policy_allows_writes_under_prefix_ok
  workspace_policy_allows_writes_inside_workspace_ok
  effective_capabilities_can_shrink_write_access_ok
  write_can_create_new_file_inside_workspace_ok
  write_rejects_targets_outside_workspace_ok
  url_fetch_grant_fetches_exact_url_ok
  domain_policy_allows_matching_subdomain_ok
  network_requires_matching_policy_ok
  memory_store_round_trips_session_bytes_ok
  session_keys_are_scoped_by_workspace_ok
  register_rejects_duplicate_tool_names_ok
  invoke_returns_unknown_tool_for_unregistered_name_ok
  declared_capabilities_apply_when_override_is_absent_ok
  top_level_override_can_shrink_effective_capabilities_ok
  read_file_goes_through_kernel_pipeline_ok
  write_file_goes_through_kernel_pipeline_ok
  write_file_requires_matching_policy_ok
  double_inherits_top_level_capability_override_ok
  nested_override_cannot_expand_parent_effective_capabilities_ok

text \<open>The tests of the access crates, of the application and of the built-in tools hold of the model:
  what the authors expect of policies, facades, sessions, registration, capability overrides and
  nested invocations on concrete files and requests is what the model computes.\<close>

lemma repository_tests_pass:
  "list_all (\<lambda>test. test)
    [exact_file_policy_only_allows_one_path,
     prefix_policy_allows_reads_under_prefix,
     workspace_policy_allows_reads_inside_workspace,
     effective_capabilities_can_shrink_read_access,
     exact_file_write_policy_only_allows_one_path,
     exact_file_write_policy_normalizes_missing_target_parent,
     prefix_policy_allows_writes_under_prefix,
     workspace_policy_allows_writes_inside_workspace,
     effective_capabilities_can_shrink_write_access,
     write_can_create_new_file_inside_workspace,
     write_rejects_targets_outside_workspace,
     url_fetch_grant_fetches_exact_url,
     domain_policy_allows_matching_subdomain,
     network_requires_matching_policy,
     memory_store_round_trips_session_bytes,
     session_keys_are_scoped_by_workspace,
     register_rejects_duplicate_tool_names,
     invoke_returns_unknown_tool_for_unregistered_name,
     declared_capabilities_apply_when_override_is_absent,
     top_level_override_can_shrink_effective_capabilities,
     read_file_goes_through_kernel_pipeline,
     write_file_goes_through_kernel_pipeline,
     write_file_requires_matching_policy,
     double_inherits_top_level_capability_override,
     nested_override_cannot_expand_parent_effective_capabilities]"
  by (simp add: test_results)

end
