(* ===== verification/Kernel_Tests.thy ===== *)
theory Kernel_Tests
  imports Tool_Builtin
begin

text \<open>
  The two tests under \<open>crates/kernel/tests\<close>, which are small programs over the public interfaces: a
  host whose tool paths are an enumeration, with a registry, a context and an invocation of its own
  (\<open>tool_path.rs\<close>), and a service of another crate with an action, a policy and a policy engine
  of its own (\<open>external_service.rs\<close>). What the tests assert for one input holds for all.
\<close>

section \<open>A host with an enumeration of paths\<close>

datatype test_tool_path = Primary | Alias

fun debug_test_tool_path :: "test_tool_path \<Rightarrow> string" where
  "debug_test_tool_path Primary = ''Primary''"
| "debug_test_tool_path Alias = ''Alias''"

type_synonym enum_path_kernel = "test_tool_path \<Rightarrow> registered_tool option"

definition enum_path_kernel_new :: enum_path_kernel where
  "enum_path_kernel_new = (\<lambda>_. None)"

definition enum_path_register ::
  "nat \<Rightarrow> test_tool_path \<Rightarrow> ('i, 'o) tool_impl \<Rightarrow> enum_path_kernel \<Rightarrow> (tool_error + unit) \<times> enum_path_kernel" where
  "enum_path_register now path tool m =
     (if m path \<noteq> None then (Err (DuplicateTool (debug_test_tool_path path)), m)
      else case registered_tool_from_tool no_spans now tool of
             Err e \<Rightarrow> (Err e, m)
           | Ok tool' \<Rightarrow> (Ok (), m(path \<mapsto> tool')))"

definition enum_decode_tool_path :: "json \<Rightarrow> input_error + test_tool_path" where
  "enum_decode_tool_path v =
     (if as_str v = Some ''primary'' then Ok Primary
      else if as_str v = Some ''alias'' then Ok Alias
      else Err (InvalidField ''tool_path''))"

text \<open>The context; a tool of this host sees its path, here by the name that \<open>Debug\<close> gives it.\<close>

definition enum_path_context_new ::
  "file_system \<Rightarrow> test_tool_path \<Rightarrow> tool_registration \<Rightarrow> invocation_params \<Rightarrow> authorization_error + tool_context" where
  "enum_path_context_new fsys path reg params =
     (case map_err AuthIo (fs_canonicalize fsys (params_workspace_root params)) of
        Err e \<Rightarrow> Err e
      | Ok root \<Rightarrow>
          Ok \<lparr>cx_tool_path = debug_test_tool_path path, cx_registration = reg,
              cx_effective_capabilities =
                (case capabilities_override params of Some caps \<Rightarrow> caps | None \<Rightarrow> caps_empty),
              cx_workspace_root = \<lparr>root_path = from_canonical root\<rparr>\<rparr>)"

type_synonym enum_invoker =
  "test_tool_path \<Rightarrow> invocation_params \<Rightarrow> json \<Rightarrow> world \<Rightarrow> (tool_error + tool_outcome) exec \<times> world"

definition enum_invoke_tool ::
  "enum_invoker \<Rightarrow> tool_context \<Rightarrow> test_tool_path \<Rightarrow> capabilities option \<Rightarrow> json \<Rightarrow> world
   \<Rightarrow> (tool_error + tool_outcome) exec \<times> world" where
  "enum_invoke_tool nest ctx path caps_override payload w =
     nest path
       (invocation_params_new (cx_root ctx)
         (Some (case caps_override of Some caps \<Rightarrow> caps | None \<Rightarrow> cx_effective_capabilities ctx)))
       payload w"

text \<open>The context has no access facades. A nested call names its tool by the text that decodes to it.\<close>

primrec enum_run ::
  "enum_invoker \<Rightarrow> tool_context \<Rightarrow> 'a tool_prog \<Rightarrow> world \<Rightarrow> (tool_error + 'a) exec \<times> world" where
  "enum_run nest ctx (Return r) w = (Done r, w)"
| "enum_run nest ctx (CallReadFile p k) w = (Panicked ''no file access'', w)"
| "enum_run nest ctx (CallWriteFile p c k) w = (Panicked ''no file access'', w)"
| "enum_run nest ctx (CallFetchUrl u k) w = (Panicked ''no network access'', w)"
| "enum_run nest ctx (CallSessionLoad s k) w = (Panicked ''no session access'', w)"
| "enum_run nest ctx (CallSessionSave s bs k) w = (Panicked ''no session access'', w)"
| "enum_run nest ctx (CallInvokeTool p c j k) w =
     (case enum_decode_tool_path (JString p) of
        Err e \<Rightarrow> enum_run nest ctx (k (Err (InvalidInput e))) w
      | Ok path \<Rightarrow> continue (enum_invoke_tool nest ctx path c j w) (\<lambda>r. enum_run nest ctx (k r)))"
| "enum_run nest ctx (EmitAudit evs p) w = enum_run nest ctx p (emit evs w)"
| "enum_run nest ctx (ToolPanics m) w = (Panicked m, w)"
| "enum_run nest ctx StepBound w = (OutOfFuel, w)"

primrec enum_invoke :: "nat \<Rightarrow> enum_path_kernel \<Rightarrow> enum_invoker" where
  "enum_invoke 0 m = (\<lambda>path params payload w. (OutOfFuel, w))"
| "enum_invoke (Suc n) m = (\<lambda>path params payload w.
     case m path of
       None \<Rightarrow> (Done (Err (UnknownTool (debug_test_tool_path path))), w)
     | Some t \<Rightarrow>
         (case map_err ToolAuthorization (enum_path_context_new (fs w) path (tool_registration_of t) params) of
            Err e \<Rightarrow> (Done (Err e), w)
          | Ok ctx \<Rightarrow> enum_run (enum_invoke n m) ctx (registered_tool_invoke t ctx payload) w))"

definition EchoPathTool :: "(unit, tool_outcome) tool_impl" where
  "EchoPathTool =
     \<lparr>impl_spec = \<lparr>tool_name = ''same_metadata_name'',
                   description = ''Return the runtime path used for invocation.'',
                   capabilities_of = caps_empty\<rparr>,
      impl_parse_input = (\<lambda>payload. Ok ()),
      impl_execute = (\<lambda>ctx input.
        Return (Ok \<lparr>out_payload = json_object [(''path'', JString (cx_tool_path ctx))],
                    out_classification = Public\<rparr>)),
      impl_into_outcome = (\<lambda>out. out)\<rparr>"

definition two_path_kernel :: "nat \<Rightarrow> enum_path_kernel" where
  "two_path_kernel now =
     snd (enum_path_register now Alias EchoPathTool
       (snd (enum_path_register now Primary EchoPathTool enum_path_kernel_new)))"

text \<open>The registry of this host finds a tool by its path, not by the name in its specification: the
  same tool under two paths answers each of them with that path.\<close>

lemma registry_uses_generic_tool_path:
  assumes "fs_canonicalize (fs w) (params_workspace_root params) = Ok root"
  shows "enum_invoke (Suc n) (two_path_kernel now) path params payload w =
     (Done (Ok \<lparr>out_payload = json_object [(''path'', JString (debug_test_tool_path path))],
               out_classification = Public\<rparr>),
      emit (record_span_result None @ record_span_result None) w)"
  using assms
  by (cases path)
    (simp_all add: two_path_kernel_def enum_path_register_def enum_path_kernel_new_def
      registered_tool_from_tool_def tool_registration_new_def EchoPathTool_def enum_path_context_new_def
      registered_tool_invoke_def adapter_invoke_def no_spans_def leave_def Let_def)

section \<open>A service of another crate\<close>

record external_echo_action =
  echo_value :: string

definition external_echo_dyn :: "external_echo_action \<Rightarrow> action" where
  "external_echo_dyn a =
     ActOther \<lparr>other_type_name = ''ExternalEchoAction'', other_capabilities = caps_empty,
       other_audit_kind = ''external.echo'', other_audit_resource = ResValue (echo_value a)\<rparr>"

text \<open>\<open>downcast_ref::<ExternalEchoAction>()\<close>.\<close>

fun as_external_echo :: "action \<Rightarrow> external_echo_action option" where
  "as_external_echo (ActOther a) =
     (case other_audit_resource a of
        ResValue v \<Rightarrow>
          if other_type_name a = ''ExternalEchoAction'' then Some \<lparr>echo_value = v\<rparr> else None
      | _ \<Rightarrow> None)"
| "as_external_echo _ = None"

definition AllowExternalEcho :: "external_echo_action policy" where
  "AllowExternalEcho =
     \<lparr>pol_name = ''external.allow_echo'',
      pol_grant = (\<lambda>ctx a. with_predicate (policy_grant_allow (Some ''external echo action allowed''))
        (''value is non-empty: '' @ (if echo_value a \<noteq> [] then ''true'' else ''false'')))\<rparr>"

definition external_echo_decide :: engine_decide where
  "external_echo_decide ctx a =
     (case as_external_echo a of
        None \<Rightarrow> (report_deny_without_match [] (Some ''No matching policy.''), [])
      | Some echo \<Rightarrow>
          (let policy = AllowExternalEcho;
               g = pol_grant policy ctx echo;
               (d, r) = into_decision_and_reason g;
               evals = [policy_evaluation_new (pol_name policy) 1 ''action'' g]
           in (case d of
                 Allow \<Rightarrow> report_allow evals (pol_name policy) 1 r
               | Deny \<Rightarrow> report_deny_from_policy evals (pol_name policy) 1 r
               | Abstain \<Rightarrow> report_deny_without_match evals (Some ''No matching policy.''), [])))"

definition external_echo_execute :: "external_echo_action granted \<Rightarrow> execution_error + string" where
  "external_echo_execute granted = Ok (''external:'' @ echo_value (into_action granted))"

text \<open>The engine keeps the default \<open>grant\<close> of the trait, which is \<open>grant_with_engine\<close>.\<close>

definition external_echo :: "policy_context \<Rightarrow> string \<Rightarrow> world \<Rightarrow> (execution_error + string) \<times> world" where
  "external_echo ctx value w =
     (case grant_with_engine external_echo_decide external_echo_dyn ctx \<lparr>echo_value = value\<rparr> w of
        (Err e, w1) \<Rightarrow> (Err (ExecAuthorization e), w1)
      | (Ok granted, w1) \<Rightarrow> (external_echo_execute granted, w1))"

text \<open>Another crate can define access and consume a granted action: every value is echoed, under the
  next grant identifier, whatever the capabilities of the context.\<close>

lemma external_crate_can_define_access:
  "external_echo ctx value w = (Ok (''external:'' @ value), w\<lparr>next_grant_id := next_grant_id w + 1\<rparr>)"
  by (simp add: external_echo_def grant_with_engine_def external_echo_decide_def external_echo_dyn_def
      external_echo_execute_def AllowExternalEcho_def into_decision_and_reason_def report_allow_def
      fetch_grant_id_def granted_new_def into_action_def Let_def)

text \<open>The engine allows no action of other types.\<close>

lemma external_engine_denies_others:
  "action_type_of a \<noteq> TOtherAction ''ExternalEchoAction'' \<Longrightarrow>
   report_outcome (fst (external_echo_decide ctx a)) = OutcomeDeny NoMatchingPolicy (Some ''No matching policy.'')"
  by (cases a) (auto simp: external_echo_decide_def report_deny_without_match_def split: audit_resource.split)

end
