(* ===== verification/Monty_Host.thy ===== *)
theory Monty_Host
  imports Tool_Monty Access_Tests Temp_Workspace
begin

text \<open>
  The tests in \<open>crates/tool-monty/src/lib.rs\<close> and the host that they define: a third implementation
  of the host interface, whose contexts offer files and Monty sessions, but no network. The
  interpreter is a parameter, so a test is a function of it: true when all its assertions hold
  and nothing that it unwraps is an error. \<open>Monty_Tests\<close> shows that they hold.
\<close>

section \<open>The host\<close>

text \<open>\<open>TestKernel\<close>: its files and its session store are those of the world.\<close>

record monty_kernel =
  mk_tools :: "string \<Rightarrow> registered_tool option"
  mk_policy :: policy_pipeline

definition mk_append :: "action_type \<Rightarrow> policy_any \<Rightarrow> monty_kernel \<Rightarrow> monty_kernel" where
  "mk_append T p k = k\<lparr>mk_policy := pipeline_append T p (mk_policy k)\<rparr>"

definition mk_new :: monty_kernel where
  "mk_new =
     (let policy = pipeline_prepend_inbound CapabilityEnvelopePolicy pipeline_new;
          policy = pipeline_append TFsAction (box_policy as_fs_action AllowWorkspaceFsPolicy) policy;
          policy = pipeline_append TMontySessionLoadAction
            (box_policy as_session_load AllowMontySessionPolicy_load) policy;
          policy = pipeline_append TMontySessionSaveAction
            (box_policy as_session_save AllowMontySessionPolicy_save) policy
      in \<lparr>mk_tools = (\<lambda>_. None), mk_policy = policy\<rparr>)"

definition mk_register ::
  "nat \<Rightarrow> string \<Rightarrow> ('i, 'o) tool_impl \<Rightarrow> monty_kernel \<Rightarrow> (tool_error + unit) \<times> monty_kernel" where
  "mk_register now path tool k =
     (if mk_tools k path \<noteq> None then (Err (DuplicateTool (debug_str path)), k)
      else case registered_tool_from_tool no_spans now tool of
             Err e \<Rightarrow> (Err e, k)
           | Ok entry \<Rightarrow> (Ok (), k\<lparr>mk_tools := (mk_tools k)(path \<mapsto> entry)\<rparr>))"

definition mk_decode_tool_path :: "json \<Rightarrow> input_error + string" where
  "mk_decode_tool_path v = ok_or (InvalidField ''tool_path'') (as_str v)"

section \<open>The context\<close>

text \<open>\<open>TestToolContext\<close> without its reference to the kernel, which is an argument.\<close>

definition mk_context_new ::
  "file_system \<Rightarrow> string \<Rightarrow> tool_registration \<Rightarrow> invocation_params \<Rightarrow> authorization_error + tool_context" where
  "mk_context_new fsys path reg params =
     and_then (canonical_root_existing fsys (params_workspace_root params)) (\<lambda>root.
       let declared = capabilities_of (reg_spec reg);
           effective = (case capabilities_override params of Some caps \<Rightarrow> caps | None \<Rightarrow> declared)
       in Ok \<lparr>cx_tool_path = path, cx_registration = reg, cx_effective_capabilities = effective,
              cx_workspace_root = root\<rparr>)"

definition mk_workspace_root :: "tool_context \<Rightarrow> string" where
  "mk_workspace_root ctx = root_as_path (cx_workspace_root ctx)"

definition mk_policy_context :: "tool_context \<Rightarrow> policy_context" where
  "mk_policy_context ctx =
     \<lparr>ctx_capabilities = cx_effective_capabilities ctx,
      ctx_workspace_root = root_as_path (cx_workspace_root ctx)\<rparr>"

definition mk_fs :: "tool_context \<Rightarrow> world \<Rightarrow> fs_access exec" where
  "mk_fs ctx w = fs_access_new w (mk_workspace_root ctx) (mk_policy_context ctx)"

definition mk_monty_sessions :: "tool_context \<Rightarrow> session_access" where
  "mk_monty_sessions ctx = session_access_new (mk_workspace_root ctx) (mk_policy_context ctx)"

definition mk_invoke_tool ::
  "invoker \<Rightarrow> tool_context \<Rightarrow> string \<Rightarrow> capabilities option \<Rightarrow> json \<Rightarrow> world
   \<Rightarrow> (tool_error + tool_outcome) exec \<times> world" where
  "mk_invoke_tool nest ctx path caps_override payload w =
     (let record = record_nested_capability_override (cx_tool_path ctx)
            (tool_name (reg_spec (cx_registration ctx))) path (cx_effective_capabilities ctx);
          scope = (case caps_override of
            Some caps \<Rightarrow>
              if \<not> caps_contains (cx_effective_capabilities ctx) caps then Err caps
              else Ok (caps, False)
          | None \<Rightarrow> Ok (cx_effective_capabilities ctx, False))
      in case scope of
           Err caps \<Rightarrow>
             (Done (Err (ToolAuthorization (Denied (authorization_deny_new
                  ''nested invocation attempted to expand capabilities'')))),
              emit (record (Some caps) None True) w)
         | Ok (effective, attempted_expand) \<Rightarrow>
             nest path (invocation_params_new (mk_workspace_root ctx) (Some effective)) payload
               (emit (record caps_override (Some effective) attempted_expand) w))"

definition mk_with_fs ::
  "tool_context \<Rightarrow> (fs_access \<Rightarrow> world \<Rightarrow> 'r \<times> world) \<Rightarrow> world \<Rightarrow> 'r exec \<times> world" where
  "mk_with_fs ctx f w =
     (case mk_fs ctx w of
        Done acc \<Rightarrow> returned (f acc w)
      | Panicked msg \<Rightarrow> (Panicked msg, w)
      | OutOfFuel \<Rightarrow> (OutOfFuel, w))"

section \<open>Invocation\<close>

text \<open>A tool that fetches does not type-check for this host: its context has no network.\<close>

primrec mk_run ::
  "monty_kernel \<Rightarrow> invoker \<Rightarrow> tool_context \<Rightarrow> 'a tool_prog \<Rightarrow> world \<Rightarrow> (tool_error + 'a) exec \<times> world" where
  "mk_run k nest ctx (Return r) w = (Done r, w)"
| "mk_run k nest ctx (CallReadFile p c) w =
     continue (mk_with_fs ctx (\<lambda>acc. fs_access_read_file (mk_policy k) acc p) w)
       (\<lambda>r. mk_run k nest ctx (c r))"
| "mk_run k nest ctx (CallWriteFile p txt c) w =
     continue (mk_with_fs ctx (\<lambda>acc. fs_access_write_file (mk_policy k) acc p txt) w)
       (\<lambda>r. mk_run k nest ctx (c r))"
| "mk_run k nest ctx (CallFetchUrl u c) w = (Panicked ''no network access'', w)"
| "mk_run k nest ctx (CallSessionLoad s c) w =
     continue (returned (session_access_load (mk_policy k) (mk_monty_sessions ctx) s w))
       (\<lambda>r. mk_run k nest ctx (c r))"
| "mk_run k nest ctx (CallSessionSave s bs c) w =
     continue (returned (session_access_save (mk_policy k) (mk_monty_sessions ctx) s bs w))
       (\<lambda>r. mk_run k nest ctx (c r))"
| "mk_run k nest ctx (CallInvokeTool p caps j c) w =
     continue (mk_invoke_tool nest ctx p caps j w) (\<lambda>r. mk_run k nest ctx (c r))"
| "mk_run k nest ctx (EmitAudit evs p) w = mk_run k nest ctx p (emit evs w)"
| "mk_run k nest ctx (ToolPanics msg) w = (Panicked msg, w)"
| "mk_run k nest ctx StepBound w = (OutOfFuel, w)"

definition mk_invoke_with :: "monty_kernel \<Rightarrow> invoker \<Rightarrow> invoker" where
  "mk_invoke_with k nest path params payload w =
     (case mk_tools k path of
        None \<Rightarrow> (Done (Err (UnknownTool (debug_str path))), w)
      | Some entry \<Rightarrow>
          (case map_err ToolAuthorization
                  (mk_context_new (fs w) path (tool_registration_of entry) params) of
             Err e \<Rightarrow> (Done (Err e), w)
           | Ok ctx \<Rightarrow> mk_run k nest ctx (registered_tool_invoke entry ctx payload) w))"

primrec mk_invoke :: "nat \<Rightarrow> monty_kernel \<Rightarrow> invoker" where
  "mk_invoke 0 k = (\<lambda>path params payload w. (OutOfFuel, w))"
| "mk_invoke (Suc n) k = mk_invoke_with k (mk_invoke n k)"

section \<open>The tests\<close>

definition EchoTool :: "(json, tool_outcome) tool_impl" where
  "EchoTool =
     \<lparr>impl_spec = \<lparr>tool_name = ''echo'', description = ''Echo input.'', capabilities_of = caps_empty\<rparr>,
      impl_parse_input = (\<lambda>payload. Ok payload),
      impl_execute = (\<lambda>ctx input. Return (Ok \<lparr>out_payload = input, out_classification = WorkspaceLocal\<rparr>)),
      impl_into_outcome = (\<lambda>out. out)\<rparr>"

text \<open>\<open>payload[key]\<close>: null when there is no such entry.\<close>

definition json_index :: "string \<Rightarrow> json \<Rightarrow> json" where
  "json_index key v = (case json_get key v of Some x \<Rightarrow> x | None \<Rightarrow> JNull)"

text \<open>\<open>kernel.register(path, tool).unwrap()\<close>.\<close>

definition with_tool ::
  "nat \<Rightarrow> string \<Rightarrow> ('i, 'o) tool_impl \<Rightarrow> monty_kernel \<Rightarrow> (monty_kernel \<Rightarrow> bool) \<Rightarrow> bool" where
  "with_tool now path tool k rest =
     (let (result, k') = mk_register now path tool k in unwrapping result (\<lambda>_. rest k'))"

text \<open>\<open>invoke(&kernel, &DEFAULT_TOOL_NAME.to_string(), &params, payload).await.unwrap()\<close>.\<close>

definition invoking_monty ::
  "nat \<Rightarrow> monty_kernel \<Rightarrow> invocation_params \<Rightarrow> json \<Rightarrow> world \<Rightarrow> (tool_outcome \<Rightarrow> world \<Rightarrow> bool) \<Rightarrow> bool" where
  "invoking_monty depth k params payload w rest =
     (let (result, w') = mk_invoke depth k DEFAULT_TOOL_NAME params payload w
      in expecting result (\<lambda>r. unwrapping r (\<lambda>outcome. rest outcome w')))"

definition quote :: "string \<Rightarrow> string" where
  "quote s = [CHR 0x27] @ s @ [CHR 0x27]"

definition ECHO_CODE :: string where
  "ECHO_CODE = ''echo({'' @ quote ''message'' @ '': '' @ quote ''hello from monty'' @ ''})''"

definition READ_TEXT_CODE :: string where
  "READ_TEXT_CODE = ''from pathlib import Path'' @ [CHR 0x0A] @ ''Path('' @ quote ''hello.txt'' @ '').read_text()''"

definition monty_function_call_invokes_exposed_tool ::
  "nat \<Rightarrow> nat \<Rightarrow> nat \<Rightarrow> ('x, 'r, 's, 'l) monty_api \<Rightarrow> 'l \<Rightarrow> string \<Rightarrow> world \<Rightarrow> bool" where
  "monty_function_call_invokes_exposed_tool depth now bound api limits_new temp_dir w =
     with_tool now DEFAULT_TOOL_NAME
       (MontyTool bound api (monty_expose ''echo'' (JString ''echo'') (monty_tool_new limits_new))) mk_new (\<lambda>kernel.
     with_tool now ''echo'' EchoTool kernel (\<lambda>kernel.
     invoking_monty depth kernel (invocation_params_new temp_dir (Some (caps_from_slice [FsRead])))
       (json_object [(''code'', JString ECHO_CODE)]) w (\<lambda>outcome w.
     json_index ''message'' (json_index ''value'' (out_payload outcome)) = JString ''hello from monty''
     \<and> json_index ''session_id'' (out_payload outcome) = JString ''default''
     \<and> out_classification outcome = WorkspaceLocal)))"

definition monty_session_store_preserves_repl_state ::
  "nat \<Rightarrow> nat \<Rightarrow> nat \<Rightarrow> ('x, 'r, 's, 'l) monty_api \<Rightarrow> 'l \<Rightarrow> string \<Rightarrow> world \<Rightarrow> bool" where
  "monty_session_store_preserves_repl_state depth now bound api limits_new temp_dir w =
     with_tool now DEFAULT_TOOL_NAME (MontyTool bound api (monty_tool_new limits_new)) mk_new (\<lambda>kernel.
     let params = invocation_params_new temp_dir None in
     invoking_monty depth kernel params
       (json_object [(''session_id'', JString ''agent-main''), (''code'', JString ''x = 41'')]) w (\<lambda>first w.
     json_index ''session_id'' (out_payload first) = JString ''agent-main''
     \<and> invoking_monty depth kernel params
         (json_object [(''session_id'', JString ''agent-main''), (''code'', JString ''x + 1'')]) w (\<lambda>second w.
       json_index ''value'' (out_payload second) = JNumber (PosInt 42))))"

definition monty_os_call_invokes_os_tool_through_fs_access ::
  "nat \<Rightarrow> nat \<Rightarrow> nat \<Rightarrow> ('x, 'r, 's, 'l) monty_api \<Rightarrow> 'l \<Rightarrow> string \<Rightarrow> nat \<Rightarrow> int \<Rightarrow> u64 \<Rightarrow> world \<Rightarrow> bool" where
  "monty_os_call_invokes_os_tool_through_fs_access depth now bound api limits_new temp_dir pid clock next w =
     (let (made, next', fsys) =
        temp_workspace_with_prefix temp_dir pid clock ''monty-os-read-text'' (next, fs w)
      in expecting made (\<lambda>ws.
     let (written, fsys') = fs_write fsys (path_join (temp_root ws) ''hello.txt'') ''hello through os call''
     in unwrapping written (\<lambda>_.
     with_tool now DEFAULT_TOOL_NAME (MontyTool bound api (monty_tool_new limits_new)) mk_new (\<lambda>kernel.
     with_tool now DEFAULT_OS_TOOL_NAME MontyOsTool kernel (\<lambda>kernel.
     let kernel = mk_append TFsAction (box_policy as_fs_action AllowWorkspaceFsPolicy) kernel;
         kernel = mk_append TFsReadAction (box_policy as_fs_read AllowWorkspaceReadPolicy) kernel in
     invoking_monty depth kernel (invocation_params_new (temp_root ws) (Some (caps_from_slice [FsRead])))
       (json_object [(''code'', JString READ_TEXT_CODE)]) (w\<lparr>fs := fsys'\<rparr>) (\<lambda>outcome w.
     json_index ''value'' (out_payload outcome) = JString ''hello through os call''
     \<and> out_classification outcome = WorkspaceLocal))))))"

end
