(* ===== verification/Monty_Tests.thy ===== *)
theory Monty_Tests
  imports Monty_Host Host_Refinement Demo_Laws
begin

text \<open>
  The host of the tests of \<open>tool-monty\<close> refines the application, as an instance of the interface of
  \<open>Host_Refinement\<close>; so what invocations are served on the application they are served on it, and
  the three tests hold for every interpreter that runs their scripts as Python does.
\<close>

section \<open>The host as an instance\<close>

primrec network_free :: "'a tool_prog \<Rightarrow> bool" where
  "network_free (Return r) = True"
| "network_free (CallReadFile p k) = (\<forall>r. network_free (k r))"
| "network_free (CallWriteFile p c k) = (\<forall>r. network_free (k r))"
| "network_free (CallFetchUrl u k) = False"
| "network_free (CallSessionLoad s k) = (\<forall>r. network_free (k r))"
| "network_free (CallSessionSave s bs k) = (\<forall>r. network_free (k r))"
| "network_free (CallInvokeTool p c j k) = (\<forall>r. network_free (k r))"
| "network_free (EmitAudit evs p) = network_free p"
| "network_free (ToolPanics m) = True"
| "network_free StepBound = True"

lemma network_free_bind:
  "network_free p \<Longrightarrow> (\<And>r. network_free (f r)) \<Longrightarrow> network_free (bind_prog p f)"
  by (induction p) auto

lemma network_free_try:
  "network_free p \<Longrightarrow> (\<And>x. network_free (f x)) \<Longrightarrow> network_free (try_prog p f)"
  unfolding try_prog_def by (rule network_free_bind) (auto split: sum.splits)

lemma network_free_adapter:
  "(\<And>input. network_free (impl_execute inner ctx input)) \<Longrightarrow>
   network_free (adapter_invoke spans inner ctx payload)"
  by (auto simp: adapter_invoke_def Let_def split: sum.splits intro!: network_free_bind)

text \<open>The Monty tools stay off the network, whatever the interpreter does.\<close>

lemma network_free_advance:
  "(\<And>p. network_free (go p)) \<Longrightarrow> network_free (advance res go)"
  by (auto simp: advance_def split: sum.split)

lemma network_free_call_tool:
  "(\<And>c r. network_free (resume c r)) \<Longrightarrow> network_free (call_tool path payload c resume)"
  by (auto simp: call_tool_def Let_def split: sum.split)

lemma network_free_drive_loop: "network_free (drive_loop n api t c progress)"
  by (induction n arbitrary: c progress)
    (auto simp: Let_def split: repl_progress.split option.split sum.split
      intro!: network_free_advance network_free_call_tool)

lemma network_free_monty: "network_free (monty_execute bound api t ctx input)"
  by (auto simp: monty_execute_def drive_def monty_finish_def network_free_drive_loop
      split: sum.split intro!: network_free_try network_free_advance)

lemma network_free_monty_os: "network_free (monty_os_execute ctx input)"
  by (auto simp: monty_os_execute_def split: sum.split)

text \<open>The parts of the host are those of the application, written out once more.\<close>

lemma mk_parts:
  "mk_context_new = app_tool_context_new" "mk_workspace_root = cx_root"
  "mk_policy_context = cx_policy_context" "mk_fs = cx_fs" "mk_monty_sessions = cx_monty_sessions"
  by (simp_all add: fun_eq_iff mk_context_new_def app_tool_context_new_def mk_workspace_root_def
      cx_root_def mk_policy_context_def cx_policy_context_def mk_fs_def cx_fs_def
      mk_monty_sessions_def cx_monty_sessions_def)

lemma mk_calls:
  "mk_with_fs ctx f w = with_fs ctx f w"
  "mk_invoke_tool nest ctx p c j w = cx_invoke_tool nest ctx p c j w"
  by (simp_all add: mk_with_fs_def with_fs_def mk_invoke_tool_def cx_invoke_tool_def mk_parts
      nested_scope_event_def Let_def split: option.split)

definition mk_stands_for :: "monty_kernel \<Rightarrow> app \<Rightarrow> bool" where
  "mk_stands_for k a \<longleftrightarrow> app_policy a = mk_policy k"

lemma mk_run_as_app:
  assumes "mk_stands_for k a"
  shows "network_free p \<Longrightarrow> mk_run k nest ctx p = run_prog a nest ctx p"
  by (induction p) (use assms in \<open>auto intro!: ext simp: mk_calls mk_parts mk_stands_for_def\<close>)

interpretation monty: tool_host mk_tools mk_run mk_invoke network_free mk_stands_for
  by unfold_locales (simp_all add: mk_run_as_app mk_invoke_with_def mk_parts split: option.split sum.split)

definition monty_host_of :: "app \<Rightarrow> monty_kernel \<Rightarrow> bool" where
  "monty_host_of a k \<longleftrightarrow>
     mk_stands_for k a \<and> (\<forall>path. rel_option (same_tool network_free) (app_tools a path) (mk_tools k path))"

lemma monty_host_refines_app:
  "monty_host_of a k \<Longrightarrow>
   observe (mk_invoke n k path params payload w) = observe (app_invoke n a path params payload w)"
  by (auto simp: monty_host_of_def intro!: monty.invoke_refines)

section \<open>Hosts under construction\<close>

definition register_both :: "nat \<Rightarrow> string \<Rightarrow> ('i, 'o) tool_impl \<Rightarrow> app \<times> monty_kernel \<Rightarrow> app \<times> monty_kernel" where
  "register_both now path tool h =
     (snd (app_register now path tool (fst h)), snd (mk_register now path tool (snd h)))"

lemma register_both_fresh:
  assumes host: "monty_host_of a k" and fresh: "mk_tools k path = None" and name: "tool_name (impl_spec tool) \<noteq> []"
    and offered: "\<And>ctx input. network_free (impl_execute tool ctx input)"
    and both: "register_both now path tool (a, k) = (a', k')"
  shows "with_tool now path tool k rest = rest k'" and "monty_host_of a' k'"
    and "registered_at_path a' path tool" and "mk_policy k' = mk_policy k"
    and "mk_tools k' p = None \<longleftrightarrow> p \<noteq> path \<and> mk_tools k p = None"
    and "p \<noteq> path \<Longrightarrow> registered_at_path a p tool' \<Longrightarrow> registered_at_path a' p tool'"
proof -
  let ?r = "\<lparr>reg_spec = impl_spec tool, registered_at = now\<rparr>"
  have none: "app_tools a path = None"
    using host fresh by (metis monty_host_of_def option.rel_distinct(2) option.exhaust)
  then have a': "a' = a\<lparr>app_tools := (app_tools a)(path \<mapsto>
      \<lparr>tool_registration_of = ?r, tool_adapter = adapter_invoke app_spans tool\<rparr>)\<rparr>"
    and k': "k' = k\<lparr>mk_tools := (mk_tools k)(path \<mapsto>
      \<lparr>tool_registration_of = ?r, tool_adapter = adapter_invoke no_spans tool\<rparr>)\<rparr>"
    using both fresh name
    by (simp_all add: register_both_def app_register_def mk_register_def registered_tool_from_tool_def
        tool_registration_new_def)
  show "with_tool now path tool k rest = rest k'"
    using fresh name
    by (simp add: k' with_tool_def mk_register_def registered_tool_from_tool_def tool_registration_new_def
        unwrapping_def)
  have "same_tool network_free
      \<lparr>tool_registration_of = ?r, tool_adapter = adapter_invoke app_spans tool\<rparr>
      \<lparr>tool_registration_of = ?r, tool_adapter = adapter_invoke no_spans tool\<rparr>"
    using network_free_adapter [OF offered] strip_adapter by (auto simp: same_tool_def)
  with host show "monty_host_of a' k'"
    by (simp add: a' k' monty_host_of_def mk_stands_for_def app_policy_def)
  show "registered_at_path a' path tool" by (simp add: a' registered_at_path_def)
  show "mk_policy k' = mk_policy k" by (simp add: k')
  show "mk_tools k' p = None \<longleftrightarrow> p \<noteq> path \<and> mk_tools k p = None" by (simp add: k')
  show "p \<noteq> path \<Longrightarrow> registered_at_path a p tool' \<Longrightarrow> registered_at_path a' p tool'"
    by (simp add: a' registered_at_path_def)
qed

text \<open>An application with the policies of a host, without tools.\<close>

definition bare_app :: "policy_pipeline \<Rightarrow> app" where
  "bare_app pl = \<lparr>app_kernel = \<lparr>runtime_network = DenyNetworkBackend, runtime_policy = pl\<rparr>, app_tools = (\<lambda>_. None)\<rparr>"

lemma bare_app_host: "monty_host_of (bare_app (mk_policy mk_new)) mk_new"
  by (simp add: monty_host_of_def mk_stands_for_def bare_app_def app_policy_def mk_new_def Let_def)

lemma mk_new_tools: "mk_tools mk_new p = None"
  by (simp add: mk_new_def Let_def)

lemma invoking_monty_ends:
  assumes "monty_host_of a k" and "ends (app_invoke n a DEFAULT_TOOL_NAME params payload w) (Ok out) fsys st"
    and "\<And>w1. fs w1 = fsys \<Longrightarrow> sessions w1 = st \<Longrightarrow> rest out w1"
  shows "invoking_monty n k params payload w rest"
proof -
  from assms(2) obtain w1 where "app_invoke n a DEFAULT_TOOL_NAME params payload w = (Done (Ok out), w1)"
    and st: "fs w1 = fsys" "sessions w1 = st" by (auto simp: ends_def yields_def)
  with monty_host_refines_app [OF assms(1), of n DEFAULT_TOOL_NAME params payload w] obtain w2 where
    "mk_invoke n k DEFAULT_TOOL_NAME params payload w = (Done (Ok out), w2)" "unlogged w2 = unlogged w1"
    by (cases "mk_invoke n k DEFAULT_TOOL_NAME params payload w") auto
  with assms(3) [of w2] st show ?thesis
    by (simp add: invoking_monty_def expecting_def unwrapping_def unlogged_eq_iff)
qed

lemma monty_host_append:
  "monty_host_of a k \<Longrightarrow> monty_host_of (app_register_policy (Append T p) a) (mk_append T p k)"
  "mk_policy (mk_append T p k) = pipeline_append T p (mk_policy k)"
  "registered_at_path (app_register_policy (Append T p) a) path tool \<longleftrightarrow> registered_at_path a path tool"
  by (simp_all add: monty_host_of_def mk_stands_for_def app_register_policy_def app_policy_def mk_append_def
      registered_at_path_def)

lemma host_policy: "monty_host_of a k \<Longrightarrow> app_policy a = mk_policy k"
  by (simp add: monty_host_of_def mk_stands_for_def)

section \<open>Policies\<close>

definition reading_policy :: policy_pipeline where
  "reading_policy =
     pipeline_append TFsReadAction (box_policy as_fs_read AllowWorkspaceReadPolicy)
       (pipeline_append TFsAction (box_policy as_fs_action AllowWorkspaceFsPolicy) (mk_policy mk_new))"

lemma mk_new_entries:
  "inbound_policies (registry (mk_policy mk_new)) = [\<lparr>reg_id = 1, reg_inner = CapabilityEnvelopePolicy\<rparr>]"
  "typed_policies (mk_policy mk_new) (ActSessionLoad sl) =
     [\<lparr>reg_id = 3, reg_inner = box_policy as_session_load AllowMontySessionPolicy_load\<rparr>]"
  "typed_policies (mk_policy mk_new) (ActSessionSave ss) =
     [\<lparr>reg_id = 4, reg_inner = box_policy as_session_save AllowMontySessionPolicy_save\<rparr>]"
  by (simp_all add: mk_new_def pipeline_op_defs registry_op_defs
      pipeline_new_def registry_new_def inbound_policies_def typed_policies_def Let_def)

lemma reading_policy_entries:
  "inbound_policies (registry reading_policy) = [\<lparr>reg_id = 1, reg_inner = CapabilityEnvelopePolicy\<rparr>]"
  "typed_policies reading_policy (ActFs f) =
     [\<lparr>reg_id = 2, reg_inner = box_policy as_fs_action AllowWorkspaceFsPolicy\<rparr>,
      \<lparr>reg_id = 5, reg_inner = box_policy as_fs_action AllowWorkspaceFsPolicy\<rparr>]"
  "typed_policies reading_policy (ActFsRead rd) =
     [\<lparr>reg_id = 6, reg_inner = box_policy as_fs_read AllowWorkspaceReadPolicy\<rparr>]"
  "typed_policies reading_policy (ActSessionLoad sl) =
     [\<lparr>reg_id = 3, reg_inner = box_policy as_session_load AllowMontySessionPolicy_load\<rparr>]"
  "typed_policies reading_policy (ActSessionSave ss) =
     [\<lparr>reg_id = 4, reg_inner = box_policy as_session_save AllowMontySessionPolicy_save\<rparr>]"
  by (simp_all add: reading_policy_def mk_new_def pipeline_op_defs registry_op_defs
      pipeline_new_def registry_new_def inbound_policies_def typed_policies_def Let_def)

lemmas decisions =
  specified_outcome_def answer_def verdict_def CapabilityEnvelopePolicy_def
  decision_capability_envelope action_capabilities_defs box_policy_def

lemma mk_new_sessions:
  assumes "monty_host_of a k" and "mk_policy k = mk_policy mk_new"
  shows "sessions_allowed a"
  using assms
  by (simp add: sessions_allowed_def host_policy decisions mk_new_entries AllowMontySessionPolicy_load_def
      AllowMontySessionPolicy_save_def)

lemma reading_policy_allows:
  assumes "monty_host_of a k" and "mk_policy k = reading_policy" and "\<forall>n \<in> set (rs @ [x]). good_name n"
  shows "sessions_allowed a"
    and "allowed_in a (policy_at rs caps) (ActFs (fs_action_new (canonical_at (rs @ [x]))))"
    and "allows caps FsRead \<Longrightarrow> allowed_in a (policy_at rs caps) (ActFsRead \<lparr>read_path = canonical_at (rs @ [x])\<rparr>)"
  using assms
  by (simp_all add: sessions_allowed_def allowed_in_def host_policy decisions reading_policy_entries
      AllowMontySessionPolicy_load_def AllowMontySessionPolicy_save_def AllowWorkspaceFsPolicy_def
      AllowWorkspaceReadPolicy_def policy_at_def canonical_at_def fs_action_new_def path_starts_with_names allows_def)

section \<open>A script that calls the exposed tool\<close>

text \<open>The interpreter may look the name up before the call.\<close>

definition hello_object :: "'x monty_object" where
  "hello_object = MDict [(MString ''message'', MString ''hello from monty'')]"

definition hello_json :: json where
  "hello_json = json_object [(''message'', JString ''hello from monty'')]"

definition calls_echo :: "('x, 'r, 's, 'l) monty_api \<Rightarrow> string + ('x, 'r, 's) repl_progress \<Rightarrow> 's \<Rightarrow> bool" where
  "calls_echo api p s \<longleftrightarrow>
     p = Ok (FunctionCall False ''echo'' [hello_object] [] s)
     \<or> (\<exists>s0. p = Ok (NameLookup ''echo'' s0)
          \<and> api_resume_lookup api s0 (LookupValue (MFunction ''echo'' None))
            = Ok (FunctionCall False ''echo'' [hello_object] [] s))"

definition runs_echo_script :: "('x, 'r, 's, 'l) monty_api \<Rightarrow> 'l \<Rightarrow> bool" where
  "runs_echo_script api l \<longleftrightarrow>
     (\<exists>s repl bs. calls_echo api (api_feed_start api (api_new api ''<agent-monty>'' l) ECHO_CODE) s
        \<and> api_resume_call api s (ExtReturn hello_object) = Ok (Complete repl hello_object)
        \<and> api_dump api repl = Ok bs)"

lemma echo_tool_ends:
  assumes "plain_workspace (fs w) rs" and "registered_at_path a path EchoTool"
  shows "ends (app_invoke (Suc n) a path (params_at rs caps) payload w)
    (Ok \<lparr>out_payload = payload, out_classification = WorkspaceLocal\<rparr>) (fs w) (sessions w)"
proof -
  from assms(2) obtain reg where tool: "app_tools a path
      = Some \<lparr>tool_registration_of = reg, tool_adapter = adapter_invoke app_spans EchoTool\<rparr>"
    by (auto simp: registered_at_path_def)
  have input: "impl_parse_input EchoTool payload = Ok payload" by (simp add: EchoTool_def)
  have "ends (run_prog a (app_invoke n a) (at_workspace path reg caps rs)
        (impl_execute EchoTool (at_workspace path reg caps rs) payload) w1)
      (Ok \<lparr>out_payload = payload, out_classification = WorkspaceLocal\<rparr>) (fs w) (sessions w)"
    if "fs w1 = fs w" "sessions w1 = sessions w" for w1
    using that by (simp add: EchoTool_def ends_return)
  from invocation_ends [OF assms(1) tool input this] show ?thesis by (simp add: EchoTool_def)
qed

definition echo_step :: "'r \<Rightarrow> ('x, 'r) monty_step_output" where
  "echo_step repl = \<lparr>step_repl = repl, step_value = hello_object, step_classification = WorkspaceLocal\<rparr>"

lemma hello_decoded: "json_to_monty hello_json = Ok hello_object"
  by (simp add: hello_json_def hello_object_def json_object_def)

lemma echo_drive_ends:
  assumes ws: "plain_workspace (fs w) rs" and echo: "registered_at_path a ''echo'' EchoTool"
    and exposed: "exposed_tools t ''echo'' = Some (JString ''echo'')"
    and start: "calls_echo api (api_feed_start api repl0 ECHO_CODE) s"
    and resume: "api_resume_call api s (ExtReturn hello_object) = Ok (Complete repl hello_object)"
  shows "ends (run_prog a (app_invoke (Suc n) a) (at_workspace path reg caps rs)
      (drive (3 + bound) api t repl0 ECHO_CODE) w) (Ok (echo_step repl)) (fs w) (sessions w)"
proof -
  have payload: "monty_tool_payload api [hello_object] [] = Ok hello_json"
    by (simp add: monty_tool_payload_def hello_object_def hello_json_def object_entry_def json_object_def Let_def)

  have "ends (cx_invoke_tool (app_invoke (Suc n) a) (at_workspace path reg caps rs) ''echo'' None hello_json w)
      (Ok \<lparr>out_payload = hello_json, out_classification = WorkspaceLocal\<rparr>) (fs w) (sessions w)"
  proof (rule nested_ends)
    fix w1 :: world assume "fs w1 = fs w" "sessions w1 = sessions w"
    with echo_tool_ends [of w1 rs a "''echo''" n caps hello_json] ws echo
    show "ends (app_invoke (Suc n) a ''echo'' (params_at rs caps) hello_json w1)
        (Ok \<lparr>out_payload = hello_json, out_classification = WorkspaceLocal\<rparr>) (fs w) (sessions w)" by simp
  qed
  then have call: "ends (run_prog a (app_invoke (Suc n) a) (at_workspace path reg caps rs)
      (drive_loop (Suc (Suc m)) api t Public (FunctionCall False ''echo'' [hello_object] [] s)) w)
      (Ok (echo_step repl)) (fs w) (sessions w)" for m
    by (simp add: exposed payload call_tool_def decode_tool_path_def ok_or_def Let_def del: app_invoke.simps)
      (rule ends_continue, assumption, simp add: hello_decoded resume merge_classification_def advance_Ok echo_step_def
        ends_return Let_def del: app_invoke.simps)
  have bound: "3 + bound = Suc (Suc (Suc bound))" by simp
  from start show ?thesis
    unfolding calls_echo_def drive_def bound
    using call [of "Suc bound"] call [of bound]
    by (auto simp: advance_Ok exposed simp del: app_invoke.simps drive_loop.simps)
      (simp add: advance_Ok exposed drive_loop.simps(2) [of "Suc (Suc bound)"] del: app_invoke.simps drive_loop.simps)
qed

section \<open>The tests hold\<close>

lemma monty_specs:
  "tool_name (impl_spec (MontyTool bound api t)) = monty_name t"
  "tool_name (impl_spec MontyOsTool) = DEFAULT_OS_TOOL_NAME"
  "tool_name (impl_spec EchoTool) = ''echo''"
  "monty_name (monty_tool_new l) = DEFAULT_TOOL_NAME"
  "monty_name (monty_expose name path t) = monty_name t"
  "network_free (impl_execute (MontyTool bound api t) ctx input)"
  "network_free (impl_execute MontyOsTool ctx input')"
  "network_free (impl_execute EchoTool ctx payload)"
  by (simp_all add: MontyTool_def MontyOsTool_def EchoTool_def monty_spec_def monty_os_spec_def monty_tool_new_def
      monty_expose_def network_free_monty network_free_monty_os)

text \<open>A host with the Monty tool, and the application that it stands for.\<close>

lemma monty_registered:
  assumes "monty_name t \<noteq> []"
  obtains a k where "monty_host_of a k" and "mk_policy k = mk_policy mk_new"
    and "registered_at_path a DEFAULT_TOOL_NAME (MontyTool bound api t)"
    and "\<And>p. p \<noteq> DEFAULT_TOOL_NAME \<Longrightarrow> mk_tools k p = None"
    and "\<And>rest. with_tool now DEFAULT_TOOL_NAME (MontyTool bound api t) mk_new rest = rest k"
proof -
  obtain a k where both: "register_both now DEFAULT_TOOL_NAME (MontyTool bound api t)
      (bare_app (mk_policy mk_new), mk_new) = (a, k)" by fastforce
  from register_both_fresh [OF bare_app_host mk_new_tools _ monty_specs(6) both] assms
  show ?thesis by (intro that [of a k]) (simp_all add: monty_specs mk_new_tools)
qed

lemma with_second_tool:
  assumes "monty_host_of a k" and "registered_at_path a DEFAULT_TOOL_NAME monty" and "mk_tools k path = None"
    and "path \<noteq> DEFAULT_TOOL_NAME" and "tool_name (impl_spec tool) \<noteq> []"
    and "\<And>ctx input. network_free (impl_execute tool ctx input)"
  obtains a' k' where "monty_host_of a' k'" and "mk_policy k' = mk_policy k"
    and "registered_at_path a' DEFAULT_TOOL_NAME monty" and "registered_at_path a' path tool"
    and "\<And>rest. with_tool now path tool k rest = rest k'"
proof -
  obtain a' k' where both: "register_both now path tool (a, k) = (a', k')" by fastforce
  from register_both_fresh [OF assms(1,3,5,6) both] register_both_fresh(6) [OF assms(1,3,5,6) both _ assms(2)] assms(4)
  show ?thesis by (intro that [of a' k']) simp_all
qed

lemma monty_payload_parsed:
  "monty_parse_input (json_object [(''code'', JString code)])
    = Ok \<lparr>input_code = code, input_session_id = ''default''\<rparr>"
  "monty_parse_input (json_object [(''session_id'', JString sid), (''code'', JString code)])
    = Ok \<lparr>input_code = code, input_session_id = sid\<rparr>"
  by (simp_all add: monty_parse_input_def json_object_def get_str_def ok_or_def Let_def)

lemma monty_open_new: "monty_limits t = l \<Longrightarrow> monty_open_session api t None = Ok (api_new api ''<agent-monty>'' l)"
  by (simp add: monty_open_session_def)

lemma monty_outcome_parts:
  "json_index ''value'' (out_payload (monty_outcome v sid cls)) = v"
  "json_index ''session_id'' (out_payload (monty_outcome v sid cls)) = JString sid"
  "out_classification (monty_outcome v sid cls) = cls"
  by (simp_all add: monty_outcome_def json_index_def json_object_def)

lemma hello_message: "json_index ''message'' hello_json = JString ''hello from monty''"
  by (simp add: hello_json_def json_index_def json_object_def)

lemma function_call_test:
  assumes ws: "plain_workspace (fs w) ts" and script: "runs_echo_script api l"
    and fresh: "\<not> poisoned (sessions w)" "load_raw (sessions w) (workspace_key ts ''default'') = Ok None"
  shows "monty_function_call_invokes_exposed_tool (Suc (Suc n)) now (3 + bound) api l (path_of_names ts) w"
proof -
  let ?t = "monty_expose ''echo'' (JString ''echo'') (monty_tool_new l)"
  obtain a k where host: "monty_host_of a k" "mk_policy k = mk_policy mk_new"
    and tool: "registered_at_path a DEFAULT_TOOL_NAME (MontyTool (3 + bound) api ?t)"
    and free: "\<And>p. p \<noteq> DEFAULT_TOOL_NAME \<Longrightarrow> mk_tools k p = None"
    and first: "\<And>rest. with_tool now DEFAULT_TOOL_NAME (MontyTool (3 + bound) api ?t) mk_new rest = rest k"
    by (rule monty_registered [of ?t "3 + bound" api now]) (simp_all add: monty_specs DEFAULT_TOOL_NAME_def)
  obtain a' k' where host': "monty_host_of a' k'" "mk_policy k' = mk_policy k"
    and tools: "registered_at_path a' DEFAULT_TOOL_NAME (MontyTool (3 + bound) api ?t)" "registered_at_path a' ''echo'' EchoTool"
    and second: "\<And>rest. with_tool now ''echo'' EchoTool k rest = rest k'"
    by (rule with_second_tool [OF host(1) tool, of "''echo''" EchoTool now])
      (simp_all add: free monty_specs DEFAULT_TOOL_NAME_def)
  from script obtain s repl bs where
    s: "calls_echo api (api_feed_start api (api_new api ''<agent-monty>'' l) ECHO_CODE) s"
    and resume: "api_resume_call api s (ExtReturn hello_object) = Ok (Complete repl hello_object)"
    and dump: "api_dump api repl = Ok bs" unfolding runs_echo_script_def by blast
  have exposed: "exposed_tools ?t ''echo'' = Some (JString ''echo'')" by (simp add: monty_expose_def)
  have open_session: "monty_open_session api ?t None = Ok (api_new api ''<agent-monty>'' l)"
    by (rule monty_open_new) (simp add: monty_expose_def monty_tool_new_def)
  have loop: "ends (run_prog a' (app_invoke (Suc n) a') (at_workspace DEFAULT_TOOL_NAME reg caps ts)
        (drive (3 + bound) api ?t (api_new api ''<agent-monty>'' l) ECHO_CODE) w1)
        (Ok (echo_step repl)) (fs w) (sessions w)" if "fs w1 = fs w" "sessions w1 = sessions w" for reg w1 caps
    using echo_drive_ends [of w1 ts, OF _ tools(2) exposed s resume] ws that by simp
  have step: "api_dump api (step_repl (echo_step repl)) = Ok bs"
    "monty_to_json api (step_value (echo_step repl)) = Ok hello_json"
    by (simp_all add: dump echo_step_def hello_object_def hello_json_def object_entry_def)
  have "mk_policy k' = mk_policy mk_new" by (simp add: host'(2) host(2))
  from monty_invocation_ends [OF ws tools(1) monty_payload_parsed(1) mk_new_sessions [OF host'(1) this] fresh
      open_session loop step]
  have ended: "ends (app_invoke (Suc (Suc n)) a' DEFAULT_TOOL_NAME (params_at ts caps)
      (json_object [(''code'', JString ECHO_CODE)]) w) (Ok (monty_outcome hello_json ''default'' WorkspaceLocal)) (fs w)
      (snd (save_raw (sessions w) (workspace_key ts ''default'') bs))" for caps
    by (simp add: echo_step_def del: app_invoke.simps)
  show ?thesis
    unfolding monty_function_call_invokes_exposed_tool_def first second params_at_def [symmetric]
    by (rule invoking_monty_ends [OF host'(1) ended])
      (simp add: monty_outcome_parts hello_message)
qed

text \<open>A script that assigns a variable, and one that reads it from the restored session.\<close>

definition runs_assignment_scripts :: "('x, 'r, 's, 'l) monty_api \<Rightarrow> 'l \<Rightarrow> bool" where
  "runs_assignment_scripts api l \<longleftrightarrow>
     (\<exists>r1 bs1 r1' r2 bs2.
        api_feed_start api (api_new api ''<agent-monty>'' l) ''x = 41'' = Ok (Complete r1 MNone)
      \<and> api_dump api r1 = Ok bs1
      \<and> api_load api bs1 = Ok r1'
      \<and> api_feed_start api r1' ''x + 1'' = Ok (Complete r2 (MInt 42))
      \<and> api_dump api r2 = Ok bs2)"

text \<open>Without an override an invocation has the capabilities that the tool declares.\<close>

lemma declared_params:
  assumes "registered_at_path a path tool"
  obtains caps where "\<And>rs payload w.
    app_invoke (Suc n) a path (invocation_params_new (path_of_names rs) None) payload w
    = app_invoke (Suc n) a path (params_at rs caps) payload w"
proof -
  from assms obtain reg where "app_tools a path
      = Some \<lparr>tool_registration_of = reg, tool_adapter = adapter_invoke app_spans tool\<rparr>"
    by (auto simp: registered_at_path_def)
  then show ?thesis
    by (intro that [of "capabilities_of (reg_spec reg)"])
      (simp add: app_invoke_with_def app_tool_context_new_def params_at_def invocation_params_new_def)
qed

lemma completing_drive_ends:
  assumes "api_feed_start api repl0 code = Ok (Complete repl v)"
  shows "ends (run_prog a nest ctx (drive (Suc bound) api t repl0 code) w)
    (Ok \<lparr>step_repl = repl, step_value = v, step_classification = Public\<rparr>) (fs w) (sessions w)"
  using assms by (simp add: drive_def advance_Ok ends_return)

lemma session_state_test:
  assumes ws: "plain_workspace (fs w) ts" and script: "runs_assignment_scripts api l"
    and fresh: "\<not> poisoned (sessions w)" "load_raw (sessions w) (workspace_key ts ''agent-main'') = Ok None"
  shows "monty_session_store_preserves_repl_state (Suc n) now (Suc bound) api l (path_of_names ts) w"
proof -
  let ?t = "monty_tool_new l" and ?key = "workspace_key ts ''agent-main''"
  obtain a k where host: "monty_host_of a k" "mk_policy k = mk_policy mk_new"
    and tool: "registered_at_path a DEFAULT_TOOL_NAME (MontyTool (Suc bound) api ?t)"
    and first: "\<And>rest. with_tool now DEFAULT_TOOL_NAME (MontyTool (Suc bound) api ?t) mk_new rest = rest k"
    by (rule monty_registered [of ?t "Suc bound" api now]) (simp_all add: monty_specs DEFAULT_TOOL_NAME_def)
  from script obtain r1 bs1 r1' r2 bs2 where
    run1: "api_feed_start api (api_new api ''<agent-monty>'' l) ''x = 41'' = Ok (Complete r1 MNone)"
    and dump1: "api_dump api r1 = Ok bs1" and load: "api_load api bs1 = Ok r1'"
    and run2: "api_feed_start api r1' ''x + 1'' = Ok (Complete r2 (MInt 42))" and dump2: "api_dump api r2 = Ok bs2"
    unfolding runs_assignment_scripts_def by blast
  obtain caps where params: "\<And>rs payload w. app_invoke (Suc n) a DEFAULT_TOOL_NAME
      (invocation_params_new (path_of_names rs) None) payload w
    = app_invoke (Suc n) a DEFAULT_TOOL_NAME (params_at rs caps) payload w"
    using declared_params [OF tool] by blast
  let ?st = "snd (save_raw (sessions w) ?key bs1)"
  have stored: "\<not> poisoned ?st" "load_raw ?st ?key = Ok (Some bs1)"
    using fresh(1) by (simp_all add: save_raw_def load_raw_def)
  have new: "monty_open_session api ?t None = Ok (api_new api ''<agent-monty>'' l)"
    by (rule monty_open_new) (simp add: monty_tool_new_def)
  have restored: "monty_open_session api ?t (Some bs1) = Ok r1'"
    by (simp add: monty_open_session_def load)
  note sessions_ok = mk_new_sessions [OF host]
  have loop1: "ends (run_prog a (app_invoke n a) (at_workspace DEFAULT_TOOL_NAME reg c ts)
        (drive (Suc bound) api ?t (api_new api ''<agent-monty>'' l) ''x = 41'') w1)
        (Ok \<lparr>step_repl = r1, step_value = MNone, step_classification = Public\<rparr>) (fs w) (sessions w)"
    if "fs w1 = fs w" "sessions w1 = sessions w" for reg w1 c
    using completing_drive_ends [OF run1, where w = w1] that by simp
  from monty_invocation_ends [OF ws tool monty_payload_parsed(2) sessions_ok fresh new loop1, of bs1 JNull] dump1
  have ended1: "ends (app_invoke (Suc n) a DEFAULT_TOOL_NAME (params_at ts caps)
      (json_object [(''session_id'', JString ''agent-main''), (''code'', JString ''x = 41'')]) w)
      (Ok (monty_outcome JNull ''agent-main'' Public)) (fs w) ?st"
    by (simp del: app_invoke.simps)
  have ended2: "ends (app_invoke (Suc n) a DEFAULT_TOOL_NAME (params_at ts caps)
      (json_object [(''session_id'', JString ''agent-main''), (''code'', JString ''x + 1'')]) w1)
      (Ok (monty_outcome (JNumber (PosInt 42)) ''agent-main'' Public)) (fs w) (snd (save_raw ?st ?key bs2))"
    if at: "fs w1 = fs w" "sessions w1 = ?st" for w1
  proof -
    have loop2: "ends (run_prog a (app_invoke n a) (at_workspace DEFAULT_TOOL_NAME reg c ts)
          (drive (Suc bound) api ?t r1' ''x + 1'') w2)
          (Ok \<lparr>step_repl = r2, step_value = MInt 42, step_classification = Public\<rparr>) (fs w1) (sessions w1)"
      if "fs w2 = fs w1" "sessions w2 = sessions w1" for reg w2 c
      using completing_drive_ends [OF run2, where w = w2] that by simp
    have there: "plain_workspace (fs w1) ts" "\<not> poisoned (sessions w1)" "load_raw (sessions w1) ?key = Ok (Some bs1)"
      using ws stored by (simp_all add: at)
    have "monty_to_json api (MInt 42) = Ok (JNumber (PosInt 42))" by (simp add: number_from_i64_def)
    with monty_invocation_ends [OF there(1) tool monty_payload_parsed(2) sessions_ok there(2,3) restored loop2, of bs2] dump2
    show ?thesis by (simp add: at del: app_invoke.simps)
  qed
  show ?thesis
    unfolding monty_session_store_preserves_repl_state_def first Let_def
    by (rule invoking_monty_ends [OF host(1) ended1 [folded params]], rule conjI, rule monty_outcome_parts(2))
      (rule invoking_monty_ends [OF host(1) ended2 [folded params]], assumption, assumption,
       simp add: monty_outcome_parts)
qed

text \<open>A script that reads a file through the OS tool, in a temporary workspace.\<close>

definition os_text :: string where
  "os_text = ''hello through os call''"

definition runs_read_script :: "('x, 'r, 's, 'l) monty_api \<Rightarrow> 'l \<Rightarrow> bool" where
  "runs_read_script api l \<longleftrightarrow>
     (\<exists>s repl bs. api_feed_start api (api_new api ''<agent-monty>'' l) READ_TEXT_CODE = read_hello s
        \<and> api_resume_call api s (ExtReturn (MString os_text)) = Ok (Complete repl (MString os_text))
        \<and> api_dump api repl = Ok bs)"

definition os_step :: "'r \<Rightarrow> ('x, 'r) monty_step_output" where
  "os_step repl = \<lparr>step_repl = repl, step_value = MString os_text, step_classification = WorkspaceLocal\<rparr>"

lemma os_drive_ends:
  assumes there: "hello_stored (fs w) rs os_text" and os: "registered_at_path a DEFAULT_OS_TOOL_NAME MontyOsTool"
    and allowed: "allowed_in a (policy_at rs caps) (ActFs (fs_action_new (canonical_at (rs @ [''hello.txt'']))))"
      "allowed_in a (policy_at rs caps) (ActFsRead \<lparr>read_path = canonical_at (rs @ [''hello.txt''])\<rparr>)"
    and t: "os_tool_path t = JString DEFAULT_OS_TOOL_NAME"
    and start: "api_feed_start api repl0 READ_TEXT_CODE = read_hello s"
    and resume: "api_resume_call api s (ExtReturn (MString os_text)) = Ok (Complete repl (MString os_text))"
  shows "ends (run_prog a (app_invoke (Suc n) a) (at_workspace path reg caps rs)
      (drive (Suc (Suc bound)) api t repl0 READ_TEXT_CODE) w) (Ok (os_step repl)) (fs w) (sessions w)"
proof -
  have call: "ends (app_invoke (Suc n) a ''monty_os'' (params_at rs caps) read_hello_payload w1)
      (Ok \<lparr>out_payload = JString os_text, out_classification = WorkspaceLocal\<rparr>) (fs w1) (sessions w1)"
    if "fs w1 = fs w" for w1
    using monty_os_read_ends [OF _ good_hello _ _ os allowed, of w1 os_text n] hello_storedD [OF there] that
    by (simp add: read_hello_payload_def DEFAULT_OS_TOOL_NAME_def)
  have after: "ends (run_prog a (app_invoke (Suc n) a) (at_workspace path reg caps rs)
      (advance (api_resume_call api s (ExtReturn (MString os_text))) (drive_loop (Suc bound) api t WorkspaceLocal)) w1)
      (Ok (os_step repl)) (fs w1) (sessions w1)" for w1
    by (simp add: resume advance_Ok os_step_def ends_return)
  show ?thesis
    unfolding drive_def start
    by (rule hello_call_ends [where fsys = "fs w", OF _ _ call after refl])
      (simp_all add: t DEFAULT_OS_TOOL_NAME_def)
qed

text \<open>The workspace of the test with its file.\<close>

lemma os_workspace:
  assumes ws: "plain_workspace fsys ts" and clock: "0 \<le> clock"
    and free: "nodes fsys (ts @ [temp_workspace_name ''monty-os-read-text'' pid next clock]) = None"
  obtains rs fs1 fs2 where
    "temp_workspace_with_prefix (path_of_names ts) pid clock ''monty-os-read-text'' (next, fsys)
      = (Done \<lparr>temp_root = path_of_names rs\<rparr>, next + 1, fs1)"
    and "fs_write fs1 (path_join (path_of_names rs) ''hello.txt'') os_text = (Ok (), fs2)"
    and "hello_stored fs2 rs os_text"
proof -
  let ?x = "temp_workspace_name ''monty-os-read-text'' pid next clock"
  let ?rs = "ts @ [?x]" and ?fs1 = "fsys\<lparr>nodes := (nodes fsys)(ts @ [?x] \<mapsto> Directory)\<rparr>"
  have x: "good_name ?x" by (rule temp_workspace_name_good) simp
  have made: "temp_workspace_with_prefix (path_of_names ts) pid clock ''monty-os-read-text'' (next, fsys)
      = (Done \<lparr>temp_root = path_of_names ?rs\<rparr>, next + 1, ?fs1)"
    using temp_workspace_created [OF ws _ clock free] by simp
  have ws1: "plain_workspace ?fs1 ?rs" by (rule temp_workspace_plain(1) [OF ws x free])
  have free1: "nodes ?fs1 (?rs @ [''hello.txt'']) = None"
    using free tree_wf_free_below [of "nodes fsys" ?rs "?rs @ [''hello.txt'']"] ws
    by (simp add: plain_workspace_def fs_wf_def)
  let ?fs2 = "?fs1\<lparr>nodes := (nodes ?fs1)(?rs @ [''hello.txt''] \<mapsto> RegularFile os_text)\<rparr>"
  have written: "fs_write ?fs1 (path_join (path_of_names ?rs) ''hello.txt'') os_text = (Ok (), ?fs2)"
    using write_free [OF ws1 good_hello free1, of os_text]
      path_join_name [OF good_hello plain_workspace_names [OF ws1]]
    by (simp add: write_canonical_Ok canonical_at_def)
  have "valid_utf8 os_text" unfolding os_text_def by code_simp
  with plain_workspace_store [OF ws1 good_hello free1] have "hello_stored ?fs2 ?rs os_text"
    by (simp add: hello_stored_def)
  with made written show ?thesis by (rule that)
qed

text \<open>The host of the test, with both Monty tools and the policies for reads.\<close>

lemma os_host:
  fixes api :: "('x, 'r, 's, 'l) monty_api"
  obtains a k' k where
    "\<And>rest. with_tool now DEFAULT_TOOL_NAME (MontyTool bound api (monty_tool_new l)) mk_new
      (\<lambda>k. with_tool now DEFAULT_OS_TOOL_NAME MontyOsTool k rest) = rest k'"
    and "k = mk_append TFsReadAction (box_policy as_fs_read AllowWorkspaceReadPolicy)
      (mk_append TFsAction (box_policy as_fs_action AllowWorkspaceFsPolicy) k')"
    and "monty_host_of a k" and "mk_policy k = reading_policy"
    and "registered_at_path a DEFAULT_TOOL_NAME (MontyTool bound api (monty_tool_new l))"
    and "registered_at_path a DEFAULT_OS_TOOL_NAME MontyOsTool"
proof -
  let ?t = "monty_tool_new l"
  obtain a k where host: "monty_host_of a k" "mk_policy k = mk_policy mk_new"
    and tool: "registered_at_path a DEFAULT_TOOL_NAME (MontyTool bound api ?t)"
    and others: "\<And>p. p \<noteq> DEFAULT_TOOL_NAME \<Longrightarrow> mk_tools k p = None"
    and first: "\<And>rest. with_tool now DEFAULT_TOOL_NAME (MontyTool bound api ?t) mk_new rest = rest k"
    by (rule monty_registered [of ?t bound api now]) (simp_all add: monty_specs DEFAULT_TOOL_NAME_def)
  obtain a' k' where host': "monty_host_of a' k'" "mk_policy k' = mk_policy k"
    and tools: "registered_at_path a' DEFAULT_TOOL_NAME (MontyTool bound api ?t)"
      "registered_at_path a' DEFAULT_OS_TOOL_NAME MontyOsTool"
    and second: "\<And>rest. with_tool now DEFAULT_OS_TOOL_NAME MontyOsTool k rest = rest k'"
    by (rule with_second_tool [OF host(1) tool, of DEFAULT_OS_TOOL_NAME MontyOsTool now])
      (simp_all add: others monty_specs DEFAULT_TOOL_NAME_def DEFAULT_OS_TOOL_NAME_def)
  let ?a = "app_register_policy (Append TFsReadAction (box_policy as_fs_read AllowWorkspaceReadPolicy))
      (app_register_policy (Append TFsAction (box_policy as_fs_action AllowWorkspaceFsPolicy)) a')"
  show ?thesis
    by (rule that [OF _ refl, of k' ?a])
      (use host' host(2) tools in \<open>simp_all add: first second monty_host_append reading_policy_def\<close>)
qed

text \<open>The run of the script on such a host.\<close>

lemma os_run_ends:
  assumes there: "hello_stored (fs w) rs os_text" and script: "runs_read_script api l"
    and fresh: "\<not> poisoned (sessions w)" "load_raw (sessions w) (workspace_key rs ''default'') = Ok None"
    and host: "monty_host_of a k" "mk_policy k = reading_policy"
    and tools: "registered_at_path a DEFAULT_TOOL_NAME (MontyTool (Suc (Suc bound)) api (monty_tool_new l))"
      "registered_at_path a DEFAULT_OS_TOOL_NAME MontyOsTool"
  shows "\<exists>st. ends (app_invoke (Suc (Suc n)) a DEFAULT_TOOL_NAME (params_at rs (caps_from_slice [FsRead]))
      (json_object [(''code'', JString READ_TEXT_CODE)]) w)
    (Ok (monty_outcome (JString os_text) ''default'' WorkspaceLocal)) (fs w) st"
proof -
  let ?t = "monty_tool_new l" and ?caps = "caps_from_slice [FsRead]"
  note ws = hello_storedD(1) [OF there]
  have names: "\<forall>n \<in> set (rs @ [''hello.txt'']). good_name n" using plain_workspace_names [OF ws] good_hello by auto
  note policies = reading_policy_allows [OF host names]
  have "allows ?caps FsRead" by (simp add: caps_from_slice_allows)
  note allowed = policies(2) policies(3) [OF this]
  from script obtain s repl bs where
    s: "api_feed_start api (api_new api ''<agent-monty>'' l) READ_TEXT_CODE = read_hello s"
    and resume: "api_resume_call api s (ExtReturn (MString os_text)) = Ok (Complete repl (MString os_text))"
    and dump: "api_dump api repl = Ok bs" unfolding runs_read_script_def by blast
  have open_session: "monty_open_session api ?t None = Ok (api_new api ''<agent-monty>'' l)"
    by (rule monty_open_new) (simp add: monty_tool_new_def)
  have loop: "ends (run_prog a (app_invoke (Suc n) a) (at_workspace DEFAULT_TOOL_NAME reg ?caps rs)
        (drive (Suc (Suc bound)) api ?t (api_new api ''<agent-monty>'' l) READ_TEXT_CODE) w1)
        (Ok (os_step repl)) (fs w) (sessions w)" if "fs w1 = fs w" "sessions w1 = sessions w" for reg w1
    using os_drive_ends [of w1 rs, OF _ tools(2) allowed _ s resume, of ?t] there that by (simp add: monty_tool_new_def)
  have "api_dump api (step_repl (os_step repl)) = Ok bs"
    "monty_to_json api (step_value (os_step repl)) = Ok (JString os_text)"
    by (simp_all add: dump os_step_def)
  from monty_invocation_ends [OF ws tools(1) monty_payload_parsed(1) policies(1) fresh open_session loop this]
  show ?thesis by (auto simp: os_step_def simp del: app_invoke.simps)
qed

lemma os_call_test:
  assumes ws: "plain_workspace (fs w) ts" and script: "runs_read_script api l"
    and fresh: "\<not> poisoned (sessions w)" "\<And>rs. load_raw (sessions w) (workspace_key rs ''default'') = Ok None"
    and clock: "0 \<le> clock"
    and free: "nodes (fs w) (ts @ [temp_workspace_name ''monty-os-read-text'' pid next clock]) = None"
  shows "monty_os_call_invokes_os_tool_through_fs_access (Suc (Suc n)) now (Suc (Suc bound)) api l
    (path_of_names ts) pid clock next w"
proof -
  obtain rs fs1 fs2 where made: "temp_workspace_with_prefix (path_of_names ts) pid clock ''monty-os-read-text'' (next, fs w)
      = (Done \<lparr>temp_root = path_of_names rs\<rparr>, next + 1, fs1)"
    and written: "fs_write fs1 (path_join (path_of_names rs) ''hello.txt'') os_text = (Ok (), fs2)"
    and there: "hello_stored fs2 rs os_text"
    by (rule os_workspace [OF ws clock free])
  let ?tool = "MontyTool (Suc (Suc bound)) api (monty_tool_new l)" and ?w = "w\<lparr>fs := fs2\<rparr>"
  obtain a k' k where registered: "\<And>rest. with_tool now DEFAULT_TOOL_NAME ?tool mk_new
      (\<lambda>k. with_tool now DEFAULT_OS_TOOL_NAME MontyOsTool k rest) = rest k'"
    and k: "k = mk_append TFsReadAction (box_policy as_fs_read AllowWorkspaceReadPolicy)
      (mk_append TFsAction (box_policy as_fs_action AllowWorkspaceFsPolicy) k')"
    and host: "monty_host_of a k" "mk_policy k = reading_policy"
      "registered_at_path a DEFAULT_TOOL_NAME ?tool" "registered_at_path a DEFAULT_OS_TOOL_NAME MontyOsTool"
    by (rule os_host [of now "Suc (Suc bound)" api l]) blast
  have "hello_stored (fs ?w) rs os_text" "\<not> poisoned (sessions ?w)"
    "load_raw (sessions ?w) (workspace_key rs ''default'') = Ok None" using there fresh by simp_all
  from os_run_ends [OF this(1) script this(2,3) host] obtain st where
    ended: "ends (app_invoke (Suc (Suc n)) a DEFAULT_TOOL_NAME (params_at rs (caps_from_slice [FsRead]))
      (json_object [(''code'', JString READ_TEXT_CODE)]) ?w)
      (Ok (monty_outcome (JString os_text) ''default'' WorkspaceLocal)) (fs ?w) st" by blast
  have "invoking_monty (Suc (Suc n)) k (params_at rs (caps_from_slice [FsRead])) (json_object [(''code'', JString READ_TEXT_CODE)]) ?w
      (\<lambda>outcome w. json_index ''value'' (out_payload outcome) = JString os_text \<and> out_classification outcome = WorkspaceLocal)"
    by (rule invoking_monty_ends [OF host(1) ended]) (simp add: monty_outcome_parts)
  then show ?thesis
    unfolding monty_os_call_invokes_os_tool_through_fs_access_def made os_text_def [symmetric]
    by (simp add: written registered expecting_def unwrapping_def params_at_def k)
qed

text \<open>C40: the tests of the Monty tools hold for every interpreter that runs their three scripts as Python
  does: a call in the script reaches the exposed tool and its result comes back with the
  classification of that call; a variable that one run assigned is there in the next run of
  the session; a read in the script goes through the OS tool and the policies to the file in
  the workspace. The device does not fail, and the session store is empty at the start. They need
  two levels of invocations and three steps of the loop.\<close>

theorem monty_tests_pass:
  assumes "plain_workspace (fs w) ts" and "sessions w = session_store_new"
    and "runs_echo_script api l" and "runs_assignment_scripts api l" and "runs_read_script api l"
    and "0 \<le> clock" and "nodes (fs w) (ts @ [temp_workspace_name ''monty-os-read-text'' pid next clock]) = None"
  shows "monty_function_call_invokes_exposed_tool (2 + n) now (3 + bound) api l (path_of_names ts) w
    \<and> monty_session_store_preserves_repl_state (2 + n) now (3 + bound) api l (path_of_names ts) w
    \<and> monty_os_call_invokes_os_tool_through_fs_access (2 + n) now (3 + bound) api l (path_of_names ts) pid clock next w"
proof -
  have fresh: "\<not> poisoned (sessions w)" "load_raw (sessions w) key = Ok None" for key
    by (simp_all add: assms(2) session_store_new_def load_raw_def)
  have depth: "2 + n = Suc (Suc n)" "3 + bound = Suc (Suc (Suc bound))" by simp_all
  from function_call_test [OF assms(1,3) fresh, of n now bound]
    session_state_test [OF assms(1,4) fresh, of "Suc n" now "Suc (Suc bound)"]
    os_call_test [OF assms(1,5) fresh assms(6,7), of n now "Suc bound"]
  show ?thesis unfolding depth by blast
qed

section \<open>An interpreter for the scripts\<close>

text \<open>Its state says whether \<open>x\<close> is assigned; a suspended run keeps the state.\<close>

definition tests_api :: "(unit, bool, bool, unit) monty_api" where
  "tests_api =
     \<lparr>api_display = (\<lambda>_. ''object''), api_encode_other = (\<lambda>_. Ok JNull),
      api_new = (\<lambda>_ _. False), api_load = (\<lambda>bs. Ok (bs \<noteq> [])), api_dump = (\<lambda>x. Ok (if x then [1] else [])),
      api_feed_start = (\<lambda>x code.
        if code = ECHO_CODE then Ok (NameLookup ''echo'' x)
        else if code = READ_TEXT_CODE then Ok (OsCall ''Path.read_text'' [MPath ''hello.txt''] [] x)
        else if code = ''x = 41'' then Ok (Complete True MNone)
        else if code = ''x + 1'' \<and> x then Ok (Complete x (MInt 42))
        else Err ''NameError''),
      api_resume_lookup = (\<lambda>x r. case r of
          LookupValue _ \<Rightarrow> Ok (FunctionCall False ''echo'' [hello_object] [] x)
        | LookupUndefined \<Rightarrow> Err ''NameError''),
      api_resume_call = (\<lambda>x r. case r of
          ExtReturn v \<Rightarrow> Ok (Complete x v)
        | ExtError e \<Rightarrow> Err (''RuntimeError: '' @ e)
        | ExtNotFound n \<Rightarrow> Err (''NameError: '' @ n))\<rparr>"

lemma tests_api_runs:
  "runs_echo_script tests_api ()" "runs_assignment_scripts tests_api ()" "runs_read_script tests_api ()"
  by (auto simp: runs_echo_script_def runs_assignment_scripts_def runs_read_script_def calls_echo_def read_hello_def
      tests_api_def ECHO_CODE_def READ_TEXT_CODE_def quote_def)

theorem monty_tests_pass_witness:
  "monty_function_call_invokes_exposed_tool 2 0 3 tests_api () ''/tmp'' (initial_world (plain_fs [([''tmp''], Directory)]))
   \<and> monty_session_store_preserves_repl_state 2 0 3 tests_api () ''/tmp'' (initial_world (plain_fs [([''tmp''], Directory)]))
   \<and> monty_os_call_invokes_os_tool_through_fs_access 2 0 3 tests_api () ''/tmp'' 7 5 1
        (initial_world (plain_fs [([''tmp''], Directory)]))"
proof -
  let ?w = "initial_world (plain_fs [([''tmp''], Directory)])"
  have ws: "plain_workspace (fs ?w) [''tmp'']" using sample_temp_dir by simp
  have "nodes (fs ?w) ([''tmp''] @ [temp_workspace_name ''monty-os-read-text'' 7 1 5]) = None"
    by (simp add: tree_of_def)
  from monty_tests_pass [OF ws _ tests_api_runs _ this, of 0 0 0] show ?thesis
    by (simp add: path_of_names_def)
qed

lemma tests_api_restores: "restores tests_api"
  by (auto simp: restores_def tests_api_def split: if_splits)

theorem monty_session_continues_witness:
  "\<exists>a w1 out. app_invoke 1 a DEFAULT_TOOL_NAME (params_at [''tmp''] caps_empty)
       (json_object [(''code'', JString ''x = 41'')]) (initial_world (plain_fs [([''tmp''], Directory)])) = (Done (Ok out), w1)
   \<and> session_repl tests_api (monty_tool_new ()) (sessions w1) (workspace_key [''tmp''] ''default'') = Some True"
proof -
  let ?w = "initial_world (plain_fs [([''tmp''], Directory)])" and ?t = "monty_tool_new ()"
  let ?payload = "json_object [(''code'', JString ''x = 41'')]"
  have ws: "plain_workspace (fs ?w) [''tmp'']" using sample_temp_dir by simp
  obtain a k where host: "monty_host_of a k" "mk_policy k = mk_policy mk_new"
    and tool: "registered_at_path a DEFAULT_TOOL_NAME (MontyTool 1 tests_api ?t)"
    by (rule monty_registered [of ?t 1 tests_api 0]) (simp_all add: monty_specs DEFAULT_TOOL_NAME_def)
  have fresh: "\<not> poisoned (sessions ?w)" "load_raw (sessions ?w) (workspace_key [''tmp''] ''default'') = Ok None"
    by (simp_all add: session_store_new_def load_raw_def)
  have new: "monty_open_session tests_api ?t None = Ok False"
    by (simp add: monty_open_session_def tests_api_def)
  have start: "api_feed_start tests_api False ''x = 41'' = Ok (Complete True MNone)"
    by (simp add: tests_api_def ECHO_CODE_def READ_TEXT_CODE_def quote_def)
  have loop: "ends (run_prog a (app_invoke 0 a) (at_workspace DEFAULT_TOOL_NAME reg caps_empty [''tmp''])
      (drive 1 tests_api ?t False ''x = 41'') w1)
      (Ok \<lparr>step_repl = True, step_value = MNone, step_classification = Public\<rparr>) (fs ?w) (sessions ?w)"
    if "fs w1 = fs ?w" "sessions w1 = sessions ?w" for reg w1
    using completing_drive_ends [OF start, of _ _ _ 0 _ w1] that by simp
  have "api_dump tests_api True = Ok [1]" by (simp add: tests_api_def)
  then obtain out w1 where run: "app_invoke (Suc 0) a DEFAULT_TOOL_NAME (params_at [''tmp''] caps_empty) ?payload ?w
      = (Done (Ok out), w1)"
    using monty_invocation_ends [OF ws tool monty_payload_parsed(1) mk_new_sessions [OF host] fresh new loop, of "[1]" JNull]
    by (auto simp: ends_def yields_def simp del: app_invoke.simps)
  from monty_session_continues [OF tests_api_restores tool run] obtain ctx repl step wa wb where
    root: "canonical_root_existing (fs ?w) (params_workspace_root (params_at [''tmp''] caps_empty)) = Ok (cx_workspace_root ctx)"
    and repl: "session_repl tests_api ?t (sessions ?w) (monty_session_key_new (cx_root ctx) ''default'') = Some repl"
    and script: "run_prog a (app_invoke 0 a) ctx (drive 1 tests_api ?t repl ''x = 41'') wa = (Done (Ok step), wb)"
    and saved: "session_repl tests_api ?t (sessions w1) (monty_session_key_new (cx_root ctx) ''default'') = Some (step_repl step)"
    unfolding monty_payload_parsed by auto
  have at: "cx_root ctx = path_of_names [''tmp'']"
    using root canonical_root_plain [OF ws] by (simp add: cx_root_def params_at_def invocation_params_new_def)
  with repl fresh(2) new have "repl = False" by (simp add: session_repl_def)
  with script start have "step_repl step = True" by (auto simp: drive_def advance_Ok)
  with run saved at show ?thesis by (auto simp del: app_invoke.simps)
qed

end
